(* ===== verification/Prelude.thy ===== *)
theory Prelude
  imports Main "HOL-Library.Word" "HOL-Library.While_Combinator"
begin

text \<open>
  Shared vocabulary of the development: the machine integers of the firmware
  (\<open>uint8_t\<close> .. \<open>uint64_t\<close> as words of that width), little-endian encoding and decoding,
  byte memories (a buffer at a fixed address as a function from offsets to bytes), the
  wrap-safe deadline test every timeout of the firmware uses, and the generic
  state-machine interface that lifts an invariant from one operation to a run.
\<close>

unbundle bit_operations_syntax

named_theorems le_bytes "little-endian encodings and their lengths"
named_theorems mem_simps "reading a byte memory after a store"

section \<open>Machine integers\<close>

type_synonym byte = "8 word"
type_synonym u16 = "16 word"
type_synonym u32 = "32 word"
type_synonym u64 = "64 word"

lemma unat_u8_less [simp]: "unat (b :: byte) < 256"
  by (rule order_less_le_trans [OF unsigned_less]) simp

lemma unat_u16_less [simp]: "unat (w :: u16) < 65536"
  by (rule order_less_le_trans [OF unsigned_less]) simp

lemma unat_u32_less [simp]: "unat (w :: u32) < 4294967296"
  by (rule order_less_le_trans [OF unsigned_less]) simp

lemma unat_ucast_eq:
  "unat (ucast (x :: 'a::len word) :: 'b::len word) = unat x mod 2 ^ LENGTH('b)"
  by (simp add: unsigned_ucast_eq take_bit_eq_mod)

text \<open>The masks of the code, bit by bit.\<close>

lemma bit_mask_FF [simp]: "bit (0xFF :: int) k \<longleftrightarrow> k < 8"
proof -
  have "(0xFF :: int) = mask 8" by (simp add: mask_eq_exp_minus_1)
  then show ?thesis by (simp only: bit_mask_iff) auto
qed

lemma bit_mask_7F [simp]: "bit (0x7F :: int) k \<longleftrightarrow> k < 7"
proof -
  have "(0x7F :: int) = mask 7" by (simp add: mask_eq_exp_minus_1)
  then show ?thesis by (simp only: bit_mask_iff) auto
qed

lemma bit_mask_0F [simp]: "bit (0x0F :: int) k \<longleftrightarrow> k < 4"
proof -
  have "(0x0F :: int) = mask 4" by (simp add: mask_eq_exp_minus_1)
  then show ?thesis by (simp only: bit_mask_iff) auto
qed

lemma bit_mask_3 [simp]: "bit (3 :: int) k \<longleftrightarrow> k < 2"
proof -
  have "(3 :: int) = mask 2" by (simp add: mask_eq_exp_minus_1)
  then show ?thesis by (simp only: bit_mask_iff) auto
qed

lemma bit_mask_FC [simp]: "bit (0xFC :: int) k \<longleftrightarrow> 2 \<le> k \<and> k < 8"
proof -
  have "(0xFC :: int) = mask 8 XOR mask 2" by (simp add: mask_eq_exp_minus_1)
  then show ?thesis by (simp only: bit_mask_iff bit_xor_iff) auto
qed

lemma bit_mask_F0 [simp]: "bit (0xF0 :: int) k \<longleftrightarrow> 4 \<le> k \<and> k < 8"
proof -
  have "(0xF0 :: int) = mask 8 XOR mask 4" by (simp add: mask_eq_exp_minus_1)
  then show ?thesis by (simp only: bit_mask_iff bit_xor_iff) auto
qed

lemma bit_byte_7F: "bit (0x7F :: byte) k \<longleftrightarrow> k < 7"
  by (auto simp: bit_simps)

section \<open>Little-endian fields\<close>

definition put16 :: "u16 \<Rightarrow> byte list" where
  "put16 v = [ucast v, ucast (drop_bit 8 v)]"

definition put32 :: "u32 \<Rightarrow> byte list" where
  "put32 v = [ucast v, ucast (drop_bit 8 v), ucast (drop_bit 16 v), ucast (drop_bit 24 v)]"

definition get16 :: "byte \<Rightarrow> byte \<Rightarrow> u16" where
  "get16 lo hi = ucast lo OR push_bit 8 (ucast hi)"

definition get32 :: "byte \<Rightarrow> byte \<Rightarrow> byte \<Rightarrow> byte \<Rightarrow> u32" where
  "get32 a b c d = ucast a OR push_bit 8 (ucast b) OR push_bit 16 (ucast c) OR push_bit 24 (ucast d)"

lemma length_put16 [simp, le_bytes]: "length (put16 v) = 2"
  by (simp add: put16_def)

lemma length_put32 [simp, le_bytes]: "length (put32 v) = 4"
  by (simp add: put32_def)

lemma get16_put16 [simp]: "get16 (put16 v ! 0) (put16 v ! 1) = v"
  by (rule bit_word_eqI)
    (auto simp: get16_def put16_def bit_simps not_le)

lemma get32_put32 [simp]:
  "get32 (put32 v ! 0) (put32 v ! 1) (put32 v ! 2) (put32 v ! 3) = v"
proof (rule bit_word_eqI)
  fix n
  assume "n < LENGTH(32)"
  then consider "n < 8" | "8 \<le> n" "n < 16" | "16 \<le> n" "n < 24" | "24 \<le> n" "n < 32"
    by fastforce
  then show "bit (get32 (put32 v ! 0) (put32 v ! 1) (put32 v ! 2) (put32 v ! 3)) n \<longleftrightarrow> bit v n"
    by cases (auto simp: get32_def put32_def bit_simps)
qed

lemma get16_put16_Suc [simp]: "get16 (put16 v ! 0) (put16 v ! Suc 0) = v"
  using get16_put16 [of v] by simp

lemma get32_put32_Suc [simp]:
  "get32 (put32 v ! 0) (put32 v ! Suc 0) (put32 v ! 2) (put32 v ! 3) = v"
  using get32_put32 [of v] by simp

section \<open>Byte memories\<close>

text \<open>A fixed memory region (the OCRAM ring, say) as a function from offsets to bytes.\<close>

type_synonym mem = "nat \<Rightarrow> byte"

definition load :: "mem \<Rightarrow> nat \<Rightarrow> nat \<Rightarrow> byte list" where
  "load m off n = map m [off..<off + n]"

definition store :: "mem \<Rightarrow> nat \<Rightarrow> byte list \<Rightarrow> mem" where
  "store m off bs = (\<lambda>i. if off \<le> i \<and> i < off + length bs then bs ! (i - off) else m i)"

lemma length_load [simp, mem_simps]: "length (load m off n) = n"
  by (simp add: load_def)

lemma nth_load [simp, mem_simps]: "i < n \<Longrightarrow> load m off n ! i = m (off + i)"
  by (simp add: load_def)

lemma store_outside [mem_simps]: "i < off \<or> off + length bs \<le> i \<Longrightarrow> store m off bs i = m i"
  by (auto simp: store_def)

lemma store_inside [mem_simps]: "i < length bs \<Longrightarrow> store m off bs (off + i) = bs ! i"
  by (simp add: store_def)

lemma store_start [mem_simps]: "bs \<noteq> [] \<Longrightarrow> store m off bs off = bs ! 0"
  by (simp add: store_def)

lemma load_store_same [simp]: "n = length bs \<Longrightarrow> load (store m off bs) off n = bs"
  by (rule nth_equalityI) (simp_all add: store_def)

lemma load_cong: "(\<And>i. off \<le> i \<Longrightarrow> i < off + n \<Longrightarrow> m i = m' i) \<Longrightarrow> load m off n = load m' off n"
  by (simp add: load_def)

section \<open>Buffers\<close>

text \<open>
  A buffer of the code as a list of its capacity: \<open>memcpy(buf + off, bs, len)\<close> and the
  bytes read back from it.
\<close>

definition blit :: "'a list \<Rightarrow> nat \<Rightarrow> 'a list \<Rightarrow> 'a list" where
  "blit buf off bs = take off buf @ bs @ drop (off + length bs) buf"

definition slice :: "'a list \<Rightarrow> nat \<Rightarrow> nat \<Rightarrow> 'a list" where
  "slice buf off n = take n (drop off buf)"

named_theorems buf_simps "reading a buffer after a copy into it"

lemma length_blit [simp, buf_simps]:
  "off + length bs \<le> length buf \<Longrightarrow> length (blit buf off bs) = length buf"
  by (simp add: blit_def)

lemma nth_blit [buf_simps]:
  "off + length bs \<le> length buf \<Longrightarrow> i < length buf \<Longrightarrow>
    blit buf off bs ! i = (if off \<le> i \<and> i < off + length bs then bs ! (i - off) else buf ! i)"
  by (auto simp: blit_def nth_append min_def)

lemma length_slice [simp, buf_simps]: "off + n \<le> length buf \<Longrightarrow> length (slice buf off n) = n"
  by (simp add: slice_def)

lemma nth_slice [simp, buf_simps]: "off + n \<le> length buf \<Longrightarrow> i < n \<Longrightarrow> slice buf off n ! i = buf ! (off + i)"
  by (simp add: slice_def)

lemma slice_blit_same [simp, buf_simps]:
  "off + length bs \<le> length buf \<Longrightarrow> n = length bs \<Longrightarrow> slice (blit buf off bs) off n = bs"
  by (simp add: slice_def blit_def)

lemma slice_blit_disjoint [buf_simps]:
  assumes "off + length bs \<le> length buf" "o2 + n \<le> off \<or> off + length bs \<le> o2" "o2 + n \<le> length buf"
  shows "slice (blit buf off bs) o2 n = slice buf o2 n"
  using assms by (intro nth_equalityI) (auto simp: buf_simps)

section \<open>Wrap-safe deadlines\<close>

text \<open>\<open>(int32_t)(now - deadline) >= 0\<close>, the idiom of every timeout on \<open>millis()\<close>.\<close>

definition expired :: "u32 \<Rightarrow> u32 \<Rightarrow> bool" where
  "expired now deadline \<longleftrightarrow> 0 \<le> sint (now - deadline)"

section \<open>Runs of operations\<close>

text \<open>
  The contract of a component whose operations keep an invariant: the component provides
  one step per operation, and the invariant then holds after any sequence of them.
\<close>

locale invariant_machine =
  fixes step :: "'op \<Rightarrow> 's \<Rightarrow> 's"
    and invar :: "'s \<Rightarrow> bool"
  assumes step_invar: "invar s \<Longrightarrow> invar (step a s)"
begin

lemma run_invar: "invar s \<Longrightarrow> invar (fold step ops s)"
  by (induction ops arbitrary: s) (auto intro: step_invar)

lemma run_prefix_invar: "invar s \<Longrightarrow> invar (fold step (take n ops) s)"
  by (rule run_invar)

end

end
