(* ===== verification/Board.thy ===== *)
theory Board
  imports Prelude "HOL-Library.Multiset"
begin

text \<open>
  \<open>src/src/ArenaConfig.h\<close>, \<open>src/src/hw/ArenaConfig_*.h\<close> and the constants of
  \<open>src/src/constants.h\<close>. The board is chosen at build time by a flag; here it is the
  argument of type \<open>arena_hw\<close> of everything that depends on it.
\<close>

datatype arena_hw = ARENA_HW_10_10 | ARENA_HW_12_18 | ARENA_HW_2_10

section \<open>Geometry\<close>

fun panel_count_per_frame_row :: "arena_hw \<Rightarrow> nat" where
  "panel_count_per_frame_row ARENA_HW_10_10 = 4"
| "panel_count_per_frame_row ARENA_HW_12_18 = 4"
| "panel_count_per_frame_row ARENA_HW_2_10 = 2"

fun panel_count_per_frame_col :: "arena_hw \<Rightarrow> nat" where
  "panel_count_per_frame_col ARENA_HW_10_10 = 10"
| "panel_count_per_frame_col ARENA_HW_12_18 = 12"
| "panel_count_per_frame_col ARENA_HW_2_10 = 10"

definition panel_count_per_frame :: "arena_hw \<Rightarrow> nat" where
  "panel_count_per_frame b = panel_count_per_frame_row b * panel_count_per_frame_col b"

definition panel_block_byte_count_gs2 :: nat where "panel_block_byte_count_gs2 = 53"
definition panel_block_byte_count_gs16 :: nat where "panel_block_byte_count_gs16 = 203"
definition stream_frame_prefix_byte_count :: nat where "stream_frame_prefix_byte_count = 4"

definition stream_frame_byte_count_gs2 :: "arena_hw \<Rightarrow> nat" where
  "stream_frame_byte_count_gs2 b = stream_frame_prefix_byte_count + panel_count_per_frame b * panel_block_byte_count_gs2"

definition stream_frame_byte_count_gs16 :: "arena_hw \<Rightarrow> nat" where
  "stream_frame_byte_count_gs16 b = stream_frame_prefix_byte_count + panel_count_per_frame b * panel_block_byte_count_gs16"

definition frame_buf_byte_count_max :: "arena_hw \<Rightarrow> nat" where
  "frame_buf_byte_count_max b = stream_frame_byte_count_gs16 b"

section \<open>Constants\<close>

definition spi_clock_speed :: u32 where "spi_clock_speed = 25000000"
definition cs_setup_sck_periods :: u64 where "cs_setup_sck_periods = 2"
definition cs_hold_sck_periods :: u64 where "cs_hold_sck_periods = 25"

fun refresh_rate_gs16_default :: "arena_hw \<Rightarrow> u32" where
  "refresh_rate_gs16_default ARENA_HW_2_10 = 300"
| "refresh_rate_gs16_default _ = 400"

fun refresh_rate_gs2_default :: "arena_hw \<Rightarrow> u32" where
  "refresh_rate_gs2_default ARENA_HW_2_10 = 1000"
| "refresh_rate_gs2_default _ = 1200"

definition stream_header_byte_count :: nat where "stream_header_byte_count = 3"
definition first_command_byte_max_value_binary :: byte where "first_command_byte_max_value_binary = 0x32"
definition byte_count_per_response_max :: nat where "byte_count_per_response_max = 200"
definition pattern_max_count :: nat where "pattern_max_count = 256"
definition pattern_name_byte_count :: nat where "pattern_name_byte_count = 64"
definition pattern_header_byte_count :: nat where "pattern_header_byte_count = 18"
definition pattern_frame_prefix_byte_count :: nat where "pattern_frame_prefix_byte_count = 4"
definition pattern_frame_crc_byte_count :: nat where "pattern_frame_crc_byte_count = 2"
definition pattern_format_version :: nat where "pattern_format_version = 2"
definition arena_panel_count_max :: nat where "arena_panel_count_max = 48"
definition microseconds_per_second :: u32 where "microseconds_per_second = 1000000"

definition region_cipo_pins :: "nat list" where "region_cipo_pins = [12, 1]"

definition CE_NONE :: byte where "CE_NONE = 0"
definition CE_UNKNOWN_CMD :: byte where "CE_UNKNOWN_CMD = 1"
definition CE_BAD_PAYLOAD_LEN :: byte where "CE_BAD_PAYLOAD_LEN = 2"
definition CE_BAD_PARAM :: byte where "CE_BAD_PARAM = 3"
definition CE_SD_NOT_PRESENT :: byte where "CE_SD_NOT_PRESENT = 4"
definition CE_SD_FILE_ERROR :: byte where "CE_SD_FILE_ERROR = 5"
definition CE_HEADER_CRC :: byte where "CE_HEADER_CRC = 6"
definition CE_FRAME_CRC :: byte where "CE_FRAME_CRC = 7"
definition CE_ARENA_MISMATCH :: byte where "CE_ARENA_MISMATCH = 8"
definition CE_MANIFEST_WRITE_ERROR :: byte where "CE_MANIFEST_WRITE_ERROR = 9"
definition CE_DISPLAY_ACTIVE :: byte where "CE_DISPLAY_ACTIVE = 10"
definition CE_SD_FORMAT_ERROR :: byte where "CE_SD_FORMAT_ERROR = 11"

lemmas CE_defs = CE_NONE_def CE_UNKNOWN_CMD_def CE_BAD_PAYLOAD_LEN_def CE_BAD_PARAM_def
  CE_SD_NOT_PRESENT_def CE_SD_FILE_ERROR_def CE_HEADER_CRC_def CE_FRAME_CRC_def CE_ARENA_MISMATCH_def
  CE_MANIFEST_WRITE_ERROR_def CE_DISPLAY_ACTIVE_def CE_SD_FORMAT_ERROR_def

section \<open>Panel maps\<close>

record panel_set =
  cs_pin :: nat
  panel_b0 :: nat
  panel_b1 :: nat

definition PS :: "nat \<Rightarrow> nat \<Rightarrow> nat \<Rightarrow> panel_set" where
  "PS cs p0 p1 = \<lparr>cs_pin = cs, panel_b0 = p0, panel_b1 = p1\<rparr>"

lemma PS_sel [simp]: "cs_pin (PS c p q) = c" "panel_b0 (PS c p q) = p" "panel_b1 (PS c p q) = q"
  by (simp_all add: PS_def)

definition panel_sets_10_10 :: "panel_set list" where
  "panel_sets_10_10 =
    [PS 0 0 5, PS 2 10 15, PS 3 20 25, PS 4 30 35,
     PS 5 1 6, PS 6 11 16, PS 7 21 26, PS 8 31 36,
     PS 9 2 7, PS 10 12 17, PS 24 22 27, PS 25 32 37,
     PS 28 3 8, PS 29 13 18, PS 30 23 28, PS 31 33 38,
     PS 32 4 9, PS 23 14 19, PS 22 24 29, PS 21 34 39]"

definition panel_sets_12_18 :: "panel_set list" where
  "panel_sets_12_18 =
    [PS 0 0 6, PS 2 12 18, PS 3 24 30, PS 4 36 42,
     PS 5 1 7, PS 6 13 19, PS 7 25 31, PS 8 37 43,
     PS 9 2 8, PS 10 14 20, PS 24 26 32, PS 25 38 44,
     PS 28 3 9, PS 29 15 21, PS 30 27 33, PS 31 39 45,
     PS 32 4 10, PS 23 16 22, PS 22 28 34, PS 21 40 46,
     PS 41 5 11, PS 40 17 23, PS 39 29 35, PS 38 41 47]"

definition panel_sets_2_10 :: "panel_set list" where
  "panel_sets_2_10 =
    [PS 0 0 5, PS 2 10 15,
     PS 5 1 6, PS 6 11 16,
     PS 9 2 7, PS 10 12 17,
     PS 28 3 8, PS 29 13 18,
     PS 32 4 9, PS 23 14 19]"

fun panel_sets :: "arena_hw \<Rightarrow> panel_set list" where
  "panel_sets ARENA_HW_10_10 = panel_sets_10_10"
| "panel_sets ARENA_HW_12_18 = panel_sets_12_18"
| "panel_sets ARENA_HW_2_10 = panel_sets_2_10"

fun cs_decode_tie_high_pins :: "arena_hw \<Rightarrow> nat list" where
  "cs_decode_tie_high_pins ARENA_HW_2_10 = [3, 4, 7, 8, 24, 25, 30, 31, 22, 21]"
| "cs_decode_tie_high_pins _ = []"

section \<open>What every board map promises\<close>

text \<open>
  The interface the SPI driver relies on: the chip selects are distinct, the two buses
  together reach every panel of the frame exactly once, and no decode pin is a chip select.
\<close>

definition map_panels :: "panel_set list \<Rightarrow> nat list" where
  "map_panels pss = map panel_b0 pss @ map panel_b1 pss"

locale arena_board =
  fixes pss :: "panel_set list" and ties :: "nat list" and n :: nat
  assumes cs_distinct: "distinct (map cs_pin pss)"
    and panels_once: "sort (map_panels pss) = [0..<n]"
    and ties_not_cs: "set ties \<inter> set (map cs_pin pss) = {}"
begin

lemma panels_mset: "mset (map_panels pss) = mset [0..<n]"
  using panels_once by (metis mset_sort)

lemma panels_set: "set (map_panels pss) = {..<n}"
  using panels_once by (metis set_sort atLeast_upt)

lemma panels_distinct: "distinct (map_panels pss)"
  using panels_mset by (metis distinct_upt mset_eq_imp_distinct_iff)

lemma set_count: "n = 2 * length pss"
  using arg_cong [OF panels_once, of length] by (simp add: map_panels_def)

text \<open>A panel of the arena is on exactly one bus of exactly one set.\<close>

lemma panel_located:
  assumes "p < n"
  obtains i where "i < length pss" "panel_b0 (pss ! i) = p" "p \<notin> set (map panel_b1 pss)"
        | i where "i < length pss" "panel_b1 (pss ! i) = p" "p \<notin> set (map panel_b0 pss)"
proof -
  have d: "set (map panel_b0 pss) \<inter> set (map panel_b1 pss) = {}"
    using panels_distinct by (simp add: map_panels_def)
  have "p \<in> set (map_panels pss)" using panels_set assms by simp
  then consider "p \<in> set (map panel_b0 pss)" | "p \<in> set (map panel_b1 pss)"
    by (auto simp: map_panels_def)
  then show ?thesis
  proof cases
    case 1
    then obtain i where "i < length pss" "panel_b0 (pss ! i) = p" by (auto simp: in_set_conv_nth)
    with that(1) 1 d show ?thesis by blast
  next
    case 2
    then obtain i where "i < length pss" "panel_b1 (pss ! i) = p" by (auto simp: in_set_conv_nth)
    with that(2) 2 d show ?thesis by blast
  qed
qed

end

lemmas board_defs = panel_sets_10_10_def panel_sets_12_18_def panel_sets_2_10_def
  panel_count_per_frame_def map_panels_def upt_rec


lemma board_map:
  "distinct (map cs_pin (panel_sets b)) \<and> sort (map_panels (panel_sets b)) = [0..<panel_count_per_frame b]
    \<and> set (cs_decode_tie_high_pins b) \<inter> set (map cs_pin (panel_sets b)) = {}"
  by (cases b; simp only: panel_sets.simps cs_decode_tie_high_pins.simps; code_simp)

interpretation bd: arena_board "panel_sets b" "cs_decode_tie_high_pins b" "panel_count_per_frame b" for b
  by unfold_locales (use board_map [of b] in blast)+

lemma panel_count_bounds: "20 \<le> panel_count_per_frame b" "panel_count_per_frame b \<le> 48"
  by (cases b; simp add: panel_count_per_frame_def)+

lemma frame_max_bounds: "4064 \<le> frame_buf_byte_count_max b" "frame_buf_byte_count_max b \<le> 9748"
  using panel_count_bounds [of b]
  by (simp_all add: frame_buf_byte_count_max_def stream_frame_byte_count_gs16_def stream_frame_prefix_byte_count_def
      panel_block_byte_count_gs16_def)

end
