(* ===== verification/Checksums.thy ===== *)
theory Checksums
  imports Prelude
begin

text \<open>
  \<open>src/src/Crc.h\<close>: the three CRC primitives of the firmware. CRC-8/AUTOSAR guards the
  pattern header and every ISP reply, CRC-16/CCITT-FALSE every frame of a pattern file,
  CRC-32 (by nibble table) the uploaded panel image, the ISP pages and the ZIP entries.

  What the clients rely on is the contract \<open>checksum\<close>: one byte updates the running value
  injectively in the value and in the byte. Its consequences (the value after a
  concatenation, detection of any corruption confined to one byte) are proved once in
  the locale and interpreted for the three CRCs.
\<close>

section \<open>The contract of a running checksum\<close>

locale checksum =
  fixes upd :: "'s \<Rightarrow> byte \<Rightarrow> 's"
  assumes upd_state_inj: "upd s b = upd s' b \<Longrightarrow> s = s'"
    and upd_byte_inj: "upd s b = upd s b' \<Longrightarrow> b = b'"
begin

lemma run_append: "foldl upd s (xs @ ys) = foldl upd (foldl upd s xs) ys"
  by simp

lemma run_state_inj: "foldl upd s xs = foldl upd s' xs \<Longrightarrow> s = s'"
  by (induction xs arbitrary: s s') (auto dest: upd_state_inj)

lemma run_byte_inj:
  assumes "foldl upd s (xs @ a # zs) = foldl upd s (xs @ b # zs)"
  shows "a = b"
proof -
  from assms have "foldl upd (upd (foldl upd s xs) a) zs = foldl upd (upd (foldl upd s xs) b) zs"
    by simp
  then have "upd (foldl upd s xs) a = upd (foldl upd s xs) b"
    by (rule run_state_inj)
  then show ?thesis by (rule upd_byte_inj)
qed

lemma detects_byte:
  assumes "i < length xs" and "b \<noteq> xs ! i"
  shows "foldl upd s (xs[i := b]) \<noteq> foldl upd s xs"
proof
  assume "foldl upd s (xs[i := b]) = foldl upd s xs"
  with assms(1) have "foldl upd s (take i xs @ b # drop (Suc i) xs)
      = foldl upd s (take i xs @ xs ! i # drop (Suc i) xs)"
    by (metis id_take_nth_drop upd_conv_take_nth_drop)
  then have "b = xs ! i" by (rule run_byte_inj)
  with assms(2) show False ..
qed

end

text \<open>
  A checksum of at least two bytes' width has a stronger contract: two successive bytes
  determine the value, so every corruption confined to two adjacent bytes is seen.
\<close>

locale wide_checksum = checksum +
  assumes upd_pair_inj: "upd (upd s a) b = upd (upd s a') b' \<Longrightarrow> a = a' \<and> b = b'"
begin

lemma run_pair_inj:
  assumes "foldl upd s (xs @ a # b # zs) = foldl upd s (xs @ a' # b' # zs)"
  shows "a = a' \<and> b = b'"
proof -
  from assms have "foldl upd (upd (upd (foldl upd s xs) a) b) zs
      = foldl upd (upd (upd (foldl upd s xs) a') b') zs" by simp
  then have "upd (upd (foldl upd s xs) a) b = upd (upd (foldl upd s xs) a') b'"
    by (rule run_state_inj)
  then show ?thesis by (rule upd_pair_inj)
qed

lemma detects_adjacent:
  assumes "Suc i < length xs" and "(a, b) \<noteq> (xs ! i, xs ! Suc i)"
  shows "foldl upd s (xs[i := a, Suc i := b]) \<noteq> foldl upd s xs"
proof
  assume eq: "foldl upd s (xs[i := a, Suc i := b]) = foldl upd s xs"
  have "xs = take i xs @ xs ! i # xs ! Suc i # drop (Suc (Suc i)) xs"
    using assms(1) by (simp add: Cons_nth_drop_Suc)
  moreover have "xs[i := a, Suc i := b] = take i xs @ a # b # drop (Suc (Suc i)) xs"
    using assms(1) by (simp add: upd_conv_take_nth_drop [of i] list_update_append Cons_nth_drop_Suc [symmetric])
  ultimately have "a = xs ! i \<and> b = xs ! Suc i"
    using run_pair_inj eq by metis
  with assms(2) show False by simp
qed

end

section \<open>Shift registers\<close>

text \<open>One bit of a left-shifting CRC: the code's \<open>(crc & top) ? (crc << 1) ^ poly : crc << 1\<close>.\<close>

definition shift_left_bit :: "'a::len word \<Rightarrow> 'a word \<Rightarrow> 'a word" where
  "shift_left_bit poly crc =
     (if bit crc (LENGTH('a) - 1) then push_bit 1 crc XOR poly else push_bit 1 crc)"

lemma bit_shift_left_0:
  assumes "bit poly 0"
  shows "bit (shift_left_bit poly (crc :: 'a::len word)) 0 = bit crc (LENGTH('a) - 1)"
proof -
  have "\<not> bit (push_bit 1 crc) 0" by (simp only: bit_push_bit_iff) simp
  with assms show ?thesis by (simp only: shift_left_bit_def bit_xor_iff split: if_split) simp
qed

lemma xor_right_cancel: "(a :: 'a::len word) XOR p = b XOR p \<longleftrightarrow> a = b"
proof
  assume "a XOR p = b XOR p"
  then have "(a XOR p) XOR p = (b XOR p) XOR p" by simp
  then show "a = b" by (simp only: xor.assoc xor_self_eq xor.right_neutral)
qed simp

lemma shift_left_bit_inj:
  fixes c c' :: "'a::len word"
  assumes p: "bit poly 0" and eq: "shift_left_bit poly c = shift_left_bit poly c'"
  shows "c = c'"
proof (rule bit_word_eqI)
  fix n
  assume n: "n < LENGTH('a)"
  from eq have top: "bit c (LENGTH('a) - 1) = bit c' (LENGTH('a) - 1)"
    using bit_shift_left_0 [OF p, of c] bit_shift_left_0 [OF p, of c'] by simp
  then have sh: "push_bit 1 c = push_bit 1 c'"
    using eq by (simp only: shift_left_bit_def xor_right_cancel split: if_splits) metis
  show "bit c n = bit c' n"
  proof (cases "Suc n < LENGTH('a)")
    case True
    from sh have "bit (push_bit 1 c) (Suc n) = bit (push_bit 1 c') (Suc n)" by (simp only:)
    with True show ?thesis by (simp only: bit_push_bit_iff) simp
  next
    case False
    with n have "n = LENGTH('a) - 1" by simp
    with top show ?thesis by simp
  qed
qed

lemma funpow_injD:
  fixes f :: "'a \<Rightarrow> 'a"
  assumes inj: "\<And>x y. f x = f y \<Longrightarrow> x = y"
  shows "(f ^^ n) x = (f ^^ n) y \<Longrightarrow> x = y"
proof (induction n)
  case (Suc n)
  from Suc.prems have "f ((f ^^ n) x) = f ((f ^^ n) y)" by simp
  then have "(f ^^ n) x = (f ^^ n) y" by (rule inj)
  then show ?case by (rule Suc.IH)
qed simp

section \<open>CRC-8/AUTOSAR\<close>

definition crc8_bit :: "byte \<Rightarrow> byte" where
  "crc8_bit crc = (if crc AND 0x80 \<noteq> 0 then push_bit 1 crc XOR 0x2F else push_bit 1 crc)"

definition crc8_step :: "byte \<Rightarrow> byte \<Rightarrow> byte" where
  "crc8_step crc b = (crc8_bit ^^ 8) (crc XOR b)"

definition crc8_autosar :: "byte list \<Rightarrow> byte" where
  "crc8_autosar data = foldl crc8_step 0xFF data XOR 0xFF"

section \<open>CRC-16/CCITT-FALSE\<close>

definition crc16_bit :: "u16 \<Rightarrow> u16" where
  "crc16_bit crc = (if crc AND 0x8000 \<noteq> 0 then push_bit 1 crc XOR 0x1021 else push_bit 1 crc)"

definition crc16_step :: "u16 \<Rightarrow> byte \<Rightarrow> u16" where
  "crc16_step crc b = (crc16_bit ^^ 8) (crc XOR push_bit 8 (ucast b))"

definition crc16_ccitt_false :: "byte list \<Rightarrow> u16" where
  "crc16_ccitt_false data = foldl crc16_step 0xFFFF data"

section \<open>CRC-32 by nibble table\<close>

definition crc32_T :: "u32 list" where
  "crc32_T =
    [0x00000000, 0x1db71064, 0x3b6e20c8, 0x26d930ac,
     0x76dc4190, 0x6b6b51f4, 0x4db26158, 0x5005713c,
     0xedb88320, 0xf00f9344, 0xd6d6a3e8, 0xcb61b38c,
     0x9b64c2b0, 0x86d3d2d4, 0xa00ae278, 0xbdbdf21c]"

definition crc32_nibble :: "u32 \<Rightarrow> u32 \<Rightarrow> u32" where
  "crc32_nibble crc x = crc32_T ! unat ((crc XOR x) AND 0xf) XOR drop_bit 4 crc"

definition crc32_byte :: "u32 \<Rightarrow> byte \<Rightarrow> u32" where
  "crc32_byte crc b =
     (let crc = crc32_nibble crc (ucast b)
      in crc32_nibble crc (ucast (drop_bit 4 b)))"

definition crc32_update :: "u32 \<Rightarrow> byte list \<Rightarrow> u32" where
  "crc32_update crc data = foldl crc32_byte crc data"

text \<open>The usage note: \<open>crc32_update(0xFFFFFFFFu, data, len) ^ 0xFFFFFFFFu\<close>.\<close>

definition crc32 :: "byte list \<Rightarrow> u32" where
  "crc32 data = crc32_update 0xFFFFFFFF data XOR 0xFFFFFFFF"

section \<open>The reference: CRC-32/ISO-HDLC bit by bit\<close>

definition crc32_ref_bit :: "u32 \<Rightarrow> u32" where
  "crc32_ref_bit crc = (if bit crc 0 then drop_bit 1 crc XOR 0xEDB88320 else drop_bit 1 crc)"

definition crc32_ref_byte :: "u32 \<Rightarrow> byte \<Rightarrow> u32" where
  "crc32_ref_byte crc b = (crc32_ref_bit ^^ 8) (crc XOR ucast b)"

definition crc32_ref :: "byte list \<Rightarrow> u32" where
  "crc32_ref data = foldl crc32_ref_byte 0xFFFFFFFF data XOR 0xFFFFFFFF"

section \<open>Injectivity of the steps\<close>

lemma crc8_bit_shift: "crc8_bit = shift_left_bit 0x2F"
proof
  fix c :: byte
  show "crc8_bit c = shift_left_bit 0x2F c"
    using and_exp_eq_0_iff_not_bit [of c 7] by (simp add: crc8_bit_def shift_left_bit_def)
qed

lemma crc16_bit_shift: "crc16_bit = shift_left_bit 0x1021"
proof
  fix c :: u16
  show "crc16_bit c = shift_left_bit 0x1021 c"
    using and_exp_eq_0_iff_not_bit [of c 15] by (simp add: crc16_bit_def shift_left_bit_def)
qed

lemma crc8_bit_inj: "crc8_bit c = crc8_bit c' \<Longrightarrow> c = c'"
  unfolding crc8_bit_shift by (rule shift_left_bit_inj [rotated]) (assumption, simp)

lemma crc16_bit_inj: "crc16_bit c = crc16_bit c' \<Longrightarrow> c = c'"
  unfolding crc16_bit_shift by (rule shift_left_bit_inj [rotated]) (assumption, simp)

lemma crc8_bits_inj: "(crc8_bit ^^ n) x = (crc8_bit ^^ n) y \<Longrightarrow> x = y"
  by (rule funpow_injD [where f = crc8_bit]) (rule crc8_bit_inj)

lemma crc16_bits_inj: "(crc16_bit ^^ n) x = (crc16_bit ^^ n) y \<Longrightarrow> x = y"
  by (rule funpow_injD [where f = crc16_bit]) (rule crc16_bit_inj)

lemma push_ucast_inj: "push_bit 8 (ucast (b :: byte) :: u16) = push_bit 8 (ucast b') \<Longrightarrow> b = b'"
proof (rule bit_word_eqI)
  fix n
  assume eq: "push_bit 8 (ucast b :: u16) = push_bit 8 (ucast b')" and n: "n < LENGTH(8)"
  from eq have "bit (push_bit 8 (ucast b :: u16)) (8 + n) = bit (push_bit 8 (ucast b' :: u16)) (8 + n)"
    by simp
  with n show "bit b n = bit b' n" by (simp add: bit_simps)
qed

lemma xor_left_cancel: "(p :: 'a::len word) XOR a = p XOR b \<longleftrightarrow> a = b"
  using xor_right_cancel [of a p b] by (simp add: xor.commute)

interpretation crc8: checksum crc8_step
proof
  fix s s' :: byte and b b' :: byte
  show "crc8_step s b = crc8_step s' b \<Longrightarrow> s = s'"
    unfolding crc8_step_def by (drule crc8_bits_inj) (simp add: xor_right_cancel)
  show "crc8_step s b = crc8_step s b' \<Longrightarrow> b = b'"
    unfolding crc8_step_def by (drule crc8_bits_inj) (simp add: xor_left_cancel)
qed

lemma shift_left_bit_xor:
  "shift_left_bit p (a XOR b) = shift_left_bit p a XOR shift_left_bit p (b :: 'a::len word)"
proof (rule bit_word_eqI)
  fix i
  show "bit (shift_left_bit p (a XOR b)) i = bit (shift_left_bit p a XOR shift_left_bit p b) i"
    by (cases "bit a (LENGTH('a) - 1)"; cases "bit b (LENGTH('a) - 1)")
      (simp_all only: shift_left_bit_def bit_xor_iff push_bit_xor if_True if_False simp_thms, blast+)
qed

lemma crc16_bits_xor: "(crc16_bit ^^ n) (a XOR b) = (crc16_bit ^^ n) a XOR (crc16_bit ^^ n) b"
proof (induction n)
  case (Suc n)
  have "crc16_bit (x XOR y) = crc16_bit x XOR crc16_bit y" for x y
    unfolding crc16_bit_shift by (rule shift_left_bit_xor)
  with Suc show ?case by (simp only: funpow.simps comp_apply)
qed simp

lemma crc16_bits_low:
  "n \<le> 8 \<Longrightarrow> (crc16_bit ^^ n) (ucast (b :: byte)) = push_bit n (ucast b)"
proof (induction n)
  case (Suc n)
  have "\<not> bit (push_bit n (ucast b :: u16)) 15"
    using Suc.prems by (simp only: bit_push_bit_iff bit_unsigned_iff) (auto dest: bit_imp_le_length)
  then have "crc16_bit (push_bit n (ucast b)) = push_bit 1 (push_bit n (ucast b))"
    by (simp only: crc16_bit_shift shift_left_bit_def, simp)
  with Suc show ?case by (simp only: funpow.simps comp_apply push_bit_push_bit) simp
qed simp

lemma crc16_two_bytes:
  "crc16_step (crc16_step s a) b = (crc16_bit ^^ 16) (s XOR (push_bit 8 (ucast a) XOR ucast b))"
proof -
  have "crc16_step (crc16_step s a) b
      = (crc16_bit ^^ 8) ((crc16_bit ^^ 8) (s XOR push_bit 8 (ucast a)) XOR (crc16_bit ^^ 8) (ucast b))"
    by (simp only: crc16_step_def crc16_bits_low [OF order_refl])
  also have "\<dots> = (crc16_bit ^^ (8 + 8)) ((s XOR push_bit 8 (ucast a)) XOR ucast b)"
    by (simp only: crc16_bits_xor funpow_add comp_apply)
  finally show ?thesis by (simp add: xor.assoc)
qed

lemma byte_pair_inj:
  assumes "push_bit 8 (ucast a :: 'a::len word) XOR ucast b = push_bit 8 (ucast a') XOR ucast b'"
    and len: "16 \<le> LENGTH('a)"
  shows "a = (a' :: byte) \<and> b = (b' :: byte)"
proof -
  have eq: "bit (push_bit 8 (ucast a :: 'a word) XOR ucast b) i
      = bit (push_bit 8 (ucast a' :: 'a word) XOR ucast b') i" for i
    using assms(1) by (simp only:)
  have "bit a i = bit a' i" if "i < 8" for i
    using eq [of "8 + i"] that len by (auto simp: bit_simps dest: bit_imp_le_length)
  moreover have "bit b i = bit b' i" if "i < 8" for i
    using eq [of i] that len by (simp add: bit_simps)
  ultimately show ?thesis by (auto intro: bit_word_eqI)
qed

interpretation crc16: wide_checksum crc16_step
proof
  fix s s' :: u16 and a a' b b' :: byte
  show "crc16_step s b = crc16_step s' b \<Longrightarrow> s = s'"
    unfolding crc16_step_def by (drule crc16_bits_inj) (simp add: xor_right_cancel)
  show "crc16_step s b = crc16_step s b' \<Longrightarrow> b = b'"
    unfolding crc16_step_def
    by (drule crc16_bits_inj) (simp only: xor_left_cancel, rule push_ucast_inj)
  show "crc16_step (crc16_step s a) b = crc16_step (crc16_step s a') b' \<Longrightarrow> a = a' \<and> b = b'"
    unfolding crc16_two_bytes
    by (drule crc16_bits_inj) (simp only: xor_left_cancel, erule byte_pair_inj, simp)
qed

section \<open>The nibble table computes the bitwise CRC-32\<close>

lemma crc32_ref_bit_xor: "crc32_ref_bit (a XOR b) = crc32_ref_bit a XOR crc32_ref_bit b"
proof (cases "bit a 0"; cases "bit b 0")
qed (auto simp: crc32_ref_bit_def bit_xor_iff drop_bit_xor xor.assoc xor.left_commute xor.commute)

lemma crc32_ref_bits_xor:
  "(crc32_ref_bit ^^ n) (a XOR b) = (crc32_ref_bit ^^ n) a XOR (crc32_ref_bit ^^ n) b"
  by (induction n) (simp_all add: crc32_ref_bit_xor)

lemma crc32_ref_nibble_table:
  "k < 16 \<Longrightarrow> (crc32_ref_bit ^^ 4) (word_of_nat k) = crc32_T ! k"
proof -
  have "\<forall>k\<in>set [0..<16]. (crc32_ref_bit ^^ 4) (word_of_nat k) = crc32_T ! k"
    by code_simp
  then show "k < 16 \<Longrightarrow> ?thesis" by simp
qed

lemma crc32_ref_bit_shift:
  fixes d :: u32
  assumes "\<not> bit d 31"
  shows "crc32_ref_bit (push_bit 1 d) = d"
proof -
  have "\<not> bit (push_bit 1 d) 0" by (simp only: bit_push_bit_iff) simp
  then have "crc32_ref_bit (push_bit 1 d) = drop_bit 1 (push_bit 1 d)"
    by (simp only: crc32_ref_bit_def if_False)
  also have "\<dots> = d"
  proof (rule bit_word_eqI)
    fix i
    assume "i < LENGTH(32)"
    with assms show "bit (drop_bit 1 (push_bit 1 d)) i = bit d i"
      by (cases "i = 31") (simp_all only: bit_drop_bit_eq bit_push_bit_iff comp_apply, simp_all)
  qed
  finally show ?thesis .
qed

lemma crc32_ref_bits_shift:
  fixes d :: u32
  assumes "\<forall>i \<ge> 32 - n. \<not> bit d i" "n \<le> 32"
  shows "(crc32_ref_bit ^^ n) (push_bit n d) = d"
  using assms
proof (induction n)
  case (Suc n)
  have top: "\<not> bit (push_bit n d) 31"
    using Suc.prems by (simp only: bit_push_bit_iff) (simp add: le_diff_conv)
  have "push_bit (Suc n) d = push_bit 1 (push_bit n d)"
    by (simp only: push_bit_push_bit) simp
  with crc32_ref_bit_shift [OF top] have step: "crc32_ref_bit (push_bit (Suc n) d) = push_bit n d"
    by (simp only:)
  from Suc have "(crc32_ref_bit ^^ n) (push_bit n d) = d" by simp
  with step show ?case by (simp only: funpow_Suc_right comp_apply)
qed simp

lemma low_nibble_index: "unat ((y :: u32) AND 0xf) < 16"
proof -
  have "y AND 0xf = take_bit 4 y" by (simp add: take_bit_eq_mask mask_eq_exp_minus_1)
  then have "unat (y AND 0xf) = take_bit 4 (unat y)" by (simp add: unsigned_take_bit_eq)
  then show ?thesis by (simp add: take_bit_nat_less_exp [of 4, simplified])
qed

lemma split_nibble: "(y :: u32) = (y AND 0xf) XOR push_bit 4 (drop_bit 4 y)"
proof (rule bit_word_eqI)
  fix i
  assume i: "i < LENGTH(32)"
  have "(0xf :: u32) = mask 4" by (simp add: mask_eq_exp_minus_1)
  then have "bit (0xf :: u32) i \<longleftrightarrow> i < 4"
    using i by (simp only: bit_mask_iff) simp
  with i show "bit y i = bit ((y AND 0xf) XOR push_bit 4 (drop_bit 4 y)) i"
    by (cases "i < 4") (simp_all only: bit_xor_iff bit_and_iff bit_push_bit_iff bit_drop_bit_eq comp_apply, simp_all)
qed

lemma crc32_ref_nibble:
  "(crc32_ref_bit ^^ 4) y = crc32_T ! unat (y AND 0xf) XOR drop_bit 4 y"
proof -
  have "\<forall>i \<ge> 32 - 4. \<not> bit (drop_bit 4 y) i"
    by (simp only: bit_drop_bit_eq comp_apply) (auto dest: bit_imp_le_length)
  then have hi: "(crc32_ref_bit ^^ 4) (push_bit 4 (drop_bit 4 y)) = drop_bit 4 y"
    by (rule crc32_ref_bits_shift) simp
  have lo: "(crc32_ref_bit ^^ 4) (y AND 0xf) = crc32_T ! unat (y AND 0xf)"
    using crc32_ref_nibble_table [OF low_nibble_index, of y] by simp
  have "(crc32_ref_bit ^^ 4) y = (crc32_ref_bit ^^ 4) ((y AND 0xf) XOR push_bit 4 (drop_bit 4 y))"
    by (subst split_nibble) (rule refl)
  also have "\<dots> = (crc32_ref_bit ^^ 4) (y AND 0xf) XOR (crc32_ref_bit ^^ 4) (push_bit 4 (drop_bit 4 y))"
    by (rule crc32_ref_bits_xor)
  finally show ?thesis unfolding hi lo .
qed

lemma crc32_byte_eq_ref: "crc32_byte crc b = crc32_ref_byte crc b"
proof -
  define y where "y = crc XOR (ucast b :: u32)"
  define w where "w = (crc32_ref_bit ^^ 4) y"
  define h where "h = (ucast (drop_bit 4 b) :: u32)"
  have h: "drop_bit 4 (ucast b :: u32) = h"
    unfolding h_def by (rule bit_word_eqI) (simp only: bit_drop_bit_eq bit_unsigned_iff comp_apply, auto dest: bit_imp_le_length)
  have h0: "drop_bit 4 h = 0"
    unfolding h_def by (rule bit_word_eqI)
      (simp only: bit_drop_bit_eq bit_unsigned_iff comp_apply, auto dest: bit_imp_le_length)
  have n1: "crc32_nibble crc (ucast b) = w XOR h"
    unfolding crc32_nibble_def w_def crc32_ref_nibble y_def drop_bit_xor h
    by (simp add: xor.assoc)
  have "crc32_nibble (w XOR h) h = (crc32_ref_bit ^^ 4) w"
    unfolding crc32_nibble_def crc32_ref_nibble drop_bit_xor h0 by (simp add: xor.assoc)
  then have "crc32_byte crc b = (crc32_ref_bit ^^ 4) w"
    by (simp only: crc32_byte_def Let_def n1 h_def)
  also have "\<dots> = (crc32_ref_bit ^^ (4 + 4)) y"
    by (simp only: w_def funpow_add comp_apply)
  finally show ?thesis by (simp add: crc32_ref_byte_def y_def)
qed

lemma crc32_bits_inj: "(crc32_ref_bit ^^ n) x = (crc32_ref_bit ^^ n) y \<Longrightarrow> x = y"
proof (rule funpow_injD [where f = crc32_ref_bit])
  fix x y
  assume eq: "crc32_ref_bit x = crc32_ref_bit y"
  have top: "bit (crc32_ref_bit c) 31 \<longleftrightarrow> bit c 0" for c
    by (simp only: crc32_ref_bit_def bit_xor_iff bit_drop_bit_eq comp_apply split: if_split)
      (simp add: impossible_bit)
  from eq have "bit x 0 = bit y 0" using top [of x] top [of y] by simp
  with eq have sh: "drop_bit 1 x = drop_bit 1 y"
    by (simp only: crc32_ref_bit_def xor_right_cancel split: if_splits) metis
  show "x = y"
  proof (rule bit_word_eqI)
    fix i
    from sh have "bit (drop_bit 1 x) (i - 1) = bit (drop_bit 1 y) (i - 1)" by (simp only:)
    with \<open>bit x 0 = bit y 0\<close> show "bit x i = bit y i"
      by (cases i) (simp_all only: bit_drop_bit_eq comp_apply, simp_all)
  qed
qed

lemma crc32_two_bytes:
  "crc32_byte (crc32_byte s a) b = (crc32_ref_bit ^^ 16) (s XOR (push_bit 8 (ucast b) XOR ucast a))"
proof -
  have "\<forall>i \<ge> 32 - 8. \<not> bit (ucast b :: u32) i"
    by (auto simp: bit_simps dest: bit_imp_le_length)
  then have low: "(crc32_ref_bit ^^ 8) (push_bit 8 (ucast b :: u32)) = ucast b"
    by (rule crc32_ref_bits_shift) simp
  have "crc32_byte (crc32_byte s a) b
      = (crc32_ref_bit ^^ 8) ((crc32_ref_bit ^^ 8) (s XOR ucast a) XOR (crc32_ref_bit ^^ 8) (push_bit 8 (ucast b)))"
    by (simp only: crc32_byte_eq_ref crc32_ref_byte_def low)
  also have "\<dots> = (crc32_ref_bit ^^ (8 + 8)) ((s XOR ucast a) XOR push_bit 8 (ucast b))"
    by (simp only: crc32_ref_bits_xor funpow_add comp_apply)
  finally show ?thesis by (simp add: ac_simps)
qed

interpretation crc32: wide_checksum crc32_byte
proof
  fix s s' :: u32 and a a' b b' :: byte
  have u: "ucast b = (ucast b' :: u32) \<Longrightarrow> b = b'" for b b' :: byte
    using byte_pair_inj [of 0 b 0 b', where 'a = 32] by simp
  show "crc32_byte s b = crc32_byte s' b \<Longrightarrow> s = s'"
    unfolding crc32_byte_eq_ref crc32_ref_byte_def
    by (drule crc32_bits_inj) (simp only: xor_right_cancel)
  show "crc32_byte s b = crc32_byte s b' \<Longrightarrow> b = b'"
    unfolding crc32_byte_eq_ref crc32_ref_byte_def
    by (drule crc32_bits_inj) (simp only: xor_left_cancel, rule u)
  show "a = a' \<and> b = b'" if eq: "crc32_byte (crc32_byte s a) b = crc32_byte (crc32_byte s a') b'"
  proof -
    from eq have "push_bit 8 (ucast b :: u32) XOR ucast a = push_bit 8 (ucast b') XOR ucast a'"
      unfolding crc32_two_bytes by (drule_tac crc32_bits_inj) (simp only: xor_left_cancel)
    then have "b = b' \<and> a = a'" by (rule byte_pair_inj) simp
    then show ?thesis by simp
  qed
qed

section \<open>Properties\<close>

text \<open>The nibble-table CRC-32 of the firmware computes the bit-by-bit CRC-32/ISO-HDLC of the
  PKZIP polynomial, for every message.\<close>

lemma crc32_eq_ref: "crc32 data = crc32_ref data"
proof -
  have "crc32_byte = crc32_ref_byte" by (intro ext crc32_byte_eq_ref)
  then show ?thesis by (simp add: crc32_def crc32_update_def crc32_ref_def)
qed

lemma crc_check_values:
  defines "digits \<equiv> [0x31, 0x32, 0x33, 0x34, 0x35, 0x36, 0x37, 0x38, 0x39 :: byte]"
  shows "crc8_autosar digits = 0xDF" and "crc16_ccitt_false digits = 0x29B1"
    and "crc32 digits = 0xCBF43926"
  unfolding digits_def by code_simp+

text \<open>C27: the frame checksum CRC-16/CCITT-FALSE changes under every corruption confined to two
  adjacent bytes, wherever they are in the message.\<close>

lemma crc16_detects_adjacent:
  assumes "Suc i < length data" and "(a, b) \<noteq> (data ! i, data ! Suc i)"
  shows "crc16_ccitt_false (data[i := a, Suc i := b]) \<noteq> crc16_ccitt_false data"
  unfolding crc16_ccitt_false_def using assms by (rule crc16.detects_adjacent)

lemma crc16_detects_adjacent_witness:
  "crc16_ccitt_false ([0x46, 0x52, 0, 0][1 := 0x53, Suc 1 := 1]) \<noteq> crc16_ccitt_false [0x46, 0x52, 0, 0]"
  by (rule crc16_detects_adjacent) simp_all

end
