(* ===== verification/PanelProtocol.thy ===== *)
theory PanelProtocol
  imports Prelude
begin

text \<open>
  \<open>src/src/G6PanelProtocol.h\<close>: the panel-block wire format. A block is
  \<open>[header, cmd, payload ...]\<close>; the header carries the protocol version in bits 0..6 and in
  bit 7 the even-parity bit over everything else. The lemmas relate the three header
  routines to one number, the population count of the whole message.
\<close>

section \<open>Constants\<close>

definition header_version_v1 :: byte where "header_version_v1 = 0x01"
definition header_version_v2 :: byte where "header_version_v2 = 0x02"
definition cmd_disp_2lvl_oneshot :: byte where "cmd_disp_2lvl_oneshot = 0x10"
definition cmd_disp_2lvl_persist :: byte where "cmd_disp_2lvl_persist = 0x11"
definition cmd_disp_16lvl_oneshot :: byte where "cmd_disp_16lvl_oneshot = 0x30"
definition cmd_disp_16lvl_persist :: byte where "cmd_disp_16lvl_persist = 0x31"
definition cmd_disp_psram_oneshot :: byte where "cmd_disp_psram_oneshot = 0x50"
definition cmd_disp_psram_duty_oneshot :: byte where "cmd_disp_psram_duty_oneshot = 0x60"
definition block_byte_count_gs2 :: nat where "block_byte_count_gs2 = 53"
definition block_byte_count_gs16 :: nat where "block_byte_count_gs16 = 203"
definition block_byte_count_psram :: nat where "block_byte_count_psram = 4"
definition block_byte_count_psram_duty :: nat where "block_byte_count_psram_duty = 5"

lemmas panel_consts =
  header_version_v1_def header_version_v2_def cmd_disp_2lvl_oneshot_def cmd_disp_2lvl_persist_def
  cmd_disp_16lvl_oneshot_def cmd_disp_16lvl_persist_def cmd_disp_psram_oneshot_def
  cmd_disp_psram_duty_oneshot_def block_byte_count_gs2_def block_byte_count_gs16_def
  block_byte_count_psram_def block_byte_count_psram_duty_def

section \<open>Opcodes and parity\<close>

definition disp_opcode_with_mode :: "byte \<Rightarrow> byte \<Rightarrow> byte" where
  "disp_opcode_with_mode base mode = base OR (if mode < 4 then mode else 1)"

text \<open>\<open>__builtin_popcount\<close> of one byte.\<close>

definition popcount :: "byte \<Rightarrow> nat" where
  "popcount b = sum_list (map (\<lambda>k. of_bool (bit b k)) [0..<8])"

definition compute_parity_bit :: "byte \<Rightarrow> byte \<Rightarrow> byte list \<Rightarrow> byte" where
  "compute_parity_bit version_byte cmd payload =
     (let version_bits = version_byte AND 0x7F;
          ones = popcount version_bits + popcount cmd;
          ones = foldl (\<lambda>n b. n + popcount b) ones payload
      in of_nat (ones mod 2))"

definition validate_parity :: "byte list \<Rightarrow> bool" where
  "validate_parity msg =
     (if length msg < 2 then False
      else (let header = msg ! 0;
                expected = compute_parity_bit header (msg ! 1) (drop 2 msg);
                actual = drop_bit 7 header AND 0x01
            in expected = actual))"

definition stamp_header_parity :: "byte list \<Rightarrow> byte list" where
  "stamp_header_parity msg =
     (if length msg < 2 then msg
      else (let version = msg ! 0 AND 0x7F;
                p = compute_parity_bit version (msg ! 1) (drop 2 msg)
            in msg[0 := version OR push_bit 7 p]))"

text \<open>
  The caller's buffer is passed in and returned updated, with the block byte count; the
  parity stamp covers the block only, not the rest of the buffer.
\<close>

definition build_psram_index_block :: "byte list \<Rightarrow> u16 \<Rightarrow> byte \<Rightarrow> byte \<Rightarrow> byte list \<times> nat" where
  "build_psram_index_block block index cmd_id duty =
     (let explicit_duty = (cmd_id AND 0xF0 = 0x60);
          block = block[0 := header_version_v2];
          block = block[1 := cmd_id];
          block = block[2 := ucast (index AND 0xFF)];
          block = block[3 := ucast (drop_bit 8 index AND 0xFF)];
          len = (if explicit_duty then block_byte_count_psram_duty else block_byte_count_psram);
          block = (if explicit_duty then block[4 := duty] else block)
      in (stamp_header_parity (take len block) @ drop len block, len))"

section \<open>One number for the whole message\<close>

definition ones_of :: "byte list \<Rightarrow> nat" where
  "ones_of msg = sum_list (map popcount msg)"

lemma foldl_popcount: "foldl (\<lambda>n b. n + popcount b) n xs = n + ones_of xs"
  by (induction xs arbitrary: n) (simp_all add: ones_of_def)

lemma upt8: "[0..<8] = [0, 1, 2, 3, 4, 5, 6, 7 :: nat]"
  by (simp add: upt_conv_Cons)

lemma popcount_split: "popcount b = popcount (b AND 0x7F) + of_bool (bit b 7)"
  unfolding popcount_def upt8 by (simp only: list.map sum_list.Cons sum_list.Nil bit_and_iff bit_byte_7F) simp

lemma drop7_of_bool: "drop_bit 7 (b :: byte) AND 1 = of_bool (bit b 7)"
  by (simp only: and_one_eq bit_iff_odd_drop_bit [symmetric] mod_2_eq_odd)

lemma compute_parity_bit_ones:
  "compute_parity_bit h c payload = of_bool (odd (ones_of ((h AND 0x7F) # c # payload)))"
  unfolding compute_parity_bit_def Let_def foldl_popcount
  by (simp only: ones_of_def list.map sum_list.Cons add.assoc mod_2_eq_odd of_nat_of_bool)

lemma validate_parity_ones:
  "validate_parity msg \<longleftrightarrow> 2 \<le> length msg \<and> even (ones_of msg)"
proof (cases "2 \<le> length msg")
  case True
  then obtain h c p where msg: "msg = h # c # p"
    by (metis Suc_le_length_iff numeral_2_eq_2)
  have "validate_parity msg \<longleftrightarrow> (odd (ones_of ((h AND 0x7F) # c # p)) = bit h 7)"
    by (simp only: msg validate_parity_def compute_parity_bit_ones drop7_of_bool Let_def, simp)
  also have "\<dots> \<longleftrightarrow> even (ones_of msg)"
    using popcount_split [of h] by (auto simp: msg ones_of_def)
  finally show ?thesis using True by simp
qed (simp add: validate_parity_def)

section \<open>Stamping\<close>

lemma length_stamp [simp]: "length (stamp_header_parity msg) = length msg"
  by (simp add: stamp_header_parity_def Let_def)

lemma nth_stamp_Suc [simp]: "stamp_header_parity msg ! Suc i = msg ! Suc i"
  by (simp add: stamp_header_parity_def Let_def)

lemma nth_stamp [simp]: "0 < i \<Longrightarrow> stamp_header_parity msg ! i = msg ! i"
  by (cases i) simp_all

lemma stamp_Cons2:
  "stamp_header_parity (h # c # p)
     = ((h AND 0x7F) OR push_bit 7 (of_bool (odd (ones_of ((h AND 0x7F) # c # p))))) # c # p"
proof -
  have "(h AND 0x7F) AND 0x7F = h AND 0x7F" by (simp add: and.assoc)
  then show ?thesis
    by (simp only: stamp_header_parity_def compute_parity_bit_ones Let_def, simp)
qed

lemma stamped_header_bits:
  "bit ((h AND 0x7F) OR push_bit 7 (of_bool P) :: byte) k \<longleftrightarrow> (if k < 7 then bit h k else k = 7 \<and> P)"
  by (simp only: bit_or_iff bit_and_iff bit_byte_7F bit_push_bit_iff) (auto simp: bit_simps)

lemma popcount_stamped:
  "popcount ((h AND 0x7F) OR push_bit 7 (of_bool P) :: byte) = popcount (h AND 0x7F) + of_bool P"
  unfolding popcount_def upt8
  by (simp only: list.map sum_list.Cons sum_list.Nil stamped_header_bits bit_and_iff bit_byte_7F) simp

lemma stamp_low_bits: "(stamp_header_parity (h # msg) ! 0) AND 0x7F = h AND 0x7F"
proof (cases msg)
  case (Cons c p)
  show ?thesis
    by (rule bit_word_eqI) (simp only: Cons stamp_Cons2 nth_Cons_0 bit_and_iff stamped_header_bits bit_byte_7F, simp)
qed (simp add: stamp_header_parity_def)

lemma even_stamp: "even (ones_of (stamp_header_parity (h # c # p)))"
proof -
  have "ones_of (stamp_header_parity (h # c # p))
      = ones_of ((h AND 0x7F) # c # p) + of_bool (odd (ones_of ((h AND 0x7F) # c # p)))"
    by (simp only: stamp_Cons2 ones_of_def list.map sum_list.Cons popcount_stamped)
  then show ?thesis by simp
qed

lemma validate_stamp_iff: "validate_parity (stamp_header_parity msg) \<longleftrightarrow> 2 \<le> length msg"
proof (cases "2 \<le> length msg")
  case True
  then obtain h c p where "msg = h # c # p"
    by (metis Suc_le_length_iff numeral_2_eq_2)
  then show ?thesis by (simp add: validate_parity_ones even_stamp)
qed (simp add: validate_parity_ones)

lemma stamp_idem: "validate_parity msg \<Longrightarrow> stamp_header_parity msg = msg"
proof -
  assume v: "validate_parity msg"
  then obtain h c p where msg: "msg = h # c # p"
    by (auto simp: validate_parity_ones) (metis Suc_le_length_iff numeral_2_eq_2)
  from v have "odd (ones_of ((h AND 0x7F) # c # p)) \<longleftrightarrow> bit h 7"
    using popcount_split [of h] by (auto simp: msg validate_parity_ones ones_of_def)
  then have "(h AND 0x7F) OR push_bit 7 (of_bool (odd (ones_of ((h AND 0x7F) # c # p)))) = h"
  proof (intro bit_word_eqI, goal_cases)
    case (1 n)
    then show ?case by (cases "n < 7"; cases "n = 7") (simp_all only: stamped_header_bits, simp_all)
  qed
  then show ?thesis by (simp only: msg stamp_Cons2)
qed

section \<open>Single-bit errors\<close>

lemma popcount_sum: "popcount b = (\<Sum>i<8. of_bool (bit b i))"
  by (simp only: popcount_def interv_sum_list_conv_sum_set_nat atLeast0LessThan set_upt)

lemma popcount_flip:
  assumes "k < 8"
  shows "odd (popcount (b XOR push_bit k 1)) \<longleftrightarrow> even (popcount b)"
proof -
  have flip: "bit (b XOR push_bit k 1) i \<longleftrightarrow> (if i = k then \<not> bit b i else bit b i)" for i
    using assms by (simp only: bit_xor_iff bit_push_bit_iff) (auto simp: bit_1_iff)
  have k: "k \<in> {..<8}" using assms by simp
  have "popcount (b XOR push_bit k 1) = of_bool (\<not> bit b k) + (\<Sum>i\<in>{..<8} - {k}. of_bool (bit b i))"
    unfolding popcount_sum flip sum.remove [OF finite_lessThan k] by simp
  moreover have "popcount b = of_bool (bit b k) + (\<Sum>i\<in>{..<8} - {k}. of_bool (bit b i))"
    unfolding popcount_sum by (rule sum.remove [OF finite_lessThan k])
  ultimately show ?thesis by (cases "bit b k") simp_all
qed

lemma odd_ones_flip:
  assumes "i < length msg" "k < 8"
  shows "odd (ones_of (msg[i := msg ! i XOR push_bit k 1])) \<longleftrightarrow> even (ones_of msg)"
proof -
  have split: "ones_of (msg[i := x]) = ones_of (take i msg) + popcount x + ones_of (drop (Suc i) msg)" for x
    using assms(1) by (simp add: ones_of_def upd_conv_take_nth_drop)
  have "ones_of msg = ones_of (take i msg) + popcount (msg ! i) + ones_of (drop (Suc i) msg)"
    using split [of "msg ! i"] by simp
  with split [of "msg ! i XOR push_bit k 1"] popcount_flip [OF assms(2), of "msg ! i"]
  show ?thesis by presburger
qed

text \<open>For every family base (low two bits clear) the opcode keeps the family and carries the
  display mode in its low bits, persist when the mode is out of range.\<close>

lemma opcode_family_and_mode:
  assumes "base AND 3 = 0"
  shows "disp_opcode_with_mode base mode AND 0xFC = base
       \<and> disp_opcode_with_mode base mode AND 3 = (if mode < 4 then mode else 1)"
proof -
  define m where "m = (if mode < 4 then mode else 1 :: byte)"
  have base: "2 \<le> k" if "bit base k" for k
    using arg_cong [where f = "\<lambda>b. bit b k", OF assms] that by (auto simp: bit_simps not_less)
  have "unat m < 4" by (simp add: m_def word_less_nat_alt)
  then have "unat (take_bit 2 m) = unat m"
    by (simp add: unsigned_take_bit_eq take_bit_nat_eq_self_iff)
  then have "take_bit 2 m = m" by (simp only: word_unat_eq_iff)
  then have m: "k < 2" if "bit m k" for k
    using that by (metis bit_take_bit_iff)
  show ?thesis
    unfolding disp_opcode_with_mode_def m_def [symmetric]
    by (intro conjI bit_word_eqI; fastforce simp: bit_simps dest: base m)
qed

section \<open>Properties\<close>

text \<open>Stamping the header makes exactly the messages of at least two bytes parity-valid, leaves
  the version bits and all other bytes alone, and stamping again changes nothing.\<close>

lemma stamp_then_valid:
  "(validate_parity (stamp_header_parity msg) \<longleftrightarrow> 2 \<le> length msg)
   \<and> tl (stamp_header_parity msg) = tl msg
   \<and> (msg ! 0 AND 0x7F = stamp_header_parity msg ! 0 AND 0x7F)
   \<and> stamp_header_parity (stamp_header_parity msg) = stamp_header_parity msg"
proof (intro conjI)
  show "tl (stamp_header_parity msg) = tl msg"
    by (cases msg) (simp_all add: stamp_header_parity_def Let_def)
  show "msg ! 0 AND 0x7F = stamp_header_parity msg ! 0 AND 0x7F"
    by (cases msg) (simp add: stamp_header_parity_def, simp only: stamp_low_bits, simp)
  show "stamp_header_parity (stamp_header_parity msg) = stamp_header_parity msg"
  proof (cases "2 \<le> length msg")
    case True
    then show ?thesis by (simp add: stamp_idem validate_stamp_iff)
  qed (simp add: stamp_header_parity_def)
qed (rule validate_stamp_iff)

text \<open>C28: flipping any single bit of a parity-valid block makes it invalid.\<close>

lemma single_bit_error_detected:
  assumes "validate_parity msg" "i < length msg" "k < 8"
  shows "\<not> validate_parity (msg[i := msg ! i XOR push_bit k 1])"
  using assms odd_ones_flip [OF assms(2,3)] by (simp add: validate_parity_ones)

lemma single_bit_error_detected_witness:
  "validate_parity [0x81, 0x10, 0x01, 0x00]
   \<and> \<not> validate_parity ([0x81, 0x10, 0x01, 0x00][2 := [0x81, 0x10, 0x01, 0x00] ! 2 XOR push_bit 5 1])"
proof -
  have "validate_parity [0x81, 0x10, 0x01, 0x00]" by code_simp
  then show ?thesis
    by (intro conjI single_bit_error_detected) simp_all
qed

lemma psram_index_bytes:
  "get16 (ucast (index AND 0xFF)) (ucast (drop_bit 8 index AND 0xFF)) = index"
  by (rule bit_word_eqI) (auto simp: get16_def bit_simps not_le)

lemma psram_decodes:
  assumes "5 \<le> length block"
  shows "(let (block', len) = build_psram_index_block block index cmd_id duty
          in len = (if cmd_id AND 0xF0 = 0x60 then 5 else 4)
             \<and> length block' = length block
             \<and> validate_parity (take len block')
             \<and> block' ! 0 AND 0x7F = 0x02
             \<and> block' ! 1 = cmd_id
             \<and> get16 (block' ! 2) (block' ! 3) = index
             \<and> (len = 5 \<longrightarrow> block' ! 4 = duty)
             \<and> drop len block' = drop len block)"
proof -
  from assms obtain b0 b1 b2 b3 b4 bs where block: "block = b0 # b1 # b2 # b3 # b4 # bs"
    by (auto simp: numeral_eq_Suc Suc_le_length_iff)
  have low: "(0x02 AND 0x7F :: byte) = 0x02" by simp
  show ?thesis
    unfolding build_psram_index_block_def Let_def block
    by (auto simp: panel_consts validate_stamp_iff nth_append psram_index_bytes
        stamp_low_bits)
qed

text \<open>The PSRAM index block has the announced length, is parity-valid, carries the opcode, and
  a panel reading it little-endian gets back the 16-bit index (and the duty for the 0x6x
  opcodes); the buffer behind the block is untouched.\<close>

lemma psram_block_decodes:
  assumes "5 \<le> length block"
  shows "(let (block', len) = build_psram_index_block block index cmd_id duty
          in len = (if cmd_id AND 0xF0 = 0x60 then 5 else 4)
             \<and> length block' = length block
             \<and> validate_parity (take len block')
             \<and> block' ! 0 AND 0x7F = 0x02
             \<and> block' ! 1 = cmd_id
             \<and> get16 (block' ! 2) (block' ! 3) = index
             \<and> (len = 5 \<longrightarrow> block' ! 4 = duty)
             \<and> drop len block' = drop len block)"
  using psram_decodes [OF assms] .

lemma psram_block_decodes_witness:
  "(let (block', len) = build_psram_index_block (replicate 6 0xAA) 0x1234 0x60 0x7F
    in len = 5 \<and> validate_parity (take len block') \<and> get16 (block' ! 2) (block' ! 3) = 0x1234)"
  using psram_block_decodes [of "replicate 6 0xAA" "0x1234" "0x60" "0x7F"] by (simp add: Let_def split: prod.splits)

end
