(* ===== verification/ErrorGlyph.thy ===== *)
theory ErrorGlyph
  imports PanelProtocol Board
begin

text \<open>
  \<open>src/src/ErrorGlyph.cpp\<close>: the controller's error display. \<open>buildErrorFrame\<close> renders
  "CE" over a two-digit code into a 20x20 image, packs it two pixels per byte with the
  origin at the bottom left, and writes one stamped GS16 block per panel behind the
  "FR" prefix. The specification side is \<open>error_lit\<close>, the set of lit pixels stated
  directly from the font; the last section proves the frame shows exactly it on every panel.
\<close>

section \<open>Font and image\<close>

definition kFontDigits :: "byte list list" where
  "kFontDigits =
    [[0x0E, 0x11, 0x13, 0x15, 0x19, 0x11, 0x0E],
     [0x04, 0x0C, 0x04, 0x04, 0x04, 0x04, 0x0E],
     [0x0E, 0x11, 0x01, 0x02, 0x04, 0x08, 0x1F],
     [0x1F, 0x02, 0x04, 0x02, 0x01, 0x11, 0x0E],
     [0x02, 0x06, 0x0A, 0x12, 0x1F, 0x02, 0x02],
     [0x1F, 0x10, 0x1E, 0x01, 0x01, 0x11, 0x0E],
     [0x06, 0x08, 0x10, 0x1E, 0x11, 0x11, 0x0E],
     [0x1F, 0x01, 0x02, 0x04, 0x08, 0x08, 0x08],
     [0x0E, 0x11, 0x11, 0x0E, 0x11, 0x11, 0x0E],
     [0x0E, 0x11, 0x11, 0x0F, 0x01, 0x02, 0x0C]]"

definition kFontC :: "byte list" where "kFontC = [0x0E, 0x11, 0x10, 0x10, 0x10, 0x11, 0x0E]"
definition kFontE :: "byte list" where "kFontE = [0x1F, 0x10, 0x10, 0x1E, 0x10, 0x10, 0x1F]"

definition kPanelDim :: nat where "kPanelDim = 20"
definition kGlyphW :: nat where "kGlyphW = 5"
definition kGlyphH :: nat where "kGlyphH = 7"

type_synonym image = "byte list list"

definition set_pixel2 :: "image \<Rightarrow> nat \<Rightarrow> nat \<Rightarrow> byte \<Rightarrow> image" where
  "set_pixel2 img r c v = img[r := (img ! r)[c := v]]"

text \<open>The two nested loops of \<open>stampGlyph\<close>; the body of the outer one first.\<close>

definition stamp_row :: "byte \<Rightarrow> nat \<Rightarrow> nat \<Rightarrow> image \<Rightarrow> image" where
  "stamp_row bits r left img =
     fold (\<lambda>gc img.
       if bits AND drop_bit gc 0x10 \<noteq> 0 then
         let c = left + gc
         in if r < kPanelDim \<and> c < kPanelDim then set_pixel2 img r c 0x0F else img
       else img) [0..<kGlyphW] img"

definition stampGlyph :: "image \<Rightarrow> byte list \<Rightarrow> nat \<Rightarrow> nat \<Rightarrow> image" where
  "stampGlyph img glyph top' left =
     fold (\<lambda>gr img. stamp_row (glyph ! gr) (top' + gr) left img) [0..<kGlyphH] img"

text \<open>Step 1 of \<open>buildErrorFrame\<close>: the rendered image, row 0 at the top.\<close>

definition render_error :: "nat \<Rightarrow> image" where
  "render_error code =
     (let img = replicate kPanelDim (replicate kPanelDim 0);
          left_col = 4; right_col = 11; top_row = 2; bottom_row = 11;
          code = (if 99 < code then 99 else code);
          tens = code div 10;
          ones = code mod 10;
          img = stampGlyph img kFontC top_row left_col;
          img = stampGlyph img kFontE top_row right_col;
          img = stampGlyph img (kFontDigits ! tens) bottom_row left_col
      in stampGlyph img (kFontDigits ! ones) bottom_row right_col)"

text \<open>Step 2: pack into GS16 bytes, even pixels in the high nibble.\<close>

definition pack_pixel :: "byte list \<Rightarrow> nat \<Rightarrow> byte \<Rightarrow> byte list" where
  "pack_pixel pixels pixel_num v =
     (let byte_index = pixel_num div 2
      in if odd pixel_num then pixels[byte_index := (pixels ! byte_index AND 0xF0) OR v]
         else pixels[byte_index := (pixels ! byte_index AND 0x0F) OR push_bit 4 v])"

definition pack_row :: "image \<Rightarrow> nat \<Rightarrow> byte list \<Rightarrow> byte list" where
  "pack_row img r =
     (let row_from_bottom = (kPanelDim - 1) - r in
       fold (\<lambda>c pixels.
         let v = img ! r ! c AND 0x0F
         in if v = 0 then pixels
            else pack_pixel pixels (row_from_bottom * kPanelDim + c) v)
         [0..<kPanelDim])"

definition pack_pixels :: "image \<Rightarrow> byte list" where
  "pack_pixels img = fold (pack_row img) [0..<kPanelDim] (replicate 200 0)"

text \<open>Step 3: the frame. The buffer is the caller's, returned updated.\<close>

definition error_block :: "byte list \<Rightarrow> byte list" where
  "error_block pixels =
     stamp_header_parity ([header_version_v1, cmd_disp_16lvl_oneshot] @ pixels @ [0x80])"

definition buildErrorFrame :: "byte list \<Rightarrow> nat \<Rightarrow> nat \<Rightarrow> byte list \<times> nat" where
  "buildErrorFrame frame_buf code panel_count =
     (let pixels = pack_pixels (render_error code);
          frame_buf = blit frame_buf 0 [0x46, 0x52, 0, 0];
          block_size = block_byte_count_gs16;
          frame_buf = fold (\<lambda>p buf. blit buf (stream_frame_prefix_byte_count + p * block_size)
                                      (error_block pixels)) [0..<panel_count] frame_buf
      in (frame_buf, stream_frame_prefix_byte_count + panel_count * block_size))"

section \<open>Stamping a glyph\<close>

lemma glyph_bit:
  assumes "gc < 5"
  shows "(bits :: byte) AND drop_bit gc 0x10 \<noteq> 0 \<longleftrightarrow> bit bits (4 - gc)"
proof -
  from assms consider "gc = 0" | "gc = 1" | "gc = 2" | "gc = 3" | "gc = 4" by fastforce
  then show ?thesis
    using and_exp_eq_0_iff_not_bit [of bits 4] and_exp_eq_0_iff_not_bit [of bits 3]
      and_exp_eq_0_iff_not_bit [of bits 2] and_exp_eq_0_iff_not_bit [of bits 1]
      and_exp_eq_0_iff_not_bit [of bits 0]
    by cases (simp_all add: drop_bit_eq_div)
qed

definition square :: "image \<Rightarrow> bool" where
  "square img \<longleftrightarrow> length img = 20 \<and> (\<forall>r < 20. length (img ! r) = 20)"

lemma square_set_pixel2: "square img \<Longrightarrow> square (set_pixel2 img r c v)"
  by (cases "r < 20") (auto simp: square_def set_pixel2_def nth_list_update)

lemma nth_set_pixel2:
  "square img \<Longrightarrow> i < 20 \<Longrightarrow> j < 20 \<Longrightarrow>
    set_pixel2 img r c v ! i ! j = (if i = r \<and> j = c then v else img ! i ! j)"
  by (cases "i = r") (auto simp: square_def set_pixel2_def)

text \<open>A loop that conditionally sets pixels sets exactly the union.\<close>

lemma fold_pixels:
  assumes step: "\<And>x img. square img \<Longrightarrow> x \<in> set xs \<Longrightarrow> square (f x img) \<and>
      (\<forall>i<20. \<forall>j<20. f x img ! i ! j = (if P x i j then v else img ! i ! j))"
    and sq: "square img"
  shows "square (fold f xs img) \<and>
      (\<forall>i<20. \<forall>j<20. fold f xs img ! i ! j = (if \<exists>x\<in>set xs. P x i j then v else img ! i ! j))"
  using step sq
proof (induction xs arbitrary: img)
  case (Cons x xs)
  have "square (f x img)" using Cons.prems by simp
  with Cons.IH [of "f x img"] Cons.prems show ?case by auto
qed simp

lemma stamp_row_pixels:
  assumes "square img"
  shows "square (stamp_row bits r left img) \<and>
    (\<forall>i<20. \<forall>j<20. stamp_row bits r left img ! i ! j =
       (if \<exists>gc\<in>set [0..<5]. i = r \<and> j = left + gc \<and> bit bits (4 - gc) then 0x0F else img ! i ! j))"
  unfolding stamp_row_def kGlyphW_def
  by (rule fold_pixels [OF _ assms])
    (auto simp: glyph_bit Let_def kPanelDim_def square_set_pixel2 nth_set_pixel2)

text \<open>The lit pixels of one glyph at a position.\<close>

definition glyph_lit :: "byte list \<Rightarrow> nat \<Rightarrow> nat \<Rightarrow> nat \<Rightarrow> nat \<Rightarrow> bool" where
  "glyph_lit glyph top' left i j \<longleftrightarrow>
     top' \<le> i \<and> i < top' + 7 \<and> left \<le> j \<and> j < left + 5 \<and> bit (glyph ! (i - top')) (4 - (j - left))"

lemma glyph_lit_bex:
  "(\<exists>gr\<in>set [0..<7]. \<exists>gc\<in>set [0..<5]. i = top' + gr \<and> j = left + gc \<and> bit (glyph ! gr) (4 - gc))
     \<longleftrightarrow> glyph_lit glyph top' left i j"
proof
  assume "glyph_lit glyph top' left i j"
  then show "\<exists>gr\<in>set [0..<7]. \<exists>gc\<in>set [0..<5]. i = top' + gr \<and> j = left + gc \<and> bit (glyph ! gr) (4 - gc)"
    by (intro bexI [of _ "i - top'"] bexI [of _ "j - left"]) (auto simp: glyph_lit_def)
qed (auto simp: glyph_lit_def)

lemma stampGlyph_pixels:
  assumes "square img"
  shows "square (stampGlyph img glyph top' left) \<and>
    (\<forall>i<20. \<forall>j<20. stampGlyph img glyph top' left ! i ! j =
       (if glyph_lit glyph top' left i j then 0x0F else img ! i ! j))"
  unfolding stampGlyph_def kGlyphH_def glyph_lit_bex [symmetric]
  by (rule fold_pixels [OF _ assms]) (simp add: stamp_row_pixels)

text \<open>The specification of the error image: "CE" above, the two digits below.\<close>

definition error_lit :: "nat \<Rightarrow> nat \<Rightarrow> nat \<Rightarrow> bool" where
  "error_lit code i j \<longleftrightarrow>
     glyph_lit kFontC 2 4 i j \<or> glyph_lit kFontE 2 11 i j
     \<or> glyph_lit (kFontDigits ! (min code 99 div 10)) 11 4 i j
     \<or> glyph_lit (kFontDigits ! (min code 99 mod 10)) 11 11 i j"

lemma square_blank: "square (replicate kPanelDim (replicate kPanelDim 0))"
  by (simp add: square_def kPanelDim_def)

lemma render_error_pixels:
  "square (render_error code) \<and>
   (\<forall>i<20. \<forall>j<20. render_error code ! i ! j = (if error_lit code i j then 0x0F else 0))"
proof -
  have m: "(if 99 < code then 99 else code) = min code 99" by simp
  show ?thesis
    unfolding render_error_def Let_def m error_lit_def
    using stampGlyph_pixels square_blank by (simp add: kPanelDim_def)
qed

section \<open>Packing\<close>

text \<open>The nibble the panel reads for a pixel number.\<close>

definition pixel_at :: "byte list \<Rightarrow> nat \<Rightarrow> byte" where
  "pixel_at pixels n = (if odd n then pixels ! (n div 2) AND 0x0F else drop_bit 4 (pixels ! (n div 2)))"

lemma nibble_ops:
  assumes "v AND 0x0F = (v :: byte)"
  shows "((b AND 0xF0) OR v) AND 0x0F = v" "drop_bit 4 ((b AND 0xF0) OR v) = drop_bit 4 b"
    "((b AND 0x0F) OR push_bit 4 v) AND 0x0F = b AND 0x0F" "drop_bit 4 ((b AND 0x0F) OR push_bit 4 v) = v"
proof -
  have v: "k < 4" if "bit v k" for k
    using arg_cong [where f = "\<lambda>b. bit b k", OF assms] that by (auto simp: bit_simps)
  show "((b AND 0xF0) OR v) AND 0x0F = v"
    by (rule bit_word_eqI) (auto simp: bit_simps dest: v)
  show "drop_bit 4 ((b AND 0xF0) OR v) = drop_bit 4 b"
    by (rule bit_word_eqI) (auto simp: bit_simps dest: v bit_imp_le_length)
  show "((b AND 0x0F) OR push_bit 4 v) AND 0x0F = b AND 0x0F"
    by (rule bit_word_eqI) (auto simp: bit_simps)
  show "drop_bit 4 ((b AND 0x0F) OR push_bit 4 v) = v"
    by (rule bit_word_eqI) (auto simp: bit_simps dest: v)
qed

lemma pixel_at_pack:
  assumes "length px = 200" "n < 400" "v AND 0x0F = v"
  shows "length (pack_pixel px n v) = 200 \<and>
    (\<forall>m<400. pixel_at (pack_pixel px n v) m = (if m = n then v else pixel_at px m))"
proof (intro conjI allI impI)
  show "length (pack_pixel px n v) = 200" using assms(1) by (simp add: pack_pixel_def Let_def)
  fix m :: nat
  assume "m < 400"
  have same: "m = n \<longleftrightarrow> m div 2 = n div 2 \<and> odd m = odd n" by presburger
  show "pixel_at (pack_pixel px n v) m = (if m = n then v else pixel_at px m)"
  proof (cases "m div 2 = n div 2")
    case True
    with \<open>m < 400\<close> assms show ?thesis
      unfolding same
      by (auto simp: pack_pixel_def pixel_at_def Let_def nibble_ops simp del: drop_bit_or drop_bit_and)
  next
    case False
    then show ?thesis
      unfolding same by (simp add: pack_pixel_def pixel_at_def Let_def)
  qed
qed

lemma fold_pack:
  assumes step: "\<And>x px. length px = 200 \<Longrightarrow> x \<in> set xs \<Longrightarrow> length (f x px) = 200 \<and>
      (\<forall>m<400. pixel_at (f x px) m = (if P x m then g m else pixel_at px m))"
    and len: "length px = 200"
  shows "length (fold f xs px) = 200 \<and>
      (\<forall>m<400. pixel_at (fold f xs px) m = (if \<exists>x\<in>set xs. P x m then g m else pixel_at px m))"
  using step len
proof (induction xs arbitrary: px)
  case (Cons x xs)
  have "length (f x px) = 200" using Cons.prems by simp
  with Cons.IH [of "f x px"] Cons.prems show ?case by auto
qed simp

text \<open>One row of the packing loop, and the loop over the rows.\<close>

definition image_at :: "image \<Rightarrow> nat \<Rightarrow> byte" where
  "image_at img m = img ! (19 - m div 20) ! (m mod 20) AND 0x0F"

lemma image_at_pixel:
  "r < 20 \<Longrightarrow> c < 20 \<Longrightarrow> image_at img ((19 - r) * 20 + c) = img ! r ! c AND 0x0F"
  by (simp add: image_at_def)

lemma pack_row_pixels:
  assumes "length px = 200" "r < 20"
  shows "length (pack_row img r px) = 200 \<and>
    (\<forall>m<400. pixel_at (pack_row img r px) m =
      (if \<exists>c\<in>set [0..<20]. m = (19 - r) * 20 + c \<and> image_at img m \<noteq> 0 then image_at img m else pixel_at px m))"
  unfolding pack_row_def Let_def kPanelDim_def
proof (rule fold_pack [OF _ assms(1)])
  fix c and px :: "byte list"
  assume len: "length px = 200" and c: "c \<in> set [0..<20]"
  let ?n = "(19 - r) * 20 + c" and ?v = "img ! r ! c AND 0x0F"
  have n: "?n < 400" "image_at img ?n = ?v"
    using c \<open>r < 20\<close> by (auto simp: image_at_pixel)
  have v: "?v AND 0x0F = ?v" by (simp add: and.assoc)
  show "length (if ?v = 0 then px else pack_pixel px ((20 - 1 - r) * 20 + c) ?v) = 200
    \<and> (\<forall>m<400. pixel_at (if ?v = 0 then px else pack_pixel px ((20 - 1 - r) * 20 + c) ?v) m =
      (if m = ?n \<and> image_at img m \<noteq> 0 then image_at img m else pixel_at px m))"
    using pixel_at_pack [OF len n(1) v] len n(2) by auto
qed

lemma pixel_at_zero: "m < 400 \<Longrightarrow> pixel_at (replicate 200 0) m = 0"
  by (simp add: pixel_at_def)

lemma pack_pixels_all:
  "length (pack_pixels img) = 200 \<and>
   (\<forall>m<400. pixel_at (pack_pixels img) m =
     (if \<exists>r\<in>set [0..<20]. \<exists>c\<in>set [0..<20]. m = (19 - r) * 20 + c \<and> image_at img m \<noteq> 0
      then image_at img m else pixel_at (replicate 200 0) m))"
  unfolding pack_pixels_def kPanelDim_def by (rule fold_pack) (simp_all add: pack_row_pixels)

lemma pack_pixels_decode:
  assumes "r < 20" "c < 20"
  shows "pixel_at (pack_pixels img) ((19 - r) * 20 + c) = img ! r ! c AND 0x0F"
proof -
  let ?m = "(19 - r) * 20 + c"
  have m: "?m < 400" using assms by simp
  have "(\<exists>r\<in>set [0..<20]. \<exists>c\<in>set [0..<20]. ?m = (19 - r) * 20 + c \<and> image_at img ?m \<noteq> 0)
      \<longleftrightarrow> image_at img ?m \<noteq> 0"
    using assms by fastforce
  with m pack_pixels_all [of img] show ?thesis
    by (auto simp: pixel_at_zero image_at_pixel [OF assms])
qed

section \<open>The frame\<close>

lemma length_error_block: "length pixels = 200 \<Longrightarrow> length (error_block pixels) = 203"
  by (simp add: error_block_def)

lemma fold_blit_blocks:
  assumes "length blk = b" "base + n * b \<le> length buf"
  defines "res \<equiv> fold (\<lambda>p buf. blit buf (base + p * b) blk) [0..<n] buf"
  shows "length res = length buf \<and> take base res = take base buf
       \<and> drop (base + n * b) res = drop (base + n * b) buf
       \<and> (\<forall>p<n. slice res (base + p * b) b = blk)"
  unfolding res_def using assms(2)
proof (induction n)
  case (Suc n)
  let ?r = "fold (\<lambda>p buf. blit buf (base + p * b) blk) [0..<n] buf"
  have IH: "length ?r = length buf" "take base ?r = take base buf"
      "drop (base + n * b) ?r = drop (base + n * b) buf" "\<forall>p<n. slice ?r (base + p * b) b = blk"
    using Suc by simp_all
  have fits: "base + n * b + length blk \<le> length ?r" using Suc.prems IH(1) assms(1) by simp
  have step: "fold (\<lambda>p buf. blit buf (base + p * b) blk) [0..<Suc n] buf = blit ?r (base + n * b) blk"
    by simp
  have "slice (blit ?r (base + n * b) blk) (base + p * b) b = blk" if "p < Suc n" for p
  proof (cases "p = n")
    case True
    then show ?thesis using fits assms(1) by simp
  next
    case False
    with that have "p < n" by simp
    then have "Suc p * b \<le> n * b" by (intro mult_le_mono1) simp
    then have "base + p * b + b \<le> base + n * b" by simp
    then show ?thesis
      using slice_blit_disjoint [OF fits, of "base + p * b" b] IH(4) \<open>p < n\<close> fits by simp
  qed
  moreover have "take base (blit ?r (base + n * b) blk) = take base buf"
    using IH(2) fits by (simp add: blit_def min_def)
  moreover have "drop (base + Suc n * b) (blit ?r (base + n * b) blk) = drop (base + Suc n * b) buf"
  proof -
    have "drop (base + Suc n * b) (blit ?r (base + n * b) blk) = drop b (drop (base + n * b) ?r)"
      using fits assms(1) by (simp add: blit_def min_def add.commute add.left_commute)
    also have "\<dots> = drop b (drop (base + n * b) buf)" by (simp only: IH(3))
    also have "\<dots> = drop (base + Suc n * b) buf" by (simp add: ac_simps)
    finally show ?thesis .
  qed
  ultimately show ?case unfolding step using fits IH(1) by simp
qed (simp add: assms)

lemma drop2_stamp: "drop 2 (stamp_header_parity (h # c # p)) = p"
  by (simp add: stamp_Cons2 numeral_2_eq_2)

lemma error_block_shape:
  assumes "length px = 200"
  shows "validate_parity (error_block px) \<and> error_block px ! 0 AND 0x7F = 1
      \<and> error_block px ! 1 = cmd_disp_16lvl_oneshot \<and> take 200 (drop 2 (error_block px)) = px
      \<and> error_block px ! 202 = 0x80"
  using assms
  by (auto simp: error_block_def panel_consts validate_stamp_iff stamp_low_bits drop2_stamp nth_append
      simp flip: numeral_2_eq_2)

lemma error_pixels_show:
  assumes "r < 20" "c < 20"
  shows "pixel_at (pack_pixels (render_error code)) ((19 - r) * 20 + c) = (if error_lit code r c then 0x0F else 0)"
  using render_error_pixels [of code] assms by (simp add: pack_pixels_decode [OF assms])

section \<open>Properties\<close>

text \<open>C26: the error frame is the prefix "FR", index 0, and one block per panel; each block is a
  parity-valid v1 GS16 oneshot block of mid brightness, and the pixels a panel decodes from it
  (origin bottom left, two per byte) are lit exactly where the font puts "CE" and the two
  digits of the code, capped at 99; bytes behind the frame are untouched.\<close>

lemma error_frame_shows_code:
  assumes "4 + panel_count * 203 \<le> length frame_buf"
  shows "let (buf, n) = buildErrorFrame frame_buf code panel_count
         in n = 4 + panel_count * 203 \<and> length buf = length frame_buf
          \<and> take 4 buf = [0x46, 0x52, 0, 0] \<and> drop n buf = drop n frame_buf
          \<and> (\<forall>p<panel_count. let blk = slice buf (4 + p * 203) 203
               in validate_parity blk \<and> blk ! 0 AND 0x7F = header_version_v1
                \<and> blk ! 1 = cmd_disp_16lvl_oneshot \<and> blk ! 202 = 0x80
                \<and> (\<forall>r<20. \<forall>c<20. pixel_at (take 200 (drop 2 blk)) ((19 - r) * 20 + c)
                       = (if error_lit code r c then 0x0F else 0)))"
proof -
  let ?px = "pack_pixels (render_error code)"
  let ?b0 = "blit frame_buf 0 [0x46, 0x52, 0, 0]"
  have px: "length ?px = 200" using pack_pixels_all by blast
  have len0: "length ?b0 = length frame_buf" using assms by simp
  note blocks = fold_blit_blocks [OF length_error_block [OF px], of 4 panel_count ?b0]
  have t: "take 4 ?b0 = [0x46, 0x52, 0, 0]" by (simp add: blit_def)
  have d: "drop (4 + panel_count * 203) ?b0 = drop (4 + panel_count * 203) frame_buf"
    by (simp only: blit_def add.commute [of 4] drop_drop [symmetric])
      (simp add: numeral_eq_Suc)
  show ?thesis
    using blocks assms len0 t d error_block_shape [OF px] error_pixels_show
    by (simp add: buildErrorFrame_def stream_frame_prefix_byte_count_def panel_consts Let_def)
qed

lemma error_frame_shows_code_witness:
  "let (buf, n) = buildErrorFrame (replicate 500 0) 7 2
   in n = 410 \<and> (\<forall>p<2. let blk = slice buf (4 + p * 203) 203 in validate_parity blk)"
  using error_frame_shows_code [of 2 "replicate 500 0" 7] by (auto simp: Let_def split: prod.splits)

end
