(* ===== verification/Health.thy ===== *)
theory Health
  imports Prelude
begin

text \<open>
  \<open>src/src/Health.h\<close> and \<open>src/src/Health.cpp\<close>: the records that survive a reset (the
  main-loop breadcrumb and the ISR/watchdog record), the live counters, the loop-timing
  window, and the policy of the hardware watchdog.

  The watchdog peripheral (RTWDOG) is hardware: its registers are the operations of the
  parameter \<open>rtwdog\<close> on an opaque state. \<open>micros()\<close> readings are arguments.
\<close>

section \<open>Op codes and ISR ids\<close>

definition OP_IDLE :: byte where "OP_IDLE = 0"
definition OP_SD_READ :: byte where "OP_SD_READ = 1"
definition OP_SPI_FRAME :: byte where "OP_SPI_FRAME = 2"
definition OP_USB_WRITE :: byte where "OP_USB_WRITE = 3"
definition OP_CMD :: byte where "OP_CMD = 4"
definition OP_SD_OPEN :: byte where "OP_SD_OPEN = 5"
definition ISR_NONE :: byte where "ISR_NONE = 0"
definition ISR_WDOG :: byte where "ISR_WDOG = 3"
definition ISR_PIT :: byte where "ISR_PIT = 7"
definition ISR_ID_COUNT :: nat where "ISR_ID_COUNT = 8"

definition crumb_magic :: u32 where "crumb_magic = 0x48364C54"
definition kIsrMagic :: u32 where "kIsrMagic = 0x48364952"

section \<open>Records\<close>

record breadcrumb =
  bc_magic :: u32
  last_op :: byte
  op_arg :: byte
  slow_op :: byte
  stamp_us :: u32
  slow_us :: u32
  bc_check :: u32

record isr_record =
  isr_magic :: u32
  isr_last :: byte
  wdog_fired :: byte
  wdog_prev_isr :: byte
  isr_pad :: byte
  wdog_pc :: u32
  wdog_lr :: u32
  wdog_xpsr :: u32
  wdog_excret :: u32
  wdog_stamp_us :: u32
  check0 :: u32
  cnt :: "u32 list"
  isr_count :: u32
  isr_reserved :: "u32 list"
  check_all :: u32

record hstats =
  loop_count :: u32
  loop_max_us :: u32
  loop_max_1s_us :: u32
  sd_reads :: u32
  sd_read_max_us :: u32
  last_sd_read_us :: u32
  cmd70_count :: u32
  cmd70_same_index :: u32
  reset_cause :: u32
  wdog_kicks :: u32
  prev_valid :: bool
  prev_last_op :: byte
  prev_op_arg :: byte
  prev_slow_op :: byte
  prev_stamp_us :: u32
  prev_slow_us :: u32
  prev_isr_valid :: bool
  prev_isr_last :: byte
  prev_isr_count :: u32
  prev_isr_cnt :: "u32 list"
  prev_wdog_fired :: bool
  prev_wdog_pc :: u32
  prev_wdog_lr :: u32
  prev_wdog_xpsr :: u32
  prev_wdog_excret :: u32
  prev_wdog_prev_isr :: byte
  loop_last_entry_us :: u32
  loop_win_max_us :: u32
  loop_win_start_us :: u32

text \<open>The zero-initialised static \<open>stats\<close> of a fresh boot.\<close>

definition stats0 :: hstats where
  "stats0 = \<lparr>loop_count = 0, loop_max_us = 0, loop_max_1s_us = 0, sd_reads = 0, sd_read_max_us = 0,
     last_sd_read_us = 0, cmd70_count = 0, cmd70_same_index = 0, reset_cause = 0, wdog_kicks = 0,
     prev_valid = False, prev_last_op = 0, prev_op_arg = 0, prev_slow_op = 0, prev_stamp_us = 0,
     prev_slow_us = 0, prev_isr_valid = False, prev_isr_last = 0, prev_isr_count = 0,
     prev_isr_cnt = replicate ISR_ID_COUNT 0, prev_wdog_fired = False, prev_wdog_pc = 0,
     prev_wdog_lr = 0, prev_wdog_xpsr = 0, prev_wdog_excret = 0, prev_wdog_prev_isr = 0,
     loop_last_entry_us = 0, loop_win_max_us = 0, loop_win_start_us = 0\<rparr>"

section \<open>The breadcrumb\<close>

definition crumb_checksum :: "u32 \<Rightarrow> byte \<Rightarrow> byte \<Rightarrow> byte \<Rightarrow> u32 \<Rightarrow> u32 \<Rightarrow> u32" where
  "crumb_checksum mg lop arg sop stamp slow =
     NOT (mg XOR (ucast lop OR push_bit 8 (ucast arg) OR push_bit 16 (ucast sop)) XOR stamp XOR slow)"

definition crumb_check_of :: "breadcrumb \<Rightarrow> u32" where
  "crumb_check_of c = crumb_checksum (bc_magic c) (last_op c) (op_arg c) (slow_op c) (stamp_us c) (slow_us c)"

definition seal_crumb :: "breadcrumb \<Rightarrow> breadcrumb" where
  "seal_crumb c = c\<lparr>bc_check := crumb_check_of c\<rparr>"

definition mark :: "u32 \<Rightarrow> byte \<Rightarrow> byte \<Rightarrow> breadcrumb \<Rightarrow> breadcrumb" where
  "mark now op arg c = seal_crumb (c\<lparr>last_op := op, op_arg := arg, stamp_us := now\<rparr>)"

definition clear :: "u32 \<Rightarrow> breadcrumb \<Rightarrow> breadcrumb" where
  "clear now c =
     (let op = last_op c in
      if op \<noteq> OP_IDLE then
        let dt = now - stamp_us c;
            c = (if slow_us c < dt then c\<lparr>slow_us := dt, slow_op := op\<rparr> else c)
        in seal_crumb (c\<lparr>last_op := OP_IDLE, op_arg := 0\<rparr>)
      else c)"

section \<open>The ISR record and its two checksums\<close>

definition isr_word1 :: "byte \<Rightarrow> isr_record \<Rightarrow> u32" where
  "isr_word1 isrid r = ucast isrid OR push_bit 8 (ucast (wdog_fired r))
     OR push_bit 16 (ucast (wdog_prev_isr r)) OR push_bit 24 (ucast (isr_pad r))"

text \<open>The record as the 24 words the checksums run over.\<close>

definition isr_words :: "isr_record \<Rightarrow> u32 list" where
  "isr_words r =
     [isr_magic r, isr_word1 (isr_last r) r, wdog_pc r, wdog_lr r, wdog_xpsr r, wdog_excret r,
      wdog_stamp_us r, check0 r] @ cnt r @ [isr_count r] @ isr_reserved r @ [check_all r]"

definition computeIsrCheck0 :: "isr_record \<Rightarrow> u32" where
  "computeIsrCheck0 r = NOT (fold (\<lambda>i x. x XOR isr_words r ! i) [0..<7] 0)"

definition computeIsrCheckAll :: "isr_record \<Rightarrow> u32" where
  "computeIsrCheckAll r =
     (let x = fold (\<lambda>i x. x XOR isr_words r ! i) [0..<7] 0
      in NOT (fold (\<lambda>i x. x XOR isr_words r ! i) [8..<96 div 4 - 1] x))"

definition sealIsr :: "isr_record \<Rightarrow> isr_record" where
  "sealIsr r =
     (let r = r\<lparr>check0 := computeIsrCheck0 r\<rparr> in r\<lparr>check_all := computeIsrCheckAll r\<rparr>)"

definition isrEnter :: "byte \<Rightarrow> isr_record \<Rightarrow> isr_record \<times> byte" where
  "isrEnter i r =
     (let prev = isr_last r;
          r = r\<lparr>isr_last := i, isr_count := isr_count r + 1\<rparr>;
          r = (if unat i < ISR_ID_COUNT then r\<lparr>cnt := (cnt r)[unat i := cnt r ! unat i + 1]\<rparr> else r)
      in (sealIsr r, prev))"

definition isrExit :: "byte \<Rightarrow> isr_record \<Rightarrow> isr_record" where
  "isrExit prev r = sealIsr (r\<lparr>isr_last := prev\<rparr>)"

definition isrEnterLite :: "byte \<Rightarrow> isr_record \<Rightarrow> isr_record \<times> byte" where
  "isrEnterLite i r =
     (let prev = isr_last r;
          w0 = isr_word1 prev r;
          w1 = isr_word1 i r;
          c_old = isr_count r;
          d0 = w0 XOR w1;
          dall = d0 XOR (c_old XOR (c_old + 1));
          r = r\<lparr>isr_last := i, isr_count := c_old + 1\<rparr>;
          (r, dall) = (if unat i < ISR_ID_COUNT then
              let p_old = cnt r ! unat i
              in (r\<lparr>cnt := (cnt r)[unat i := p_old + 1]\<rparr>, dall XOR (p_old XOR (p_old + 1)))
            else (r, dall))
      in (r\<lparr>check0 := check0 r XOR d0, check_all := check_all r XOR dall\<rparr>, prev))"

definition isrExitLite :: "byte \<Rightarrow> isr_record \<Rightarrow> isr_record" where
  "isrExitLite prev r =
     (let w0 = isr_word1 (isr_last r) r;
          w1 = isr_word1 prev r
      in r\<lparr>isr_last := prev, check0 := check0 r XOR (w0 XOR w1), check_all := check_all r XOR (w0 XOR w1)\<rparr>)"

text \<open>
  The pre-reset interrupt: the context is sealed before the counts are, so \<open>health_rtwdog_isr_c\<close>
  is two steps; a reset may fall between them. \<open>frame\<close> is the stacked exception frame.
\<close>

definition wdog_isr_context :: "u32 list \<Rightarrow> u32 \<Rightarrow> u32 \<Rightarrow> isr_record \<Rightarrow> isr_record" where
  "wdog_isr_context frame exc_return now r =
     (let r = r\<lparr>wdog_prev_isr := isr_last r, wdog_pc := frame ! 6, wdog_lr := frame ! 5,
                wdog_xpsr := frame ! 7, wdog_excret := exc_return, wdog_stamp_us := now,
                wdog_fired := 1, isr_last := ISR_WDOG\<rparr>
      in r\<lparr>check0 := computeIsrCheck0 r\<rparr>)"

definition health_rtwdog_isr_c :: "u32 list \<Rightarrow> u32 \<Rightarrow> u32 \<Rightarrow> isr_record \<Rightarrow> isr_record" where
  "health_rtwdog_isr_c frame exc_return now r =
     (let r = wdog_isr_context frame exc_return now r
      in r\<lparr>check_all := computeIsrCheckAll r\<rparr>)"

section \<open>Boot harvest\<close>

definition harvest_crumb :: "breadcrumb \<Rightarrow> hstats \<Rightarrow> hstats" where
  "harvest_crumb c st =
     (if bc_magic c = crumb_magic \<and> bc_check c = crumb_check_of c
      then st\<lparr>prev_valid := True, prev_last_op := last_op c, prev_op_arg := op_arg c,
              prev_slow_op := slow_op c, prev_stamp_us := stamp_us c, prev_slow_us := slow_us c\<rparr>
      else st)"

definition harvest_isr :: "isr_record \<Rightarrow> hstats \<Rightarrow> hstats" where
  "harvest_isr r st =
     (if isr_magic r = kIsrMagic \<and> check0 r = computeIsrCheck0 r then
        let st = st\<lparr>prev_isr_valid := True, prev_isr_last := isr_last r,
                    prev_wdog_fired := (wdog_fired r \<noteq> 0), prev_wdog_pc := wdog_pc r,
                    prev_wdog_lr := wdog_lr r, prev_wdog_xpsr := wdog_xpsr r,
                    prev_wdog_excret := wdog_excret r, prev_wdog_prev_isr := wdog_prev_isr r\<rparr>
        in if check_all r = computeIsrCheckAll r
           then st\<lparr>prev_isr_count := isr_count r, prev_isr_cnt := take ISR_ID_COUNT (cnt r)\<rparr>
           else st
      else st)"

definition fresh_crumb :: "breadcrumb \<Rightarrow> breadcrumb" where
  "fresh_crumb c = seal_crumb (c\<lparr>bc_magic := crumb_magic, last_op := OP_IDLE, op_arg := 0,
     slow_op := OP_IDLE, stamp_us := 0, slow_us := 0\<rparr>)"

definition fresh_isr :: "isr_record \<Rightarrow> isr_record" where
  "fresh_isr r = sealIsr (r\<lparr>isr_magic := kIsrMagic, isr_last := ISR_NONE, wdog_fired := 0,
     wdog_prev_isr := 0, isr_pad := 0, wdog_pc := 0, wdog_lr := 0, wdog_stamp_us := 0,
     wdog_xpsr := 0, wdog_excret := 0, isr_count := 0, cnt := replicate ISR_ID_COUNT 0,
     isr_reserved := replicate 6 0\<rparr>)"

text \<open>\<open>Health::begin\<close> up to the watchdog: \<open>srsr\<close> is the reset-cause register at boot.\<close>

definition health_begin :: "u32 \<Rightarrow> u32 \<Rightarrow> breadcrumb \<Rightarrow> isr_record \<Rightarrow> hstats
    \<Rightarrow> breadcrumb \<times> isr_record \<times> hstats" where
  "health_begin srsr now c r st =
     (let st = st\<lparr>reset_cause := srsr\<rparr>;
          st = harvest_crumb c st;
          st = harvest_isr r st
      in (fresh_crumb c, fresh_isr r, st\<lparr>loop_win_start_us := now\<rparr>))"

section \<open>Loop timing\<close>

text \<open>\<open>loopTick\<close> up to its watchdog kick.\<close>

definition loopTick :: "u32 \<Rightarrow> hstats \<Rightarrow> hstats" where
  "loopTick now st =
     (let st = (if loop_count st \<noteq> 0 then
                  let dt = now - loop_last_entry_us st;
                      st = (if loop_max_us st < dt then st\<lparr>loop_max_us := dt\<rparr> else st)
                  in (if loop_win_max_us st < dt then st\<lparr>loop_win_max_us := dt\<rparr> else st)
                else st);
          st = st\<lparr>loop_last_entry_us := now, loop_count := loop_count st + 1\<rparr>
      in if 1000000 \<le> now - loop_win_start_us st
         then st\<lparr>loop_max_1s_us := loop_win_max_us st, loop_win_max_us := 0, loop_win_start_us := now\<rparr>
         else st)"

end
