(* ===== verification/HealthProps.thy ===== *)
theory HealthProps
  imports Health
begin

text \<open>
  Correctness of the reset-surviving records: the incremental checksum of the cheap ISR
  hooks equals the full recomputation, every hook leaves a record that the next boot accepts,
  the boot reports exactly what was recorded, and the loop statistics are the true maxima.
\<close>

section \<open>XOR over the words of a record\<close>

definition xor_list :: "u32 list \<Rightarrow> u32" where
  "xor_list ws = foldr (XOR) ws 0"

lemma xor_list_simps [simp]:
  "xor_list [] = 0" "xor_list (w # ws) = w XOR xor_list ws" "xor_list (vs @ ws) = xor_list vs XOR xor_list ws"
proof -
  show "xor_list [] = 0" "xor_list (w # ws) = w XOR xor_list ws" by (simp_all add: xor_list_def)
  show "xor_list (vs @ ws) = xor_list vs XOR xor_list ws"
    by (induction vs) (simp_all add: xor_list_def xor.assoc)
qed

lemma fold_xor: "fold (\<lambda>i x. x XOR ws ! i) is x = x XOR xor_list (map ((!) ws) is)"
  by (induction "is" arbitrary: x) (simp_all add: xor.assoc)

lemma xor_list_update:
  "i < length ws \<Longrightarrow> xor_list (ws[i := v]) = xor_list ws XOR (ws ! i XOR v)"
proof (induction ws arbitrary: i)
  case (Cons w ws)
  show ?case
  proof (cases i)
    case 0
    then show ?thesis by (intro bit_word_eqI) (auto simp: bit_xor_iff)
  next
    case (Suc j)
    then have "xor_list (ws[j := v]) = xor_list ws XOR (ws ! j XOR v)" using Cons by simp
    then show ?thesis using Suc by (simp add: xor.assoc)
  qed
qed simp

text \<open>The arrays have the lengths of the C declaration.\<close>

definition isr_shape :: "isr_record \<Rightarrow> bool" where
  "isr_shape r \<longleftrightarrow> length (cnt r) = ISR_ID_COUNT \<and> length (isr_reserved r) = 6"

definition isr_head :: "isr_record \<Rightarrow> u32" where
  "isr_head r = isr_magic r XOR (isr_word1 (isr_last r) r XOR (wdog_pc r XOR (wdog_lr r XOR
     (wdog_xpsr r XOR (wdog_excret r XOR wdog_stamp_us r)))))"

definition isr_tail :: "isr_record \<Rightarrow> u32" where
  "isr_tail r = xor_list (cnt r) XOR (isr_count r XOR xor_list (isr_reserved r))"

lemma upt7: "[0..<7] = [0, 1, 2, 3, 4, 5, 6 :: nat]"
  by (simp add: upt_conv_Cons)

lemma check0_head: "computeIsrCheck0 r = NOT (isr_head r)"
  unfolding computeIsrCheck0_def fold_xor upt7
  by (simp add: isr_words_def isr_head_def)

lemma map_nth_range: "n + length ys \<le> length xs \<Longrightarrow> take (length ys) (drop n xs) = ys
    \<Longrightarrow> map ((!) xs) [n..<n + length ys] = ys"
  by (metis drop_map drop_upt map_nth take_map take_upt add_0 take_drop)

lemma check_all_words:
  assumes "isr_shape r"
  shows "computeIsrCheckAll r = NOT (isr_head r XOR isr_tail r)"
proof -
  let ?ys = "cnt r @ [isr_count r] @ isr_reserved r"
  have len: "length ?ys = 15" using assms by (simp add: isr_shape_def ISR_ID_COUNT_def)
  have "map ((!) (isr_words r)) [8..<8 + length ?ys] = ?ys"
    by (rule map_nth_range) (simp_all add: isr_words_def)
  then have t: "map ((!) (isr_words r)) [8..<23] = ?ys" by (simp only: len) simp
  have h: "map ((!) (isr_words r)) [0..<7] = [isr_magic r, isr_word1 (isr_last r) r, wdog_pc r, wdog_lr r,
      wdog_xpsr r, wdog_excret r, wdog_stamp_us r]"
    unfolding upt7 by (simp add: isr_words_def)
  have "(96 div 4 - 1 :: nat) = 23" by simp
  then show ?thesis
    unfolding computeIsrCheckAll_def Let_def fold_xor h
    by (simp only: t) (simp add: isr_head_def isr_tail_def xor.assoc)
qed

section \<open>The ISR record stays valid\<close>

definition isr_ok :: "isr_record \<Rightarrow> bool" where
  "isr_ok r \<longleftrightarrow> isr_shape r \<and> check0 r = computeIsrCheck0 r \<and> check_all r = computeIsrCheckAll r"

lemma isr_shape_simps [simp]:
  "isr_shape (r\<lparr>isr_last := a\<rparr>) = isr_shape r" "isr_shape (r\<lparr>isr_count := c\<rparr>) = isr_shape r"
  "isr_shape (r\<lparr>check0 := k\<rparr>) = isr_shape r" "isr_shape (r\<lparr>check_all := k\<rparr>) = isr_shape r"
  "isr_shape (r\<lparr>cnt := (cnt r)[i := v]\<rparr>) = isr_shape r"
  by (simp_all add: isr_shape_def)

lemma head_frame [simp]:
  "isr_head (r\<lparr>check0 := k\<rparr>) = isr_head r" "isr_head (r\<lparr>check_all := k\<rparr>) = isr_head r"
  "isr_head (r\<lparr>isr_count := c\<rparr>) = isr_head r" "isr_head (r\<lparr>cnt := cs\<rparr>) = isr_head r"
  "isr_tail (r\<lparr>check0 := k\<rparr>) = isr_tail r" "isr_tail (r\<lparr>check_all := k\<rparr>) = isr_tail r"
  "isr_tail (r\<lparr>isr_last := a\<rparr>) = isr_tail r"
  by (simp_all add: isr_head_def isr_tail_def isr_word1_def)

lemma isr_word1_last [simp]: "isr_word1 x (r\<lparr>isr_last := a\<rparr>) = isr_word1 x r"
  by (simp add: isr_word1_def)

lemma xor_swap: "(a :: u32) XOR (x XOR b) XOR (x XOR y) = a XOR (y XOR b)"
  by (rule bit_word_eqI) (auto simp: bit_simps)

lemma head_last: "isr_head (r\<lparr>isr_last := a\<rparr>) = isr_head r XOR (isr_word1 (isr_last r) r XOR isr_word1 a r)"
  by (rule bit_word_eqI) (auto simp: isr_head_def bit_xor_iff)

lemma sealIsr_ok: "isr_shape r \<Longrightarrow> isr_ok (sealIsr r)"
  by (simp add: isr_ok_def sealIsr_def Let_def check0_head check_all_words)

lemma not_xor: "NOT (a :: u32) XOR d = NOT (a XOR d)"
  by (rule bit_word_eqI) (auto simp: bit_simps)

text \<open>The record a hook leaves when the checksums are recomputed in full.\<close>

lemma sealIsr_eq:
  "isr_shape r \<Longrightarrow> sealIsr r = r\<lparr>check0 := NOT (isr_head r), check_all := NOT (isr_head r XOR isr_tail r)\<rparr>"
  by (simp add: sealIsr_def Let_def check0_head check_all_words)

lemma isrExitLite_eq_isrExit: "isr_ok r \<Longrightarrow> isrExitLite prev r = isrExit prev r"
proof -
  assume ok: "isr_ok r"
  then have c: "check0 r = NOT (isr_head r)" "check_all r = NOT (isr_head r XOR isr_tail r)" "isr_shape r"
    by (simp_all add: isr_ok_def check0_head check_all_words)
  show ?thesis
    by (simp add: isrExitLite_def isrExit_def Let_def sealIsr_eq c head_last not_xor)
      (simp add: ac_simps)
qed

lemma isrEnterLite_eq_isrEnter: "isr_ok r \<Longrightarrow> isrEnterLite i r = isrEnter i r"
proof -
  assume ok: "isr_ok r"
  then have c: "check0 r = NOT (isr_head r)" "check_all r = NOT (isr_head r XOR isr_tail r)" "isr_shape r"
    by (simp_all add: isr_ok_def check0_head check_all_words)
  let ?r = "r\<lparr>isr_last := i, isr_count := isr_count r + 1\<rparr>"
  have h: "isr_head (r\<lparr>isr_last := i\<rparr>) = isr_head r XOR (isr_word1 (isr_last r) r XOR isr_word1 i r)"
    by (rule head_last)
  have t: "isr_tail ?r = isr_tail r XOR (isr_count r XOR (isr_count r + 1))"
    by (rule bit_word_eqI) (auto simp: isr_tail_def bit_xor_iff)
  have t2: "isr_tail (?r\<lparr>cnt := (cnt r)[unat i := v]\<rparr>) = isr_tail ?r XOR (cnt r ! unat i XOR v)"
    if "unat i < ISR_ID_COUNT" for v
    using that c(3) by (simp add: isr_tail_def isr_shape_def xor_list_update ac_simps)
  show ?thesis
  proof (cases "unat i < ISR_ID_COUNT")
    case True
    have "isr_shape (?r\<lparr>cnt := (cnt r)[unat i := v]\<rparr>)" for v using c(3) by (simp add: isr_shape_def)
    with True show ?thesis
      by (simp add: isrEnterLite_def isrEnter_def Let_def sealIsr_eq c h t t2 not_xor)
        (simp add: ac_simps)
  next
    case False
    then show ?thesis
      by (simp add: isrEnterLite_def isrEnter_def Let_def sealIsr_eq c h t not_xor)
        (simp add: ac_simps)
  qed
qed

section \<open>The hooks as a machine\<close>

text \<open>What interrupt context does to the record between two resets.\<close>

datatype isr_op =
    Enter byte
  | Exit byte
  | EnterLite byte
  | ExitLite byte
  | Wdog "u32 list" u32 u32

fun isr_step :: "isr_op \<Rightarrow> isr_record \<Rightarrow> isr_record" where
  "isr_step (Enter i) r = fst (isrEnter i r)"
| "isr_step (Exit p) r = isrExit p r"
| "isr_step (EnterLite i) r = fst (isrEnterLite i r)"
| "isr_step (ExitLite p) r = isrExitLite p r"
| "isr_step (Wdog f e now) r = health_rtwdog_isr_c f e now r"

lemma isrEnter_ok: "isr_ok r \<Longrightarrow> isr_ok (fst (isrEnter i r))"
  unfolding isrEnter_def Let_def fst_conv
  by (rule sealIsr_ok) (auto simp: isr_ok_def isr_shape_def)

lemma isrExit_ok: "isr_ok r \<Longrightarrow> isr_ok (isrExit p r)"
  unfolding isrExit_def by (rule sealIsr_ok) (simp add: isr_ok_def)

lemma wdog_ok: "isr_ok r \<Longrightarrow> isr_ok (health_rtwdog_isr_c f e now r)"
  by (auto simp: health_rtwdog_isr_c_def wdog_isr_context_def isr_ok_def Let_def isr_shape_def
      check0_head check_all_words)

lemma isr_step_ok: "isr_ok r \<Longrightarrow> isr_ok (isr_step a r)"
  by (cases a) (simp_all add: isrEnter_ok isrExit_ok isrEnterLite_eq_isrEnter isrExitLite_eq_isrExit wdog_ok)

interpretation isr: invariant_machine isr_step isr_ok
  by unfold_locales (rule isr_step_ok)

lemma fresh_isr_ok: "isr_ok (fresh_isr r) \<and> isr_magic (fresh_isr r) = kIsrMagic"
  unfolding fresh_isr_def by (intro conjI sealIsr_ok) (simp_all add: isr_shape_def sealIsr_def Let_def)

lemma isr_step_magic: "isr_magic (isr_step a r) = isr_magic r"
  by (cases a) (auto simp: isrEnter_def isrExit_def isrEnterLite_def isrExitLite_def sealIsr_def
      health_rtwdog_isr_c_def wdog_isr_context_def Let_def split: prod.splits if_splits)

lemma isr_run_magic: "isr_magic (fold isr_step ops r) = isr_magic r"
  by (induction ops arbitrary: r) (simp_all add: isr_step_magic)

section \<open>Properties\<close>

text \<open>C29: the cheap interrupt hooks, which patch the two checksums with the XOR of the old and
  new words, leave exactly the record that the sealing hooks compute from scratch.\<close>

lemma lite_hooks_equal_full:
  assumes "isr_ok r"
  shows "isrEnterLite i r = isrEnter i r \<and> isrExitLite p r = isrExit p r"
  using isrEnterLite_eq_isrEnter [OF assms] isrExitLite_eq_isrExit [OF assms] by simp

definition isr0 :: isr_record where
  "isr0 = fresh_isr \<lparr>isr_magic = 0, isr_last = 0, wdog_fired = 0, wdog_prev_isr = 0, isr_pad = 0,
     wdog_pc = 0, wdog_lr = 0, wdog_xpsr = 0, wdog_excret = 0, wdog_stamp_us = 0, check0 = 0,
     cnt = [], isr_count = 0, isr_reserved = [], check_all = 0\<rparr>"

lemma isr0_ok: "isr_ok isr0"
  using fresh_isr_ok by (simp add: isr0_def)

lemma lite_hooks_equal_full_witness: "isrEnterLite 7 isr0 = isrEnter 7 isr0"
  using lite_hooks_equal_full [OF isr0_ok] by blast


text \<open>When the reset cuts the watchdog interrupt short after the context is sealed, the
  next boot still reports the capture (PC, LR, xPSR and the ISR that was running); the counts
  are reported only if the whole record validates.\<close>

lemma watchdog_capture_survives:
  assumes "isr_magic r = kIsrMagic"
  shows "let st = harvest_isr (wdog_isr_context frame exc_return now r) st0
         in prev_isr_valid st \<and> prev_wdog_fired st \<and> prev_wdog_pc st = frame ! 6
          \<and> prev_wdog_lr st = frame ! 5 \<and> prev_wdog_xpsr st = frame ! 7
          \<and> prev_wdog_excret st = exc_return \<and> prev_wdog_prev_isr st = isr_last r
          \<and> prev_isr_last st = ISR_WDOG"
proof -
  have "computeIsrCheck0 (r'\<lparr>check0 := k\<rparr>) = computeIsrCheck0 r'" for r' k
    by (simp add: check0_head)
  with assms show ?thesis
    by (simp add: wdog_isr_context_def harvest_isr_def Let_def)
qed

lemma watchdog_capture_survives_witness:
  "prev_wdog_pc (harvest_isr (wdog_isr_context [0, 0, 0, 0, 0, 1, 0x1234, 3] 0xF9 77 isr0) stats0) = 0x1234"
  using watchdog_capture_survives [of isr0 "[0, 0, 0, 0, 0, 1, 0x1234, 3]" "0xF9" 77 stats0] fresh_isr_ok
  by (simp add: isr0_def Let_def)

text \<open>The main loop's breadcrumb between two resets.\<close>

datatype crumb_op = Mark u32 byte byte | Clear u32

fun crumb_step :: "crumb_op \<Rightarrow> breadcrumb \<Rightarrow> breadcrumb" where
  "crumb_step (Mark t op arg) c = mark t op arg c"
| "crumb_step (Clear t) c = clear t c"

definition crumb_ok :: "breadcrumb \<Rightarrow> bool" where
  "crumb_ok c \<longleftrightarrow> bc_magic c = crumb_magic \<and> bc_check c = crumb_check_of c"

lemma seal_crumb_ok: "bc_magic c = crumb_magic \<Longrightarrow> crumb_ok (seal_crumb c)"
  by (simp add: crumb_ok_def seal_crumb_def crumb_check_of_def)

lemma crumb_step_ok: "crumb_ok c \<Longrightarrow> crumb_ok (crumb_step a c)"
  by (cases a) (auto simp: mark_def clear_def Let_def crumb_ok_def [of c] intro!: seal_crumb_ok)

interpretation crumb: invariant_machine crumb_step crumb_ok
  by unfold_locales (rule crumb_step_ok)

lemma fresh_crumb_ok: "crumb_ok (fresh_crumb c)"
  unfolding fresh_crumb_def by (rule seal_crumb_ok) simp

text \<open>C31: a reset during a marked call is attributed to it: after any marks and clears of a boot
  followed by a \<open>mark\<close>, the next boot accepts the breadcrumb and reports that op, its argument
  and its stamp, and starts its own record idle and valid.\<close>

lemma mark_survives_reset:
  "let c = fold crumb_step (ops @ [Mark t op arg]) (fresh_crumb c0);
       (c', r', st) = health_begin srsr now c r st0
   in prev_valid st \<and> prev_last_op st = op \<and> prev_op_arg st = arg \<and> prev_stamp_us st = t
    \<and> prev_slow_us st = slow_us c \<and> reset_cause st = srsr \<and> crumb_ok c' \<and> last_op c' = OP_IDLE"
proof -
  let ?b = "fold crumb_step ops (fresh_crumb c0)"
  have "crumb_ok ?b" by (rule crumb.run_invar [OF fresh_crumb_ok])
  then have "crumb_ok (mark t op arg ?b)" using crumb_step_ok [of ?b "Mark t op arg"] by simp
  then have m: "harvest_crumb (mark t op arg ?b) st = st\<lparr>prev_valid := True, prev_last_op := op, prev_op_arg := arg,
      prev_slow_op := slow_op ?b, prev_stamp_us := t, prev_slow_us := slow_us ?b\<rparr>" for st
    by (simp add: harvest_crumb_def crumb_ok_def) (simp add: mark_def seal_crumb_def)
  have "last_op (fresh_crumb c) = OP_IDLE" for c by (simp add: fresh_crumb_def seal_crumb_def)
  moreover have "slow_us (mark t op arg ?b) = slow_us ?b" by (simp add: mark_def seal_crumb_def)
  ultimately show ?thesis
    by (simp add: health_begin_def m fresh_crumb_ok harvest_isr_def Let_def)
qed

text \<open>A breadcrumb that does not validate (power-on garbage) is never reported.\<close>

lemma garbage_crumb_rejected:
  assumes "\<not> crumb_ok c"
  shows "prev_valid (snd (snd (health_begin srsr now c r stats0))) = False
    \<and> prev_last_op (snd (snd (health_begin srsr now c r stats0))) = 0"
proof -
  have "harvest_crumb c st = st" for st using assms by (auto simp: harvest_crumb_def crumb_ok_def)
  then show ?thesis by (simp add: health_begin_def harvest_isr_def stats0_def Let_def)
qed

definition garbage_crumb :: breadcrumb where
  "garbage_crumb = \<lparr>bc_magic = 0xDEADBEEF, last_op = 4, op_arg = 7, slow_op = 1, stamp_us = 5, slow_us = 6, bc_check = 0\<rparr>"

lemma garbage_crumb_rejected_witness:
  "prev_valid (snd (snd (health_begin 1 2 garbage_crumb isr0 stats0))) = False"
  using garbage_crumb_rejected [of garbage_crumb 1 2 isr0]
  by (simp add: garbage_crumb_def crumb_ok_def crumb_magic_def)

section \<open>Loop timing\<close>

fun gaps :: "u32 list \<Rightarrow> u32 list" where
  "gaps (a # b # ts) = (b - a) # gaps (b # ts)"
| "gaps ts = []"

lemma loopTick_fields:
  "loop_last_entry_us (loopTick now st) = now" "loop_count (loopTick now st) = loop_count st + 1"
  "loop_max_us (loopTick now st) = (if loop_count st \<noteq> 0 then max (loop_max_us st) (now - loop_last_entry_us st) else loop_max_us st)"
  by (auto simp: loopTick_def Let_def max_def)

lemma loop_max_run:
  assumes "0 < unat (loop_count st)" "unat (loop_count st) + length ts < 2 ^ 32"
  shows "loop_max_us (fold loopTick ts st) = fold max (gaps (loop_last_entry_us st # ts)) (loop_max_us st)"
  using assms
proof (induction ts arbitrary: st)
  case (Cons t ts)
  have c: "unat (loop_count st + 1) = unat (loop_count st) + 1"
    using Cons.prems by (simp add: unat_word_ariths)
  have "loop_count st \<noteq> 0" using Cons.prems by auto
  then have m: "loop_max_us (loopTick t st) = max (t - loop_last_entry_us st) (loop_max_us st)"
    by (simp add: loopTick_fields max.commute)
  have "loop_max_us (fold loopTick ts (loopTick t st))
      = fold max (gaps (t # ts)) (loop_max_us (loopTick t st))"
    using Cons.IH [of "loopTick t st"] Cons.prems c by (simp add: loopTick_fields)
  then show ?case by (simp add: m)
qed simp

text \<open>The reported longest loop time is the largest gap between successive loop entries since
  boot, the time before the first entry excluded.\<close>

lemma loop_max_is_largest_gap:
  assumes "loop_count st = 0" and "loop_max_us st = 0" and "length ts < 4294967295"
  shows "loop_max_us (fold loopTick (t # ts) st) = fold max (gaps (t # ts)) 0"
proof -
  have "unat (loop_count (loopTick t st)) = 1" using assms(1) by (simp add: loopTick_fields)
  then show ?thesis
    using loop_max_run [of "loopTick t st" ts] assms by (simp add: loopTick_fields)
qed

lemma loop_max_is_largest_gap_witness:
  "loop_max_us (fold loopTick (100 # [350, 400, 1400]) stats0) = fold max (gaps [100, 350, 400, 1400]) 0
   \<and> fold max (gaps [100, 350, 400, 1400]) 0 = 1000"
  using loop_max_is_largest_gap [of stats0 "[350, 400, 1400]" 100] by (simp add: stats0_def)

end
