(* ===== verification/Telemetry.thy ===== *)
theory Telemetry
  imports Health
begin

text \<open>
  \<open>src/src/Telemetry.h\<close> and \<open>src/src/Telemetry.cpp\<close>: the telemetry ring in OCRAM. This
  theory holds the model: the persistent header, the record area as a byte memory of
  \<open>kDataSize\<close> bytes, the volatile gates, and one definition per function of the module.

  Offsets into the record area are natural numbers: every offset the code computes is
  below \<open>2 * kDataSize\<close>, so its \<open>uint32_t\<close> arithmetic does not wrap. Sequence numbers, times,
  counters and the checksum are words. \<open>micros()\<close> readings are arguments, in the order the
  code takes them; \<open>__brkval\<close> is a field of the state. Cache flushes have no effect here;
  the order in which the code makes bytes and header visible is kept by splitting
  \<open>appendRaw\<close> at its three commit points.
\<close>

section \<open>Constants\<close>

definition kRingBase :: nat where "kRingBase = 0x2026F000"
definition kRingSize :: nat where "kRingSize = 0x10000"
definition kHeaderSize :: nat where "kHeaderSize = 32"
definition kDataSize :: nat where "kDataSize = kRingSize - kHeaderSize"
definition kMagic :: u32 where "kMagic = 0x47365452"
definition kVersion :: byte where "kVersion = 2"
definition kHeapGuardBytes :: nat where "kHeapGuardBytes = 4096"
definition kFlagEventsEnabled :: byte where "kFlagEventsEnabled = 0x01"
definition kFlagSynthetic :: byte where "kFlagSynthetic = 0x80"
definition kBlockFlagEvents :: byte where "kBlockFlagEvents = 0x01"
definition kBlockFlagSurvivedBoot :: byte where "kBlockFlagSurvivedBoot = 0x02"
definition kBlockFlagHeapCollision :: byte where "kBlockFlagHeapCollision = 0x04"
definition kBlockFlagSynthetic :: byte where "kBlockFlagSynthetic = 0x08"
definition REC_PAD :: byte where "REC_PAD = 0"
definition REC_CMD :: byte where "REC_CMD = 1"
definition REC_FRAME :: byte where "REC_FRAME = 2"
definition REC_STATE :: byte where "REC_STATE = 3"
definition ST_BOOT :: byte where "ST_BOOT = 1"
definition ST_STATE_CHANGE :: byte where "ST_STATE_CHANGE = 2"
definition ST_ERROR_GLYPH :: byte where "ST_ERROR_GLYPH = 3"
definition ST_SD_SLOW :: byte where "ST_SD_SLOW = 4"
definition ST_RING_OVERRUN :: byte where "ST_RING_OVERRUN = 5"
definition ST_TELEMETRY :: byte where "ST_TELEMETRY = 6"
definition ST_SD_OPEN :: byte where "ST_SD_OPEN = 7"
definition ST_WDOG_CONTEXT :: byte where "ST_WDOG_CONTEXT = 8"
definition ST_PREV_ISR_COUNT :: byte where "ST_PREV_ISR_COUNT = 9"
definition ST_TIMER_FAIL :: byte where "ST_TIMER_FAIL = 10"
definition kOverrunCodeEvicted :: byte where "kOverrunCodeEvicted = 0x00"
definition kOverrunCodeHeapCollision :: byte where "kOverrunCodeHeapCollision = 0xFF"
definition kSyntheticCmd :: byte where "kSyntheticCmd = 0xFE"
definition kRecordHeaderLen :: nat where "kRecordHeaderLen = 10"
definition kCmdPayloadMax :: nat where "kCmdPayloadMax = 8"
definition kCmdRecordLenMax :: nat where "kCmdRecordLenMax = kRecordHeaderLen + 3 + kCmdPayloadMax"
definition kFrameRecordLen :: nat where "kFrameRecordLen = kRecordHeaderLen + 16"
definition kStateRecordLen :: nat where "kStateRecordLen = kRecordHeaderLen + 4"
definition kEvictEpisodeGapUs :: u32 where "kEvictEpisodeGapUs = 1000000"
definition kSynthCatchUpMax :: nat where "kSynthCatchUpMax = 256"

lemma kDataSize_val [simp]: "kDataSize = 65504"
  by (simp add: kDataSize_def kRingSize_def kHeaderSize_def)

lemmas tel_lens = kRecordHeaderLen_def kCmdPayloadMax_def kCmdRecordLenMax_def kFrameRecordLen_def
  kStateRecordLen_def
lemmas tel_types = REC_PAD_def REC_CMD_def REC_FRAME_def REC_STATE_def

section \<open>State\<close>

record ring_header =
  magic :: u32
  ver :: byte
  hflags :: byte
  reserved :: u16
  write_off :: nat
  read_off :: nat
  next_seq :: u32
  dropped :: u32
  boot_count :: u32
  checksum :: u32

text \<open>
  \<open>hdr\<close> and \<open>ring_data\<close> survive a reset; the rest is the module's static data. \<open>brkval\<close> is
  the live heap break \<open>__brkval\<close>, moved by \<open>malloc\<close> outside this module.
\<close>

record tel =
  hdr :: ring_header
  ring_data :: mem
  ring_ok :: bool
  enabled :: bool
  kept :: bool
  heap_collision :: bool
  dropped_reported :: u32
  last_evict_us :: u32
  evicted_ever :: bool
  synth_on :: bool
  synth_rate :: u16
  synth_period_us :: u32
  synth_last_us :: u32
  synth_counter :: u32
  brkval :: nat

section \<open>Header and cursors\<close>

definition computeCheck :: "ring_header \<Rightarrow> u32" where
  "computeCheck h =
     magic h + (ucast (ver h) OR push_bit 8 (ucast (hflags h)) OR push_bit 16 (ucast (reserved h)))
     + of_nat (write_off h) + of_nat (read_off h) + next_seq h + dropped h + boot_count h"

definition sealHeader :: "tel \<Rightarrow> tel" where
  "sealHeader s = s\<lparr>hdr := (hdr s)\<lparr>checksum := computeCheck (hdr s)\<rparr>\<rparr>"

definition usedBytes :: "tel \<Rightarrow> nat" where
  "usedBytes s = (let w = write_off (hdr s); r = read_off (hdr s)
                  in if r \<le> w then w - r else kDataSize - r + w)"

definition freeBytes :: "tel \<Rightarrow> nat" where
  "freeBytes s = kDataSize - 1 - usedBytes s"

definition isPadAt :: "mem \<Rightarrow> nat \<Rightarrow> bool" where
  "isPadAt m off \<longleftrightarrow> unat (m off) < kRecordHeaderLen \<or> m (off + 1) = REC_PAD"

definition seqAt :: "mem \<Rightarrow> nat \<Rightarrow> u32" where
  "seqAt m off = get32 (m (off + 2)) (m (off + 3)) (m (off + 4)) (m (off + 5))"

definition wellFormedAt :: "mem \<Rightarrow> nat \<Rightarrow> nat \<Rightarrow> bool" where
  "wellFormedAt m off w =
     (let len = unat (m off); end' = off + len in
      if len = 0 then False
      else if kDataSize < end' then False
      else if off < w \<and> w < end' then False
      else if len < kRecordHeaderLen then len = 1 \<or> m (off + 1) = REC_PAD
      else if m (off + 1) = REC_PAD then True
      else if m (off + 1) = REC_CMD then
        kRecordHeaderLen + 3 \<le> len \<and> len \<le> kCmdRecordLenMax
          \<and> m (off + 12) = of_nat (len - (kRecordHeaderLen + 3))
      else if m (off + 1) = REC_FRAME then len = kFrameRecordLen
      else if m (off + 1) = REC_STATE then len = kStateRecordLen
      else False)"

text \<open>\<open>(end == kDataSize) ? 0 : end\<close>, the wrap of every cursor.\<close>

definition wrap_off :: "nat \<Rightarrow> nat" where
  "wrap_off e = (if e = kDataSize then 0 else e)"

definition heapTooClose :: "tel \<Rightarrow> bool" where
  "heapTooClose s \<longleftrightarrow> kRingBase - kHeapGuardBytes \<le> brkval s"

abbreviation set_read_off :: "nat \<Rightarrow> tel \<Rightarrow> tel" where
  "set_read_off r s \<equiv> s\<lparr>hdr := (hdr s)\<lparr>read_off := r\<rparr>\<rparr>"

section \<open>Appending\<close>

text \<open>
  \<open>makeRoom\<close>: the loop state is the ring, the eviction count and the flag of the two
  \<open>break\<close>s.
\<close>

definition makeRoom_body :: "tel \<times> nat \<times> bool \<Rightarrow> tel \<times> nat \<times> bool" where
  "makeRoom_body = (\<lambda>(s, evicted, stop).
     let r = read_off (hdr s); m = ring_data s in
     if r = write_off (hdr s) then (s, evicted, True)
     else let len = unat (m r) in
       if len = 0 \<or> kDataSize < r + len then (set_read_off (write_off (hdr s)) s, evicted, True)
       else (set_read_off (wrap_off (r + len)) s, if isPadAt m r then evicted else evicted + 1, False))"

definition makeRoom :: "nat \<Rightarrow> tel \<Rightarrow> tel \<times> nat" where
  "makeRoom need s =
     (let (s', evicted, _) = while (\<lambda>(s, _, stop). \<not> stop \<and> freeBytes s < need) makeRoom_body (s, 0, False)
      in (s', evicted))"

text \<open>The three commit points of \<open>appendRaw\<close>: eviction, bytes, header.\<close>

definition appendRaw_evict :: "nat \<Rightarrow> tel \<Rightarrow> tel \<times> nat" where
  "appendRaw_evict len s =
     (let tail = kDataSize - write_off (hdr s);
          need = (if tail < len then tail + len else len);
          (s, evicted) = makeRoom need s
      in if evicted \<noteq> 0
         then (sealHeader (s\<lparr>hdr := (hdr s)\<lparr>dropped := dropped (hdr s) + of_nat evicted\<rparr>\<rparr>), evicted)
         else (s, evicted))"

definition appendRaw_pad :: "nat \<Rightarrow> tel \<Rightarrow> tel \<times> nat" where
  "appendRaw_pad len s =
     (let w = write_off (hdr s); tail = kDataSize - w in
      if tail < len then
        (let s = s\<lparr>ring_data := (ring_data s)(w := of_nat tail)\<rparr>;
             s = (if 2 \<le> tail then s\<lparr>ring_data := (ring_data s)(w + 1 := REC_PAD)\<rparr> else s)
         in (s, 0))
      else (s, w))"

definition stamp_seq :: "u32 \<Rightarrow> u32" where
  "stamp_seq n = (if n = 0 \<or> n = 0xFFFFFFFF then 1 else n)"

definition appendRaw_record :: "nat \<Rightarrow> byte list \<Rightarrow> tel \<Rightarrow> tel" where
  "appendRaw_record w rec s =
     s\<lparr>ring_data := store (ring_data s) w (blit rec 2 (put32 (stamp_seq (next_seq (hdr s)))))\<rparr>"

definition appendRaw_publish :: "nat \<Rightarrow> nat \<Rightarrow> tel \<Rightarrow> tel" where
  "appendRaw_publish w len s =
     sealHeader (s\<lparr>hdr := (hdr s)\<lparr>write_off := wrap_off (w + len),
                                  next_seq := stamp_seq (next_seq (hdr s)) + 1\<rparr>\<rparr>)"

definition appendRaw :: "byte list \<Rightarrow> tel \<Rightarrow> tel \<times> nat" where
  "appendRaw rec s =
     (let len = length rec;
          (s, evicted) = appendRaw_evict len s;
          (s, w) = appendRaw_pad len s;
          s = appendRaw_record w rec s
      in (appendRaw_publish w len s, evicted))"

text \<open>
  Records are built in full before \<open>appendRaw\<close> stamps the sequence number; the four bytes
  it overwrites are uninitialised in the code and zero here.
\<close>

definition buildState :: "u32 \<Rightarrow> byte \<Rightarrow> byte \<Rightarrow> u16 \<Rightarrow> byte list" where
  "buildState t_us kind code arg =
     [of_nat kStateRecordLen, REC_STATE] @ put32 0 @ put32 t_us @ [kind, code] @ put16 arg"

definition tripHeapGuard :: "u32 \<Rightarrow> tel \<Rightarrow> tel" where
  "tripHeapGuard now s =
     (let s = s\<lparr>heap_collision := True\<rparr>;
          s = (if brkval s < kRingBase then
                 let (s, _) = appendRaw (buildState now ST_RING_OVERRUN kOverrunCodeHeapCollision 0) s
                 in sealHeader (s\<lparr>hdr := (hdr s)\<lparr>hflags := hflags (hdr s) AND NOT kFlagEventsEnabled\<rparr>\<rparr>)
               else s)
      in s\<lparr>enabled := False, synth_on := False, ring_ok := False\<rparr>)"

definition append_rec :: "u32 \<Rightarrow> byte list \<Rightarrow> tel \<Rightarrow> tel" where
  "append_rec now rec s =
     (if heapTooClose s then tripHeapGuard now s
      else
        (let (s, evicted) = appendRaw rec s in
         if evicted \<noteq> 0 then
           let s = (if \<not> evicted_ever s \<or> kEvictEpisodeGapUs \<le> now - last_evict_us s then
                      let since = dropped (hdr s) - dropped_reported s;
                          ov = buildState now ST_RING_OVERRUN kOverrunCodeEvicted
                                 (if 0xFFFF < since then 0xFFFF else ucast since);
                          (s, _) = appendRaw ov s
                      in s\<lparr>dropped_reported := dropped (hdr s)\<rparr>
                    else s)
           in s\<lparr>evicted_ever := True, last_evict_us := now\<rparr>
         else s))"

section \<open>Boot\<close>

definition validHeader :: "tel \<Rightarrow> bool" where
  "validHeader s =
     (let h = hdr s in
      if magic h \<noteq> kMagic \<or> ver h \<noteq> kVersion then False
      else if checksum h \<noteq> computeCheck h then False
      else if kDataSize \<le> write_off h \<or> kDataSize \<le> read_off h then False
      else if next_seq h = 0 then False
      else True)"

text \<open>The loop state of \<open>repairChain\<close>: the cursor, the step count and the failure exit.\<close>

definition repairChain :: "tel \<Rightarrow> tel" where
  "repairChain s =
     (let w = write_off (hdr s); m = ring_data s;
          (off, _, bad) = while (\<lambda>(off, steps, bad). \<not> bad \<and> off \<noteq> w)
            (\<lambda>(off, steps, bad).
               if \<not> wellFormedAt m off w \<or> kDataSize < steps + 1 then (off, steps + 1, True)
               else (wrap_off (off + unat (m off)), steps + 1, False))
            (read_off (hdr s), 0 :: nat, False)
      in if bad then s\<lparr>hdr := (hdr s)\<lparr>write_off := off\<rparr>\<rparr> else s)"

definition initRing :: "tel \<Rightarrow> tel" where
  "initRing s =
     sealHeader (s\<lparr>hdr := (hdr s)\<lparr>magic := kMagic, ver := kVersion, hflags := kFlagEventsEnabled,
       reserved := 0, write_off := 0, read_off := 0, next_seq := 1, dropped := 0, boot_count := 0\<rparr>\<rparr>)"

text \<open>
  \<open>state\<close>: \<open>t\<close> is the \<open>micros()\<close> reading that stamps the record, \<open>now\<close> the later one of the
  eviction bookkeeping (or of the heap guard's marker).
\<close>

definition state :: "u32 \<Rightarrow> u32 \<Rightarrow> byte \<Rightarrow> byte \<Rightarrow> u16 \<Rightarrow> tel \<Rightarrow> tel" where
  "state t now kind code arg s =
     (if \<not> enabled s then s else append_rec now (buildState t kind code arg) s)"

text \<open>\<open>begin\<close> up to the boot marker: keep or initialise the ring.\<close>

definition begin_ring :: "tel \<Rightarrow> tel" where
  "begin_ring s =
     (let s = s\<lparr>ring_ok := True\<rparr>;
          s = (if validHeader s then
                 let s = repairChain (s\<lparr>kept := True\<rparr>)
                 in sealHeader (s\<lparr>hdr := (hdr s)\<lparr>boot_count := boot_count (hdr s) + 1,
                       hflags := hflags (hdr s) OR kFlagEventsEnabled\<rparr>\<rparr>)
               else initRing (s\<lparr>kept := False\<rparr>))
      in s\<lparr>enabled := True, synth_on := False, synth_rate := 0,
           dropped_reported := dropped (hdr s), evicted_ever := False\<rparr>)"

definition boot_arg :: "hstats \<Rightarrow> u16" where
  "boot_arg hs = push_bit 8 (ucast (prev_last_op hs)) OR (if prev_valid hs then 1 else 0)
     OR (if prev_isr_valid hs \<and> prev_wdog_fired hs then 2 else 0)"

text \<open>
  The watchdog context records. \<open>clk k\<close> gives the two \<open>micros()\<close> readings of the \<open>k\<close>-th
  record; \<open>wdog3_rst_b\<close> is the chip header's reset-cause bit of the watchdog.
\<close>

definition boot_isr_counts :: "(nat \<Rightarrow> u32 \<times> u32) \<Rightarrow> hstats \<Rightarrow> tel \<Rightarrow> tel" where
  "boot_isr_counts clk hs s =
     fold (\<lambda>i s. let n = prev_isr_cnt hs ! i; u = drop_bit 12 n in
             if n = 0 then s
             else state (fst (clk (i + 2))) (snd (clk (i + 2))) ST_PREV_ISR_COUNT (of_nat i)
                    (if 0xFFFF < u then 0xFFFF else ucast u) s)
       [1..<ISR_ID_COUNT] s"

definition boot_records :: "u32 \<Rightarrow> (nat \<Rightarrow> u32 \<times> u32) \<Rightarrow> hstats \<Rightarrow> tel \<Rightarrow> tel" where
  "boot_records wdog3_rst_b clk hs s =
     (let s = state (fst (clk 0)) (snd (clk 0)) ST_BOOT (ucast (reset_cause hs AND 0xFF)) (boot_arg hs) s in
      if prev_isr_valid hs \<and> reset_cause hs AND wdog3_rst_b \<noteq> 0 then
        let s = (if prev_wdog_fired hs then
                   state (fst (clk 1)) (snd (clk 1)) ST_WDOG_CONTEXT (ucast (prev_wdog_excret hs AND 0xFF))
                     (ucast (prev_wdog_xpsr hs AND 0x1FF) OR push_bit 9 (ucast (prev_wdog_prev_isr hs AND 0x7F))) s
                 else s)
        in boot_isr_counts clk hs s
      else s)"

definition begin_tel :: "u32 \<Rightarrow> (nat \<Rightarrow> u32 \<times> u32) \<Rightarrow> hstats \<Rightarrow> tel \<Rightarrow> tel" where
  "begin_tel wdog3_rst_b clk hs s =
     (if heapTooClose s then s\<lparr>heap_collision := True, ring_ok := False\<rparr>
      else boot_records wdog3_rst_b clk hs (begin_ring s))"

section \<open>Service and configuration\<close>

definition synth_record :: "u32 \<Rightarrow> u32 \<Rightarrow> byte list" where
  "synth_record t counter =
     [17, REC_CMD] @ put32 0 @ put32 t @ [kSyntheticCmd, 0, 4] @ put32 counter"

text \<open>
  The catch-up loop of \<open>service\<close>: at most \<open>kSynthCatchUpMax\<close> iterations, which is the
  fuel. \<open>ev k\<close> is the \<open>micros()\<close> reading of the \<open>k\<close>-th append.
\<close>

fun service_loop :: "nat \<Rightarrow> u32 \<Rightarrow> (nat \<Rightarrow> u32) \<Rightarrow> nat \<Rightarrow> tel \<Rightarrow> tel" where
  "service_loop 0 now ev steps s = s"
| "service_loop (Suc fuel) now ev steps s =
     (if synth_period_us s \<le> now - synth_last_us s then
        let s = s\<lparr>synth_last_us := synth_last_us s + synth_period_us s\<rparr>;
            rec = synth_record (synth_last_us s) (synth_counter s);
            s = s\<lparr>synth_counter := synth_counter s + 1\<rparr>;
            s = append_rec (ev steps) rec s
        in if \<not> ring_ok s then s
           else if kSynthCatchUpMax \<le> steps + 1 then s\<lparr>synth_last_us := now\<rparr>
           else service_loop fuel now ev (steps + 1) s
      else s)"

definition service :: "u32 \<Rightarrow> (nat \<Rightarrow> u32) \<Rightarrow> tel \<Rightarrow> tel" where
  "service now ev s =
     (if \<not> ring_ok s then s
      else if heapTooClose s then tripHeapGuard now s
      else if \<not> synth_on s then s
      else service_loop kSynthCatchUpMax now ev 0 s)"

text \<open>\<open>rate_hz\<close> is signed: a negative rate keeps the stored one.\<close>

definition configure :: "u32 \<Rightarrow> u32 \<Rightarrow> u32 \<Rightarrow> byte \<Rightarrow> int \<Rightarrow> tel \<Rightarrow> tel" where
  "configure t0 t now flags rate_hz s =
     (if \<not> ring_ok s then s
      else if heapTooClose s then tripHeapGuard now s
      else
        (let on = (flags AND kFlagEventsEnabled \<noteq> 0);
             synth = (flags AND kFlagSynthetic \<noteq> 0);
             s = (if on \<and> \<not> enabled s then
                    sealHeader (s\<lparr>enabled := True,
                      hdr := (hdr s)\<lparr>hflags := hflags (hdr s) OR kFlagEventsEnabled\<rparr>\<rparr>)
                  else s);
             s = (if 0 \<le> rate_hz
                  then s\<lparr>synth_rate := (if 0xFFFF < rate_hz then 0xFFFF else of_int rate_hz)\<rparr> else s);
             s = s\<lparr>synth_on := (synth \<and> 0 < synth_rate s)\<rparr>;
             s = s\<lparr>synth_period_us := (if synth_on s then 1000000 div ucast (synth_rate s) else 0),
                   synth_last_us := t0, synth_counter := 0\<rparr>;
             s = state t now ST_TELEMETRY flags (synth_rate s) s
         in if \<not> on \<and> enabled s then
              sealHeader (s\<lparr>enabled := False,
                hdr := (hdr s)\<lparr>hflags := hflags (hdr s) AND NOT kFlagEventsEnabled\<rparr>\<rparr>)
            else s))"

section \<open>Producers\<close>

definition cmd_record :: "u32 \<Rightarrow> byte \<Rightarrow> byte \<Rightarrow> byte list \<Rightarrow> byte list" where
  "cmd_record t cmd_byte status req =
     (let req_len = min (length req) kCmdPayloadMax
      in [of_nat (kRecordHeaderLen + 3 + req_len), REC_CMD] @ put32 0 @ put32 t
         @ [cmd_byte, status, of_nat req_len] @ take req_len req)"

definition cmd :: "u32 \<Rightarrow> u32 \<Rightarrow> byte \<Rightarrow> byte \<Rightarrow> byte list \<Rightarrow> tel \<Rightarrow> tel" where
  "cmd now t_rx_us cmd_byte status req s =
     (if \<not> enabled s then s else append_rec now (cmd_record t_rx_us cmd_byte status req) s)"

definition frame_record :: "u32 \<Rightarrow> u16 \<Rightarrow> u16 \<Rightarrow> u32 \<Rightarrow> u32 \<Rightarrow> u32 \<Rightarrow> byte \<Rightarrow> byte \<Rightarrow> byte list" where
  "frame_record t_us idx pattern sd_load_us spi_us req_age_us superseded flags =
     [of_nat kFrameRecordLen, REC_FRAME] @ put32 0 @ put32 t_us @ put16 idx @ put16 pattern
     @ put32 sd_load_us @ put16 (if 0xFFFF < spi_us then 0xFFFF else ucast spi_us)
     @ put32 req_age_us @ [superseded, flags]"

definition frame :: "u32 \<Rightarrow> u32 \<Rightarrow> u16 \<Rightarrow> u16 \<Rightarrow> u32 \<Rightarrow> u32 \<Rightarrow> u32 \<Rightarrow> byte \<Rightarrow> byte \<Rightarrow> tel \<Rightarrow> tel" where
  "frame now t_us idx pattern sd_load_us spi_us req_age_us superseded flags s =
     (if \<not> enabled s then s
      else append_rec now (frame_record t_us idx pattern sd_load_us spi_us req_age_us superseded flags) s)"

section \<open>Drain\<close>

definition ack :: "u32 \<Rightarrow> u32 \<Rightarrow> tel \<Rightarrow> tel" where
  "ack now ack_seq s =
     (if \<not> ring_ok s \<or> ack_seq = 0xFFFFFFFF then s
      else if heapTooClose s then tripHeapGuard now s
      else if next_seq (hdr s) \<le> ack_seq then s
      else
        (let w = write_off (hdr s); m = ring_data s;
             (off, moved) = while (\<lambda>(off, moved). off \<noteq> w \<and> wellFormedAt m off w
                                     \<and> \<not> (\<not> isPadAt m off \<and> ack_seq < seqAt m off))
               (\<lambda>(off, moved). (wrap_off (off + unat (m off)), True)) (read_off (hdr s), False)
         in if moved then sealHeader (set_read_off off s) else s))"

record block_info =
  first_seq :: u32
  n_records :: nat
  more_unread :: bool

text \<open>
  \<open>peek\<close> returns the bytes copied to \<open>dst\<close> (\<open>n\<close> is their count) and the block info; only
  the heap guard can change the state.
\<close>

definition peek :: "u32 \<Rightarrow> nat \<Rightarrow> tel \<Rightarrow> tel \<times> byte list \<times> block_info" where
  "peek now max_bytes s =
     (if \<not> ring_ok s then (s, [], \<lparr>first_seq = 0, n_records = 0, more_unread = False\<rparr>)
      else if heapTooClose s then (tripHeapGuard now s, [], \<lparr>first_seq = 0, n_records = 0, more_unread = False\<rparr>)
      else
        (let w = write_off (hdr s); m = ring_data s;
             (off, dst, info) = while
               (\<lambda>(off, dst, info). off \<noteq> w \<and> wellFormedAt m off w
                  \<and> \<not> (\<not> isPadAt m off \<and> max_bytes < length dst + unat (m off)))
               (\<lambda>(off, dst, info).
                  let len = unat (m off) in
                  if \<not> isPadAt m off then
                    (wrap_off (off + len), dst @ load m off len,
                     (let info = (if n_records info = 0 then info\<lparr>first_seq := seqAt m off\<rparr> else info)
                      in info\<lparr>n_records := n_records info + 1\<rparr>))
                  else (wrap_off (off + len), dst, info))
               (read_off (hdr s), [], \<lparr>first_seq = 0, n_records = 0, more_unread = False\<rparr>)
         in (s, dst, info\<lparr>more_unread := (off \<noteq> w)\<rparr>)))"

definition blockFlags :: "tel \<Rightarrow> byte" where
  "blockFlags s =
     (if enabled s then kBlockFlagEvents else 0)
     OR (if ring_ok s \<and> boot_count (hdr s) \<noteq> 0 then kBlockFlagSurvivedBoot else 0)
     OR (if heap_collision s then kBlockFlagHeapCollision else 0)
     OR (if synth_on s then kBlockFlagSynthetic else 0)"

definition dropped_view :: "tel \<Rightarrow> u32" where
  "dropped_view s = (if ring_ok s then dropped (hdr s) else 0)"

definition bootCount :: "tel \<Rightarrow> u32" where
  "bootCount s = (if ring_ok s then boot_count (hdr s) else 0)"

definition nextSeq :: "tel \<Rightarrow> u32" where
  "nextSeq s = (if ring_ok s then next_seq (hdr s) else 0)"

definition pendingBytes :: "tel \<Rightarrow> nat" where
  "pendingBytes s = (if ring_ok s then usedBytes s else 0)"

end
