(* ===== verification/TelemetryRing.thy ===== *)
theory TelemetryRing
  imports Telemetry
begin

text \<open>
  Correctness of the telemetry ring. The abstraction of a ring is the list of its chunks,
  the byte strings between the read and the write cursor (\<open>chain\<close>); the records are the
  chunks that are not PADs. Appending is "evict the oldest, then snoc", \<open>ack\<close> drops a
  prefix, \<open>peek\<close> returns the longest prefix that fits, and boot recovers the whole chain.
\<close>

section \<open>Distances on the ring\<close>

text \<open>Bytes from one cursor to another, going forward; \<open>usedBytes\<close> of the code.\<close>

definition dist :: "nat \<Rightarrow> nat \<Rightarrow> nat" where
  "dist r w = (if r \<le> w then w - r else kDataSize - r + w)"

lemma usedBytes_dist: "usedBytes s = dist (read_off (hdr s)) (write_off (hdr s))"
  by (simp add: usedBytes_def dist_def Let_def)

lemma freeBytes_dist: "freeBytes s = 65503 - dist (read_off (hdr s)) (write_off (hdr s))"
  by (simp add: freeBytes_def usedBytes_dist)

lemma dist_self [simp]: "dist r r = 0"
  by (simp add: dist_def)

lemma dist_eq_0: "r < 65504 \<Longrightarrow> dist r w = 0 \<longleftrightarrow> r = w"
  by (auto simp: dist_def)

lemma dist_less: "r < 65504 \<Longrightarrow> w < 65504 \<Longrightarrow> dist r w < 65504"
  by (auto simp: dist_def)

lemma wrap_off_less [simp]: "e \<le> 65504 \<Longrightarrow> wrap_off e < 65504"
  by (simp add: wrap_off_def)

lemma dist_step:
  assumes "r < 65504" "w < 65504" "n \<le> dist r w" "r + n \<le> 65504"
  shows "dist (wrap_off (r + n)) w = dist r w - n"
  using assms by (auto simp: dist_def wrap_off_def split: if_splits)

lemma dist_extend:
  assumes "r < 65504" "w < 65504" "dist r w + n < 65504" "w + n \<le> 65504"
  shows "dist r (wrap_off (w + n)) = dist r w + n"
  using assms by (auto simp: dist_def wrap_off_def split: if_splits)

section \<open>Chunks\<close>

definition is_pad :: "byte list \<Rightarrow> bool" where
  "is_pad c \<longleftrightarrow> length c < 10 \<or> c ! 1 = REC_PAD"

text \<open>The shape \<open>wellFormedAt\<close> demands of the bytes of a chunk.\<close>

definition wf_chunk :: "byte list \<Rightarrow> bool" where
  "wf_chunk c \<longleftrightarrow> c \<noteq> [] \<and> unat (c ! 0) = length c \<and>
     (if length c < 10 then length c = 1 \<or> c ! 1 = REC_PAD
      else c ! 1 = REC_PAD
        \<or> c ! 1 = REC_CMD \<and> 13 \<le> length c \<and> length c \<le> 21 \<and> c ! 12 = of_nat (length c - 13)
        \<or> c ! 1 = REC_FRAME \<and> length c = 26
        \<or> c ! 1 = REC_STATE \<and> length c = 14)"

definition seq_of :: "byte list \<Rightarrow> u32" where
  "seq_of c = get32 (c ! 2) (c ! 3) (c ! 4) (c ! 5)"

text \<open>The chunks \<open>cs\<close> tile the ring exactly from cursor \<open>r\<close> to cursor \<open>w\<close>.\<close>

fun chain :: "mem \<Rightarrow> nat \<Rightarrow> nat \<Rightarrow> byte list list \<Rightarrow> bool" where
  "chain m r w [] \<longleftrightarrow> r = w"
| "chain m r w (c # cs) \<longleftrightarrow>
     wf_chunk c \<and> length c \<le> dist r w \<and> r + length c \<le> kDataSize \<and> load m r (length c) = c
     \<and> chain m (wrap_off (r + length c)) w cs"

definition tot :: "byte list list \<Rightarrow> nat" where
  "tot cs = sum_list (map length cs)"

lemma tot_simps [simp]:
  "tot [] = 0" "tot (c # cs) = length c + tot cs" "tot (cs @ ds) = tot cs + tot ds"
  by (simp_all add: tot_def)

lemma chain_total:
  "chain m r w cs \<Longrightarrow> r < 65504 \<Longrightarrow> w < 65504 \<Longrightarrow> tot cs = dist r w"
proof (induction cs arbitrary: r)
  case (Cons c cs)
  then have "tot cs = dist (wrap_off (r + length c)) w" by simp
  with Cons.prems show ?case by (simp add: dist_step)
qed simp

lemma chunk_nonempty: "wf_chunk c \<Longrightarrow> 0 < length c"
  by (auto simp: wf_chunk_def)

lemma chain_neq: "chain m r w (c # cs) \<Longrightarrow> r \<noteq> w"
  by (auto simp: wf_chunk_def)

text \<open>What the code reads through its offsets, in terms of the chunk at the cursor.\<close>

lemma nth_of_load: "load m r (length c) = c \<Longrightarrow> i < length c \<Longrightarrow> m (r + i) = c ! i"
  by (metis nth_load)

lemma chunk_len:
  assumes "chain m r w (c # cs)"
  shows "unat (m r) = length c"
  using assms nth_of_load [of m r c 0] by (auto simp: wf_chunk_def)

lemma chunk_bytes:
  assumes "chain m r w (c # cs)"
  shows "1 < length c \<longrightarrow> m (Suc r) = c ! 1" "5 < length c \<longrightarrow> m (r + 2) = c ! 2 \<and> m (r + 3) = c ! 3 \<and> m (r + 4) = c ! 4 \<and> m (r + 5) = c ! 5"
    "12 < length c \<longrightarrow> m (r + 12) = c ! 12"
proof -
  have ld: "load m r (length c) = c" using assms by simp
  show "1 < length c \<longrightarrow> m (Suc r) = c ! 1" using nth_of_load [OF ld, of 1] by simp
  show "5 < length c \<longrightarrow> m (r + 2) = c ! 2 \<and> m (r + 3) = c ! 3 \<and> m (r + 4) = c ! 4 \<and> m (r + 5) = c ! 5"
    by (intro impI conjI nth_of_load [OF ld]) simp_all
  show "12 < length c \<longrightarrow> m (r + 12) = c ! 12" by (intro impI nth_of_load [OF ld])
qed

lemma chunk_pad:
  assumes "chain m r w (c # cs)"
  shows "isPadAt m r \<longleftrightarrow> is_pad c"
  using chunk_len [OF assms] chunk_bytes(1) [OF assms]
  by (cases "length c < 10") (simp_all add: isPadAt_def is_pad_def tel_lens)

lemma chunk_seq:
  assumes "chain m r w (c # cs)" "\<not> is_pad c"
  shows "seqAt m r = seq_of c"
  using assms(2) chunk_bytes(2) [OF assms(1)] unfolding seqAt_def seq_of_def is_pad_def by simp

lemma wellFormedAt_alt:
  "wellFormedAt m r w \<longleftrightarrow> unat (m r) \<noteq> 0 \<and> r + unat (m r) \<le> 65504 \<and> \<not> (r < w \<and> w < r + unat (m r)) \<and>
     (if unat (m r) < 10 then unat (m r) = 1 \<or> m (Suc r) = REC_PAD
      else m (Suc r) = REC_PAD
        \<or> m (Suc r) = REC_CMD \<and> 13 \<le> unat (m r) \<and> unat (m r) \<le> 21 \<and> m (r + 12) = of_nat (unat (m r) - 13)
        \<or> m (Suc r) = REC_FRAME \<and> unat (m r) = 26
        \<or> m (Suc r) = REC_STATE \<and> unat (m r) = 14)"
  unfolding wellFormedAt_def Let_def by (auto simp: tel_lens tel_types)

lemma chunk_wellFormed:
  assumes "chain m r w (c # cs)"
  shows "wellFormedAt m r w"
proof -
  from assms have wf: "wf_chunk c" and le: "length c \<le> dist r w"
    and fit: "r + length c \<le> 65504" by auto
  have ns: "\<not> (r < w \<and> w < r + length c)" using le by (auto simp: dist_def)
  show ?thesis
  proof (cases "length c < 10")
    case True
    then show ?thesis
      using wf chunk_bytes(1) [OF assms] chunk_nonempty [OF wf] fit ns
      by (cases "length c = 1") (simp_all add: wellFormedAt_alt wf_chunk_def chunk_len [OF assms])
  next
    case False
    then have t: "m (Suc r) = c ! 1" using chunk_bytes(1) [OF assms] by simp
    from False show ?thesis
      using wf chunk_bytes(3) [OF assms] fit ns unfolding wellFormedAt_alt t chunk_len [OF assms]
      by (auto simp: wf_chunk_def)
  qed
qed

text \<open>Conversely a well-formed offset starts a chunk; this is what the boot walk relies on.\<close>

lemma wellFormed_chunk:
  assumes wf: "wellFormedAt m r w" and neq: "r \<noteq> w" and rw: "r < 65504" "w < 65504"
  defines "c \<equiv> load m r (unat (m r))"
  shows "wf_chunk c \<and> length c = unat (m r) \<and> length c \<le> dist r w \<and> r + length c \<le> kDataSize
       \<and> load m r (length c) = c"
proof -
  have len: "length c = unat (m r)" by (simp add: c_def)
  from wf have pos: "unat (m r) \<noteq> 0" and fit: "r + unat (m r) \<le> 65504"
    and nos: "\<not> (r < w \<and> w < r + unat (m r))"
    unfolding wellFormedAt_alt by blast+
  have at: "i < length c \<Longrightarrow> c ! i = m (r + i)" for i by (simp add: c_def)
  have "wf_chunk c"
  proof (cases "unat (m r) < 10")
    case True
    with wf pos at [of 0] at [of 1] len show ?thesis
      by (cases "unat (m r) = 1") (auto simp: wellFormedAt_alt wf_chunk_def simp flip: length_greater_0_conv)
  next
    case False
    then have b: "c ! 0 = m r" "c ! 1 = m (Suc r)" "12 < length c \<longrightarrow> c ! 12 = m (r + 12)"
      using at [of 0] at [of 1] at [of 12] len by simp_all
    from False wf pos len b show ?thesis
      by (auto simp: wellFormedAt_alt wf_chunk_def simp flip: length_greater_0_conv)
  qed
  moreover have "unat (m r) \<le> dist r w" using nos fit neq rw by (auto simp: dist_def)
  ultimately show ?thesis using fit len by (simp add: c_def)
qed

section \<open>Locality\<close>

lemma load_eqD: "load m r n = load m' r n \<Longrightarrow> i < n \<Longrightarrow> m (r + i) = m' (r + i)"
  by (metis nth_load)

text \<open>A byte of the ring is live if it lies between the read and the write cursor.\<close>

definition live :: "nat \<Rightarrow> nat \<Rightarrow> nat \<Rightarrow> bool" where
  "live r w i \<longleftrightarrow> (if r \<le> w then r \<le> i \<and> i < w else r \<le> i \<and> i < kDataSize \<or> i < w)"

lemma live_chunk:
  "n \<le> dist r w \<Longrightarrow> r + n \<le> 65504 \<Longrightarrow> r \<le> i \<Longrightarrow> i < r + n \<Longrightarrow> live r w i"
  by (auto simp: live_def dist_def split: if_splits)

lemma live_rest:
  assumes "n \<le> dist r w" "r + n \<le> 65504" "r < 65504" "w < 65504" "live (wrap_off (r + n)) w i"
  shows "live r w i"
  using assms by (auto simp: live_def dist_def wrap_off_def split: if_splits)

lemma chain_cong:
  assumes "chain m r w cs" "\<And>i. live r w i \<Longrightarrow> m' i = m i" "r < 65504" "w < 65504"
  shows "chain m' r w cs"
  using assms
proof (induction cs arbitrary: r)
  case (Cons c cs)
  have "load m' r (length c) = load m r (length c)"
    by (rule load_cong) (use Cons.prems live_chunk in \<open>auto\<close>)
  moreover have "chain m' (wrap_off (r + length c)) w cs"
  proof (rule Cons.IH)
    show "chain m (wrap_off (r + length c)) w cs" using Cons.prems by simp
    show "m' i = m i" if "live (wrap_off (r + length c)) w i" for i
    proof (rule Cons.prems(2))
      show "live r w i"
        by (rule live_rest [OF _ _ _ _ that]) (use Cons.prems in auto)
    qed
  qed (use Cons.prems in auto)
  ultimately show ?case using Cons.prems by simp
qed simp

text \<open>The free bytes after the write cursor are not live, across the wrap or not.\<close>

lemma not_live_after:
  assumes "r < 65504" "w < 65504" "dist r w + n < 65504" "w \<le> i" "i < w + n" "w + n \<le> 65504"
  shows "\<not> live r w i"
  using assms by (auto simp: live_def dist_def split: if_splits)

lemma chain_snoc:
  assumes "chain m r w cs" "wf_chunk c" "dist r w + length c < 65504" "w + length c \<le> 65504"
    "r < 65504" "w < 65504" "load m w (length c) = c"
  shows "chain m r (wrap_off (w + length c)) (cs @ [c])"
  using assms
proof (induction cs arbitrary: r)
  case Nil
  then have "dist w (wrap_off (w + length c)) = length c"
    using dist_extend [of w w "length c"] by simp
  with Nil show ?case by simp
next
  case (Cons d cs)
  let ?r = "wrap_off (r + length d)"
  have d: "dist ?r w = dist r w - length d" using Cons.prems by (intro dist_step) auto
  have "chain m ?r (wrap_off (w + length c)) (cs @ [c])"
    by (rule Cons.IH) (use Cons.prems d in auto)
  moreover have "length d \<le> dist r (wrap_off (w + length c))"
    using Cons.prems dist_extend [of r w "length c"] by auto
  ultimately show ?case using Cons.prems by simp
qed

lemma chain_drop:
  assumes "chain m r w (cs @ ds)" "r < 65504"
  shows "\<exists>r'. r' < 65504 \<and> chain m r' w ds"
  using assms by (induction cs arbitrary: r) auto

section \<open>Records and the abstraction\<close>

definition records :: "byte list list \<Rightarrow> byte list list" where
  "records cs = filter (\<lambda>c. \<not> is_pad c) cs"

lemma records_simps [simp]:
  "records [] = []" "records (c # cs) = (if is_pad c then records cs else c # records cs)"
  "records (cs @ ds) = records cs @ records ds"
  by (simp_all add: records_def)

lemma records_dropWhile:
  "records (dropWhile (\<lambda>c. is_pad c \<or> P c) cs) = dropWhile P (records cs)"
  by (induction cs) (auto simp: records_def)

lemma records_drop: "records (drop k cs) = drop (length (records (take k cs))) (records cs)"
proof -
  have "records cs = records (take k cs) @ records (drop k cs)"
    by (metis append_take_drop_id records_simps(3))
  then show ?thesis by simp
qed

text \<open>The ring's cursors are in range and its live bytes are the chunks \<open>cs\<close>.\<close>

definition holds :: "tel \<Rightarrow> byte list list \<Rightarrow> bool" where
  "holds s cs \<longleftrightarrow> read_off (hdr s) < kDataSize \<and> write_off (hdr s) < kDataSize
     \<and> chain (ring_data s) (read_off (hdr s)) (write_off (hdr s)) cs"

lemma holds_total: "holds s cs \<Longrightarrow> tot cs = usedBytes s"
  by (auto simp: holds_def usedBytes_dist chain_total)

lemma holds_free: "holds s cs \<Longrightarrow> freeBytes s = 65503 - tot cs"
  by (auto simp: holds_def freeBytes_dist chain_total)

lemma holds_total_less: "holds s cs \<Longrightarrow> tot cs < 65504"
  by (auto simp: holds_def chain_total dist_less)

lemma holds_seal [simp]: "holds (sealHeader s) cs = holds s cs"
  by (simp add: holds_def sealHeader_def)

lemma wf_bytes_determine:
  assumes "wf_chunk c" "wf_chunk d" "load m r (length c) = c" "load m r (length d) = d"
  shows "c = d"
proof -
  have "m r = c ! 0" "m r = d ! 0"
    using nth_of_load [OF assms(3), of 0] nth_of_load [OF assms(4), of 0]
      chunk_nonempty [OF assms(1)] chunk_nonempty [OF assms(2)] by simp_all
  then have "length c = length d" using assms(1,2) by (metis wf_chunk_def)
  with assms show ?thesis by metis
qed

text \<open>The chunks of a ring are unique, so "the" records of a state make sense.\<close>

lemma chain_unique: "chain m r w cs \<Longrightarrow> chain m r w ds \<Longrightarrow> cs = ds"
proof (induction cs arbitrary: r ds)
  case Nil
  then show ?case by (cases ds) (auto simp: wf_chunk_def)
next
  case (Cons c cs)
  from Cons.prems have "r \<noteq> w" using chain_neq by blast
  with Cons.prems(2) obtain d ds' where ds: "ds = d # ds'" by (cases ds) auto
  have "c = d" using Cons.prems ds wf_bytes_determine by (metis chain.simps(2))
  with Cons ds show ?case by auto
qed

section \<open>Making room\<close>

lemma makeRoom_loop:
  assumes "holds s cs" "need \<le> 65503"
  shows "\<exists>k r' stop. while (\<lambda>(s, _, stop). \<not> stop \<and> freeBytes s < need) makeRoom_body (s, e, False)
       = (set_read_off r' s, e + length (records (take k cs)), stop)
     \<and> k \<le> length cs \<and> holds (set_read_off r' s) (drop k cs) \<and> need \<le> freeBytes (set_read_off r' s)
     \<and> (\<forall>j<k. 65503 - tot (drop j cs) < need)"
  using assms(1)
proof (induction cs arbitrary: s e)
  case Nil
  then have "need \<le> freeBytes s" using assms(2) by (simp add: holds_free)
  with Nil show ?case
    by (intro exI [of _ 0] exI [of _ "read_off (hdr s)"] exI [of _ False]) (simp add: while_unfold)
next
  case (Cons c cs)
  show ?case
  proof (cases "need \<le> freeBytes s")
    case True
    with Cons.prems show ?thesis
      by (intro exI [of _ 0] exI [of _ "read_off (hdr s)"] exI [of _ False]) (simp add: while_unfold)
  next
    case False
    let ?r = "read_off (hdr s)" and ?w = "write_off (hdr s)" and ?m = "ring_data s"
    let ?s = "set_read_off (wrap_off (?r + length c)) s" and ?e = "if is_pad c then e else e + 1"
    have ch: "chain ?m ?r ?w (c # cs)" using Cons.prems by (simp add: holds_def)
    note len = chunk_len [OF ch] and pad = chunk_pad [OF ch] and neq = chain_neq [OF ch]
    have fit: "?r + length c \<le> 65504" "c \<noteq> []" using ch by (auto simp: wf_chunk_def)
    have step: "makeRoom_body (s, e, False) = (?s, ?e, False)"
      using neq fit by (simp add: makeRoom_body_def Let_def len pad)
    have h: "holds ?s cs" using Cons.prems by (simp add: holds_def)
    from Cons.IH [OF h, of ?e] obtain k r' stop where IH:
      "while (\<lambda>(s, _, stop). \<not> stop \<and> freeBytes s < need) makeRoom_body (?s, ?e, False)
         = (set_read_off r' ?s, ?e + length (records (take k cs)), stop)"
      "k \<le> length cs" "holds (set_read_off r' ?s) (drop k cs)" "need \<le> freeBytes (set_read_off r' ?s)"
      "\<forall>j<k. 65503 - tot (drop j cs) < need" by blast
    have first: "65503 - tot (c # cs) < need"
      using False holds_free [OF Cons.prems] by simp
    have "while (\<lambda>(s, _, stop). \<not> stop \<and> freeBytes s < need) makeRoom_body (s, e, False)
       = (set_read_off r' s, e + length (records (take (Suc k) (c # cs))), stop)"
      using IH(1) False step by (subst while_unfold) simp
    moreover have "\<forall>j<Suc k. 65503 - tot (drop j (c # cs)) < need"
      using IH(5) first by (simp add: All_less_Suc2)
    ultimately show ?thesis
      using IH by (intro exI [of _ "Suc k"] exI [of _ r'] exI [of _ stop]) simp
  qed
qed

lemma makeRoom_spec:
  assumes "holds s cs" "need \<le> 65503"
  shows "\<exists>k r'. makeRoom need s = (set_read_off r' s, length (records (take k cs)))
     \<and> k \<le> length cs \<and> holds (set_read_off r' s) (drop k cs) \<and> need \<le> freeBytes (set_read_off r' s)
     \<and> (\<forall>j<k. 65503 - tot (drop j cs) < need)"
proof -
  from makeRoom_loop [OF assms, of 0] obtain k r' stop where
    "while (\<lambda>(s, _, stop). \<not> stop \<and> freeBytes s < need) makeRoom_body (s, 0, False)
       = (set_read_off r' s, length (records (take k cs)), stop)"
    and rest: "k \<le> length cs \<and> holds (set_read_off r' s) (drop k cs) \<and> need \<le> freeBytes (set_read_off r' s)
     \<and> (\<forall>j<k. 65503 - tot (drop j cs) < need)" by auto
  then have "makeRoom need s = (set_read_off r' s, length (records (take k cs)))"
    by (simp add: makeRoom_def)
  with rest show ?thesis by blast
qed

section \<open>Appending a record\<close>

text \<open>What every producer hands to \<open>appendRaw\<close>.\<close>

definition rec_ok :: "byte list \<Rightarrow> bool" where
  "rec_ok rec \<longleftrightarrow> wf_chunk rec \<and> \<not> is_pad rec \<and> 10 \<le> length rec \<and> length rec \<le> 26"

definition stamped :: "u32 \<Rightarrow> byte list \<Rightarrow> byte list" where
  "stamped n rec = blit rec 2 (put32 (stamp_seq n))"

lemma length_stamped [simp]: "rec_ok rec \<Longrightarrow> length (stamped n rec) = length rec"
  by (simp add: stamped_def rec_ok_def)

lemma nth_stamped:
  "rec_ok rec \<Longrightarrow> i < length rec \<Longrightarrow>
    stamped n rec ! i = (if 2 \<le> i \<and> i < 6 then put32 (stamp_seq n) ! (i - 2) else rec ! i)"
  by (auto simp: stamped_def nth_blit rec_ok_def)

lemma wf_chunk_cong:
  assumes "wf_chunk c" "length d = length c" "d ! 0 = c ! 0" "1 < length c \<longrightarrow> d ! 1 = c ! 1"
    "12 < length c \<longrightarrow> d ! 12 = c ! 12"
  shows "wf_chunk d"
proof (cases "length c = 1")
  case False
  then have "1 < length c" using assms(1) chunk_nonempty [of c] by linarith
  with assms show ?thesis by (auto simp: wf_chunk_def split: if_splits)
qed (use assms in \<open>auto simp: wf_chunk_def\<close>)

lemma stamped_ok:
  assumes "rec_ok rec"
  shows "rec_ok (stamped n rec)"
proof -
  have "10 \<le> length rec" using assms by (simp add: rec_ok_def)
  then have b: "stamped n rec ! 0 = rec ! 0" "stamped n rec ! 1 = rec ! 1"
    "12 < length rec \<longrightarrow> stamped n rec ! 12 = rec ! 12"
    using nth_stamped [OF assms, of 0 n] nth_stamped [OF assms, of 1 n] nth_stamped [OF assms, of 12 n]
    by fastforce+
  have "wf_chunk (stamped n rec)"
    by (rule wf_chunk_cong [of rec]) (use assms b in \<open>auto simp: rec_ok_def\<close>)
  then show ?thesis using assms b by (simp add: rec_ok_def is_pad_def)
qed

lemma seq_of_stamped: "rec_ok rec \<Longrightarrow> seq_of (stamped n rec) = stamp_seq n"
  by (simp add: seq_of_def nth_stamped) (simp add: rec_ok_def nth_stamped)

definition need_for :: "nat \<Rightarrow> nat \<Rightarrow> nat" where
  "need_for w len = (if kDataSize - w < len then kDataSize - w + len else len)"

lemma evict_spec:
  assumes "holds s cs" "len \<le> 26"
  shows "\<exists>k s1. appendRaw_evict len s = (s1, length (records (take k cs)))
     \<and> k \<le> length cs \<and> holds s1 (drop k cs) \<and> need_for (write_off (hdr s)) len \<le> freeBytes s1
     \<and> (\<forall>j<k. 65503 - tot (drop j cs) < need_for (write_off (hdr s)) len)
     \<and> ring_data s1 = ring_data s
     \<and> (\<exists>r ck. s1 = s\<lparr>hdr := (hdr s)\<lparr>read_off := r, checksum := ck,
           dropped := dropped (hdr s) + of_nat (length (records (take k cs)))\<rparr>\<rparr>)
     \<and> (length (records (take k cs)) \<noteq> 0 \<longrightarrow> checksum (hdr s1) = computeCheck (hdr s1))
     \<and> (length (records (take k cs)) = 0 \<longrightarrow> checksum (hdr s1) = checksum (hdr s))"
proof -
  let ?need = "need_for (write_off (hdr s)) len"
  have "?need \<le> 65503" using assms by (auto simp: need_for_def)
  from makeRoom_spec [OF assms(1) this] obtain k r' where
    mr: "makeRoom ?need s = (set_read_off r' s, length (records (take k cs)))"
    and k: "k \<le> length cs" and h: "holds (set_read_off r' s) (drop k cs)"
    and fr: "?need \<le> freeBytes (set_read_off r' s)"
    and mn: "\<forall>j<k. 65503 - tot (drop j cs) < ?need" by blast
  let ?e = "length (records (take k cs))"
  let ?s1 = "if ?e \<noteq> 0 then sealHeader ((set_read_off r' s)\<lparr>hdr := (hdr (set_read_off r' s))\<lparr>
      dropped := dropped (hdr s) + of_nat ?e\<rparr>\<rparr>) else set_read_off r' s"
  have ev: "appendRaw_evict len s = (?s1, ?e)"
    unfolding appendRaw_evict_def Let_def need_for_def [symmetric] mr by simp
  have "holds ?s1 (drop k cs)" using h by (simp add: holds_def sealHeader_def)
  moreover have "?need \<le> freeBytes ?s1"
    using fr by (simp add: freeBytes_def usedBytes_def sealHeader_def)
  moreover have "\<exists>r ck. ?s1 = s\<lparr>hdr := (hdr s)\<lparr>read_off := r, checksum := ck,
           dropped := dropped (hdr s) + of_nat ?e\<rparr>\<rparr>"
  proof (cases "?e = 0")
    case True
    then show ?thesis by (intro exI [of _ r'] exI [of _ "checksum (hdr s)"]) simp
  next
    case False
    then show ?thesis
      by (intro exI [of _ r'] exI [of _ "computeCheck ((hdr s)\<lparr>read_off := r',
             dropped := dropped (hdr s) + of_nat ?e\<rparr>)"]) (simp add: sealHeader_def)
  qed
  moreover have "ring_data ?s1 = ring_data s" "?e \<noteq> 0 \<longrightarrow> checksum (hdr ?s1) = computeCheck (hdr ?s1)"
    "?e = 0 \<longrightarrow> checksum (hdr ?s1) = checksum (hdr s)"
    by (simp_all add: sealHeader_def computeCheck_def)
  ultimately show ?thesis using ev k mn by blast
qed

lemma holds_free_bound:
  assumes "holds s cs"
  shows "dist (read_off (hdr s)) (write_off (hdr s)) + freeBytes s = 65503"
  using assms by (auto simp: holds_def freeBytes_dist dest: dist_less)

text \<open>Writing into the free bytes behind the write cursor, then publishing.\<close>

lemma store_not_live:
  assumes "holds s cs" "length c \<le> freeBytes s" "write_off (hdr s) + length c \<le> 65504"
  shows "chain (store (ring_data s) (write_off (hdr s)) c) (read_off (hdr s)) (write_off (hdr s)) cs"
proof (rule chain_cong [of "ring_data s"])
  fix i
  assume live: "live (read_off (hdr s)) (write_off (hdr s)) i"
  have "\<not> (write_off (hdr s) \<le> i \<and> i < write_off (hdr s) + length c)"
  proof
    assume "write_off (hdr s) \<le> i \<and> i < write_off (hdr s) + length c"
    with assms holds_free_bound [OF assms(1)] live show False
      using not_live_after [of "read_off (hdr s)" "write_off (hdr s)" "length c" i]
      by (simp add: holds_def)
  qed
  then show "store (ring_data s) (write_off (hdr s)) c i = ring_data s i"
    by (auto simp: store_def)
qed (use assms in \<open>auto simp: holds_def\<close>)

lemma push_chunk:
  assumes "holds s cs" "wf_chunk c" "length c \<le> freeBytes s" "write_off (hdr s) + length c \<le> 65504"
    "ring_data s' = store (ring_data s) (write_off (hdr s)) c"
    "read_off (hdr s') = read_off (hdr s)"
    "write_off (hdr s') = wrap_off (write_off (hdr s) + length c)"
  shows "holds s' (cs @ [c])"
proof -
  have "chain (ring_data s') (read_off (hdr s)) (wrap_off (write_off (hdr s) + length c)) (cs @ [c])"
    unfolding assms(5)
    by (rule chain_snoc [OF store_not_live [OF assms(1,3,4)] assms(2)])
      (use assms holds_free_bound [OF assms(1)] in \<open>auto simp: holds_def\<close>)
  then show ?thesis using assms by (simp add: holds_def)
qed

lemma pad_chunk:
  fixes m :: mem and w :: nat
  assumes "w < 65504" "65504 - w < 26"
  defines "c \<equiv> load ((if 2 \<le> 65504 - w then m(w := of_nat (65504 - w), w + 1 := REC_PAD)
                    else m(w := of_nat (65504 - w)))) w (65504 - w)"
  shows "wf_chunk c \<and> is_pad c \<and> length c = 65504 - w"
proof -
  have len: "length c = 65504 - w" by (simp add: c_def)
  have u: "unat (of_nat (65504 - w) :: byte) = 65504 - w"
    using assms(2) by (simp add: unat_of_nat take_bit_eq_mod)
  have c0: "c ! 0 = of_nat (65504 - w)" using assms(1) by (simp add: c_def)
  show ?thesis
  proof (cases "65504 - w = 1")
    case True
    then show ?thesis using len u c0 by (auto simp: wf_chunk_def is_pad_def simp flip: length_greater_0_conv)
  next
    case False
    then have "2 \<le> 65504 - w" using assms(1) by linarith
    moreover from this have "c ! 1 = REC_PAD" by (simp add: c_def)
    ultimately show ?thesis using len u c0
      by (auto simp: wf_chunk_def is_pad_def simp flip: length_greater_0_conv)
  qed
qed

text \<open>
  The byte-writing phases: the live chunks stay, an optional PAD and the stamped record are
  in place behind them, invisible until the header is published.
\<close>

lemma appendRaw_spec:
  assumes h: "holds s cs" and ok: "rec_ok rec"
  shows "\<exists>k pads s'. appendRaw rec s = (s', length (records (take k cs)))
     \<and> k \<le> length cs \<and> holds s' (drop k cs @ pads @ [stamped (next_seq (hdr s)) rec])
     \<and> records pads = []
     \<and> (\<forall>j<k. 65503 - tot (drop j cs) < need_for (write_off (hdr s)) (length rec))
     \<and> checksum (hdr s') = computeCheck (hdr s')
     \<and> dropped (hdr s') = dropped (hdr s) + of_nat (length (records (take k cs)))
     \<and> next_seq (hdr s') = stamp_seq (next_seq (hdr s)) + 1
     \<and> (\<exists>h' m'. s' = s\<lparr>hdr := h', ring_data := m'\<rparr>) \<and> magic (hdr s') = magic (hdr s)
     \<and> ver (hdr s') = ver (hdr s) \<and> hflags (hdr s') = hflags (hdr s)
     \<and> boot_count (hdr s') = boot_count (hdr s)"
proof -
  let ?n = "next_seq (hdr s)" and ?len = "length rec" and ?w = "write_off (hdr s)"
  have len: "10 \<le> ?len" "?len \<le> 26" using ok by (auto simp: rec_ok_def)
  from evict_spec [OF h len(2)] obtain k s1 r ck where
    ev: "appendRaw_evict ?len s = (s1, length (records (take k cs)))"
    and k: "k \<le> length cs" and h1: "holds s1 (drop k cs)" and fr: "need_for ?w ?len \<le> freeBytes s1"
    and mn: "\<forall>j<k. 65503 - tot (drop j cs) < need_for ?w ?len"
    and d1: "ring_data s1 = ring_data s"
    and s1: "s1 = s\<lparr>hdr := (hdr s)\<lparr>read_off := r, checksum := ck,
           dropped := dropped (hdr s) + of_nat (length (records (take k cs)))\<rparr>\<rparr>" by blast
  obtain s2 w2 where pad: "appendRaw_pad ?len s1 = (s2, w2)" by fastforce
  have w1: "write_off (hdr s1) = ?w" "next_seq (hdr s1) = ?n" by (simp_all add: s1)
  have wl: "?w < 65504" using h by (simp add: holds_def)
  let ?s3 = "appendRaw_record w2 rec s2" and ?s4 = "appendRaw_publish w2 ?len (appendRaw_record w2 rec s2)"
  have run: "appendRaw rec s = (?s4, length (records (take k cs)))"
    by (simp add: appendRaw_def ev pad)
  have st: "wf_chunk (stamped ?n rec)" "length (stamped ?n rec) = ?len"
    using stamped_ok [OF ok, of ?n] ok by (simp_all add: rec_ok_def [of "stamped ?n rec"])
  have "\<exists>pads. records pads = [] \<and> holds ?s4 (drop k cs @ pads @ [stamped ?n rec])
      \<and> (\<exists>m. s2 = s1\<lparr>ring_data := m\<rparr>)"
  proof (cases "65504 - ?w < ?len")
    case False
    then have s2: "s2 = s1" "w2 = ?w" using pad by (simp_all add: appendRaw_pad_def w1 Let_def)
    have "holds ?s4 (drop k cs @ [stamped ?n rec])"
      by (rule push_chunk [OF h1 st(1)])
        (use False fr wl st in \<open>simp_all add: s2 w1 need_for_def appendRaw_publish_def sealHeader_def
            appendRaw_record_def stamped_def\<close>)
    then show ?thesis using s2
      by (intro exI [of _ "[]"] conjI exI [of _ "ring_data s1"]) auto
  next
    case True
    let ?t = "65504 - ?w"
    let ?m = "if 2 \<le> ?t then (ring_data s1)(?w := of_nat ?t, ?w + 1 := REC_PAD)
              else (ring_data s1)(?w := of_nat ?t)"
    have s2: "s2 = s1\<lparr>ring_data := ?m\<rparr>" "w2 = 0"
      using True pad by (auto simp: appendRaw_pad_def w1 Let_def)
    let ?p = "load ?m ?w ?t"
    have pc: "wf_chunk ?p" "is_pad ?p" "length ?p = ?t"
      using pad_chunk [OF wl, of "ring_data s1"] True len by simp_all
    let ?sp = "s1\<lparr>ring_data := ?m, hdr := (hdr s1)\<lparr>write_off := 0\<rparr>\<rparr>"
    have "?m = store (ring_data s1) ?w ?p"
      by (rule ext) (use wl in \<open>auto simp: store_def\<close>)
    then have hp: "holds ?sp (drop k cs @ [?p])"
      by (intro push_chunk [OF h1 pc(1)])
        (use True fr wl pc w1 in \<open>simp_all add: need_for_def wrap_off_def\<close>)
    have "tot (drop k cs @ [?p]) = tot (drop k cs) + ?t" using pc by simp
    then have frp: "?len \<le> freeBytes ?sp"
      using True fr by (simp add: holds_free [OF h1] holds_free [OF hp] need_for_def pc)
    have "holds ?s4 ((drop k cs @ [?p]) @ [stamped ?n rec])"
      by (rule push_chunk [OF hp st(1)])
        (use frp st len in \<open>simp_all add: s2 w1 appendRaw_publish_def sealHeader_def
            appendRaw_record_def stamped_def\<close>)
    then show ?thesis using s2 pc by (intro exI [of _ "[?p]"]) auto
  qed
  then obtain pads m where pads: "records pads = []" "holds ?s4 (drop k cs @ pads @ [stamped ?n rec])"
    and s2: "s2 = s1\<lparr>ring_data := m\<rparr>" by blast
  have fields: "checksum (hdr ?s4) = computeCheck (hdr ?s4)"
    "dropped (hdr ?s4) = dropped (hdr s) + of_nat (length (records (take k cs)))"
    "next_seq (hdr ?s4) = stamp_seq (next_seq (hdr s)) + 1" "magic (hdr ?s4) = magic (hdr s)"
    "ver (hdr ?s4) = ver (hdr s)" "hflags (hdr ?s4) = hflags (hdr s)"
    "boot_count (hdr ?s4) = boot_count (hdr s)"
    by (simp_all add: appendRaw_publish_def sealHeader_def appendRaw_record_def s2 s1 computeCheck_def)
  have "?s4 = s\<lparr>hdr := hdr ?s4, ring_data := ring_data ?s4\<rparr>"
    by (simp add: appendRaw_publish_def sealHeader_def appendRaw_record_def s2 s1)
  then have "\<exists>h' m'. ?s4 = s\<lparr>hdr := h', ring_data := m'\<rparr>" by blast
  then show ?thesis using run k pads mn fields by blast
qed

section \<open>The abstraction function and the invariant\<close>

text \<open>The chunks read off the memory; \<open>kDataSize\<close> steps suffice, every chunk has a byte.\<close>

fun chunks :: "nat \<Rightarrow> mem \<Rightarrow> nat \<Rightarrow> nat \<Rightarrow> byte list list" where
  "chunks 0 m r w = []"
| "chunks (Suc fuel) m r w =
     (if r = w then [] else load m r (unat (m r)) # chunks fuel m (wrap_off (r + unat (m r))) w)"

lemma chunks_chain: "chain m r w cs \<Longrightarrow> length cs \<le> fuel \<Longrightarrow> chunks fuel m r w = cs"
proof (induction cs arbitrary: r fuel)
  case Nil
  then show ?case by (cases fuel) auto
next
  case (Cons c cs)
  then obtain f where f: "fuel = Suc f" by (cases fuel) auto
  show ?case
    using Cons chain_neq [OF Cons.prems(1)] unfolding f by (simp add: chunk_len [OF Cons.prems(1)])
qed

definition recs :: "tel \<Rightarrow> byte list list" where
  "recs s = records (chunks kDataSize (ring_data s) (read_off (hdr s)) (write_off (hdr s)))"

definition ring_inv :: "tel \<Rightarrow> bool" where
  "ring_inv s \<longleftrightarrow> validHeader s
     \<and> holds s (chunks kDataSize (ring_data s) (read_off (hdr s)) (write_off (hdr s)))"

lemma length_le_total: "chain m r w cs \<Longrightarrow> length cs \<le> tot cs"
  proof (induction cs arbitrary: r)
  case (Cons c cs)
  then have "0 < length c" "length cs \<le> tot cs" by (auto dest: chunk_nonempty)
  then show ?case unfolding tot_simps list.size(4) by linarith
qed simp

lemma holds_chunks:
  assumes "holds s cs"
  shows "chunks kDataSize (ring_data s) (read_off (hdr s)) (write_off (hdr s)) = cs"
proof (rule chunks_chain)
  show ch: "chain (ring_data s) (read_off (hdr s)) (write_off (hdr s)) cs" using assms by (simp add: holds_def)
  show "length cs \<le> kDataSize"
    using length_le_total [OF ch] holds_total_less [OF assms] by simp
qed

lemma holds_recs: "holds s cs \<Longrightarrow> recs s = records cs"
  by (simp add: recs_def holds_chunks del: kDataSize_val)

lemma ring_inv_holds: "ring_inv s \<Longrightarrow> \<exists>cs. holds s cs"
  by (auto simp: ring_inv_def)

lemma ring_invI: "validHeader s \<Longrightarrow> holds s cs \<Longrightarrow> ring_inv s"
  by (simp add: ring_inv_def holds_chunks del: kDataSize_val)

lemma validHeader_iff:
  "validHeader s \<longleftrightarrow> magic (hdr s) = kMagic \<and> ver (hdr s) = kVersion \<and> checksum (hdr s) = computeCheck (hdr s)
     \<and> write_off (hdr s) < 65504 \<and> read_off (hdr s) < 65504 \<and> next_seq (hdr s) \<noteq> 0"
  by (auto simp: validHeader_def Let_def not_le)

lemma stamp_seq_ok: "stamp_seq n \<noteq> 0 \<and> stamp_seq n + 1 \<noteq> 0"
proof -
  have "x + 1 = (0 :: u32) \<longleftrightarrow> x = 0xFFFFFFFF" for x
  proof -
    have "(0xFFFFFFFF :: u32) = - 1" by simp
    then show ?thesis using eq_neg_iff_add_eq_0 [of x 1] by (simp only:)
  qed
  then show ?thesis by (auto simp: stamp_seq_def)
qed

lemma appendRaw_inv:
  assumes inv: "ring_inv s" and ok: "rec_ok rec" and run: "appendRaw rec s = (s', e)"
  shows "ring_inv s'" "recs s' = drop e (recs s) @ [stamped (next_seq (hdr s)) rec]"
    "e \<le> length (recs s)" "dropped (hdr s') = dropped (hdr s) + of_nat e"
    "next_seq (hdr s') = stamp_seq (next_seq (hdr s)) + 1"
    "e \<noteq> 0 \<Longrightarrow> freeBytes s < need_for (write_off (hdr s)) (length rec)"
    "\<exists>h' m'. s' = s\<lparr>hdr := h', ring_data := m'\<rparr>" "hflags (hdr s') = hflags (hdr s)"
    "boot_count (hdr s') = boot_count (hdr s)"
proof -
  from inv obtain cs where h: "holds s cs" using ring_inv_holds by blast
  from inv have v: "validHeader s" by (simp add: ring_inv_def)
  from appendRaw_spec [OF h ok] run obtain k pads where
    e: "e = length (records (take k cs))" and k: "k \<le> length cs"
    and h': "holds s' (drop k cs @ pads @ [stamped (next_seq (hdr s)) rec])" and pads: "records pads = []"
    and mn: "\<forall>j<k. 65503 - tot (drop j cs) < need_for (write_off (hdr s)) (length rec)"
    and ck: "checksum (hdr s') = computeCheck (hdr s')"
    and rest: "dropped (hdr s') = dropped (hdr s) + of_nat e"
      "next_seq (hdr s') = stamp_seq (next_seq (hdr s)) + 1"
      "\<exists>h' m'. s' = s\<lparr>hdr := h', ring_data := m'\<rparr>" "magic (hdr s') = magic (hdr s)"
      "ver (hdr s') = ver (hdr s)" "hflags (hdr s') = hflags (hdr s)" "boot_count (hdr s') = boot_count (hdr s)"
    by auto
  show "ring_inv s'"
    using ck rest v h' stamp_seq_ok [of "next_seq (hdr s)"]
    by (intro ring_invI [OF _ h']) (auto simp: validHeader_iff holds_def)
  have np: "\<not> is_pad (stamped (next_seq (hdr s)) rec)" using stamped_ok [OF ok] by (simp add: rec_ok_def)
  show "recs s' = drop e (recs s) @ [stamped (next_seq (hdr s)) rec]"
    using np pads records_drop [of k cs] by (simp add: holds_recs [OF h'] holds_recs [OF h] e)
  show "e \<le> length (recs s)"
    unfolding e holds_recs [OF h] by (metis append_take_drop_id le_add1 length_append records_simps(3))
  show "e \<noteq> 0 \<Longrightarrow> freeBytes s < need_for (write_off (hdr s)) (length rec)"
    using mn e holds_free [OF h] by (cases k) auto
  show "dropped (hdr s') = dropped (hdr s) + of_nat e"
    "next_seq (hdr s') = stamp_seq (next_seq (hdr s)) + 1"
    "\<exists>h' m'. s' = s\<lparr>hdr := h', ring_data := m'\<rparr>" "hflags (hdr s') = hflags (hdr s)"
    "boot_count (hdr s') = boot_count (hdr s)"
    by (rule rest)+
qed

text \<open>The newest chunk is never evicted to make room for the next one.\<close>

lemma wf_chunk_length: "wf_chunk c \<Longrightarrow> length c < 256"
  unfolding wf_chunk_def by (metis unat_u8_less)

lemma chain_wf: "chain m r w cs \<Longrightarrow> c \<in> set cs \<Longrightarrow> wf_chunk c"
  by (induction cs arbitrary: r) auto

lemma need_for_bound: "write_off (hdr s) < 65504 \<Longrightarrow> len \<le> 26 \<Longrightarrow> need_for (write_off (hdr s)) len \<le> 51"
  by (auto simp: need_for_def)

lemma appendRaw_keeps_newest:
  assumes inv: "ring_inv s" and h: "holds s (cs @ [c])" and np: "\<not> is_pad c" and ok: "rec_ok rec"
    and run: "appendRaw rec s = (s', e)"
  shows "recs s' = drop e (records cs) @ [c, stamped (next_seq (hdr s)) rec] \<and> e \<le> length (records cs)"
proof -
  from appendRaw_spec [OF h ok] run obtain k where
    e: "e = length (records (take k (cs @ [c])))" and k: "k \<le> length (cs @ [c])"
    and mn: "\<forall>j<k. 65503 - tot (drop j (cs @ [c])) < need_for (write_off (hdr s)) (length rec)" by auto
  have "k \<noteq> length (cs @ [c])"
  proof
    assume "k = length (cs @ [c])"
    then have "65503 - tot (drop (length cs) (cs @ [c])) < need_for (write_off (hdr s)) (length rec)"
      using mn by (intro mn [rule_format]) simp
    moreover have "length c < 256" using h chain_wf wf_chunk_length by (auto simp: holds_def)
    ultimately show False
      using need_for_bound [of s "length rec"] h ok by (simp add: holds_def rec_ok_def)
  qed
  then have "k \<le> length cs" using k by simp
  then have e': "e = length (records (take k cs))" by (simp add: e)
  have le: "e \<le> length (records cs)"
    unfolding e' by (metis append_take_drop_id le_add1 length_append records_simps(3))
  have "recs s = records cs @ [c]" using np by (simp add: holds_recs [OF h])
  with appendRaw_inv(2) [OF inv ok run] le show ?thesis by simp
qed

section \<open>The records the producers build\<close>

lemma buildState_ok: "rec_ok (buildState t kind code arg)"
  by (simp add: rec_ok_def wf_chunk_def is_pad_def buildState_def put16_def put32_def tel_lens tel_types)

lemma synth_record_ok: "rec_ok (synth_record t counter)"
  by (simp add: rec_ok_def wf_chunk_def is_pad_def synth_record_def put32_def tel_lens tel_types nth_append)

lemma frame_record_ok: "rec_ok (frame_record t i p l sp a su fl)"
  by (simp add: rec_ok_def wf_chunk_def is_pad_def frame_record_def put16_def put32_def tel_lens tel_types)

lemma cmd_record_ok: "rec_ok (cmd_record t c st req)"
proof -
  let ?n = "min (length req) 8"
  have "unat (of_nat (13 + ?n) :: byte) = 13 + ?n" by (simp only: unsigned_of_nat take_bit_eq_mod) simp
  then show ?thesis
    by (simp add: rec_ok_def wf_chunk_def is_pad_def cmd_record_def put32_def tel_lens tel_types Let_def)
qed

section \<open>Producers keep the invariant\<close>

definition tel_ok :: "tel \<Rightarrow> bool" where
  "tel_ok s \<longleftrightarrow> (ring_ok s \<longrightarrow> ring_inv s) \<and> (enabled s \<longrightarrow> ring_ok s) \<and> (synth_on s \<longrightarrow> ring_ok s)"

lemma trip_ok: "tel_ok (tripHeapGuard now s)"
  by (simp add: tel_ok_def tripHeapGuard_def Let_def)

lemma trip_off: "\<not> ring_ok (tripHeapGuard now s)"
  by (simp add: tripHeapGuard_def Let_def)

lemma ring_inv_cong:
  "hdr s' = hdr s \<Longrightarrow> ring_data s' = ring_data s \<Longrightarrow> ring_inv s' = ring_inv s"
  by (simp add: ring_inv_def validHeader_def holds_def)

lemma recs_cong: "hdr s' = hdr s \<Longrightarrow> ring_data s' = ring_data s \<Longrightarrow> recs s' = recs s"
  by (simp add: recs_def)

lemma append_rec_spec:
  assumes inv: "ring_inv s" and ok: "rec_ok rec" and heap: "\<not> heapTooClose s"
    and s'_def: "s' = append_rec now rec s"
  shows "ring_inv s' \<and> ring_ok s' = ring_ok s \<and> enabled s' = enabled s \<and> synth_on s' = synth_on s
    \<and> (\<exists>j mk. recs s' = drop j (recs s) @ [stamped (next_seq (hdr s)) rec] @ mk
         \<and> j \<le> length (recs s) \<and> dropped (hdr s') = dropped (hdr s) + of_nat j
         \<and> (j = 0 \<longrightarrow> mk = [])
         \<and> (mk = [] \<or> dropped_reported s' = dropped (hdr s') \<and>
              (\<exists>n arg. mk = [stamped n (buildState now ST_RING_OVERRUN kOverrunCodeEvicted arg)])))"
proof -
  obtain s1 e where run: "appendRaw rec s = (s1, e)" by fastforce
  note A = appendRaw_inv [OF inv ok run]
  from A(7) obtain h' m' where s1: "s1 = s\<lparr>hdr := h', ring_data := m'\<rparr>" by blast
  let ?mark = "\<not> evicted_ever s1 \<or> kEvictEpisodeGapUs \<le> now - last_evict_us s1"
  consider "e = 0" | "e \<noteq> 0" "\<not> ?mark" | "e \<noteq> 0" "?mark" by blast
  then show ?thesis
  proof cases
    case 1
    then have s': "s' = s1" by (simp add: s'_def append_rec_def heap run)
    then have "ring_ok s' = ring_ok s" "enabled s' = enabled s" "synth_on s' = synth_on s"
      by (simp_all add: s1)
    with A(1-5) 1 s' show ?thesis by (intro conjI exI [of _ 0] exI [of _ "[]"]) auto
  next
    case 2
    then have s': "s' = s1\<lparr>evicted_ever := True, last_evict_us := now\<rparr>"
      by (simp add: s'_def append_rec_def heap run)
    have "ring_inv s'" "recs s' = recs s1" using A(1) ring_inv_cong [of s' s1] recs_cong [of s' s1] s' by simp_all
    moreover have "ring_ok s' = ring_ok s" "enabled s' = enabled s" "synth_on s' = synth_on s"
      "dropped (hdr s') = dropped (hdr s1)" by (simp_all add: s' s1)
    ultimately show ?thesis using A 2 by (intro conjI exI [of _ e] exI [of _ "[]"]) auto
  next
    case 3
    let ?arg = "let since = dropped (hdr s1) - dropped_reported s1 in if 0xFFFF < since then 0xFFFF else ucast since"
    let ?ov = "buildState now ST_RING_OVERRUN kOverrunCodeEvicted ?arg"
    obtain s2 e2 where run2: "appendRaw ?ov s1 = (s2, e2)" by fastforce
    note B = appendRaw_inv [OF A(1) buildState_ok run2]
    from B(7) obtain h2 m2 where s2: "s2 = s1\<lparr>hdr := h2, ring_data := m2\<rparr>" by blast
    from 3 have s': "s' = s2\<lparr>dropped_reported := dropped (hdr s2), evicted_ever := True, last_evict_us := now\<rparr>"
      using run2 by (simp add: s'_def append_rec_def heap run Let_def)
    from inv obtain cs where h: "holds s cs" using ring_inv_holds by blast
    from appendRaw_spec [OF h ok] run obtain k pads where
      h1: "holds s1 ((drop k cs @ pads) @ [stamped (next_seq (hdr s)) rec])" and pads: "records pads = []"
      and e: "e = length (records (take k cs))" by auto
    have np: "\<not> is_pad (stamped (next_seq (hdr s)) rec)" using stamped_ok [OF ok] by (simp add: rec_ok_def)
    from appendRaw_keeps_newest [OF A(1) h1 np buildState_ok run2]
    have r2: "recs s2 = drop e2 (drop e (recs s)) @ [stamped (next_seq (hdr s)) rec, stamped (next_seq (hdr s1)) ?ov]"
      and e2: "e2 \<le> length (drop e (recs s))"
      using pads records_drop [of k cs] by (simp_all add: e holds_recs [OF h])
    have "ring_inv s'" "recs s' = recs s2" using B(1) ring_inv_cong [of s' s2] recs_cong [of s' s2] s' by simp_all
    moreover have "ring_ok s' = ring_ok s" "enabled s' = enabled s" "synth_on s' = synth_on s"
      "dropped (hdr s') = dropped (hdr s2)" "dropped_reported s' = dropped (hdr s')" by (simp_all add: s' s2 s1)
    ultimately show ?thesis using A(3,4) B(4) r2 e2 3
      by (intro conjI exI [of _ "e + e2"] exI [of _ "[stamped (next_seq (hdr s1)) ?ov]"])
        (auto simp: add.commute)
  qed
qed

lemma append_rec_ok: "tel_ok s \<Longrightarrow> ring_ok s \<Longrightarrow> rec_ok rec \<Longrightarrow> tel_ok (append_rec now rec s)"
proof (cases "heapTooClose s")
  case True
  then show ?thesis by (simp add: append_rec_def trip_ok)
next
  case False
  assume "tel_ok s" "ring_ok s" "rec_ok rec"
  with False append_rec_spec [of s rec _ now, OF _ _ _ refl] show ?thesis by (auto simp: tel_ok_def)
qed

end
