(* ===== verification/TelemetryOps.thy ===== *)
theory TelemetryOps
  imports TelemetryRing
begin

text \<open>
  The drain (\<open>ack\<close>, \<open>peek\<close>), the boot repair, and the whole module as a machine: every
  operation keeps the ring invariant and only ever extends the record log at its end and
  forgets it at its front.
\<close>

section \<open>Acknowledging\<close>

lemma ack_loop:
  assumes "chain m r w cs" "r < 65504"
  shows "\<exists>off. while (\<lambda>(off, moved). off \<noteq> w \<and> wellFormedAt m off w \<and> \<not> (\<not> isPadAt m off \<and> a < seqAt m off))
             (\<lambda>(off, moved). (wrap_off (off + unat (m off)), True)) (r, mv)
       = (off, mv \<or> dropWhile (\<lambda>c. is_pad c \<or> seq_of c \<le> a) cs \<noteq> cs)
     \<and> off < 65504 \<and> chain m off w (dropWhile (\<lambda>c. is_pad c \<or> seq_of c \<le> a) cs)"
  using assms
proof (induction cs arbitrary: r mv)
  case Nil
  then show ?case by (intro exI [of _ w]) (simp add: while_unfold)
next
  case (Cons c cs)
  note ch = Cons.prems(1)
  note facts = chunk_len [OF ch] chunk_pad [OF ch] chunk_wellFormed [OF ch] chain_neq [OF ch]
  show ?case
  proof (cases "is_pad c \<or> seq_of c \<le> a")
    case True
    then have go: "\<not> (\<not> isPadAt m r \<and> a < seqAt m r)"
      using chunk_seq [OF ch] facts by auto
    have "chain m (wrap_off (r + length c)) w cs" "r + length c \<le> 65504" using ch by auto
    from Cons.IH [OF this(1), of True] this(2) obtain off where IH:
      "while (\<lambda>(off, moved). off \<noteq> w \<and> wellFormedAt m off w \<and> \<not> (\<not> isPadAt m off \<and> a < seqAt m off))
             (\<lambda>(off, moved). (wrap_off (off + unat (m off)), True)) (wrap_off (r + length c), True)
         = (off, True)" "off < 65504" "chain m off w (dropWhile (\<lambda>c. is_pad c \<or> seq_of c \<le> a) cs)"
      by auto
    moreover have "dropWhile (\<lambda>c. is_pad c \<or> seq_of c \<le> a) cs \<noteq> c # cs"
      using length_dropWhile_le [of "\<lambda>c. is_pad c \<or> seq_of c \<le> a" cs] by auto
    ultimately show ?thesis using True facts go
      by (intro exI [of _ off]) (subst while_unfold, simp)
  next
    case False
    then have stop: "\<not> isPadAt m r \<and> a < seqAt m r"
      using chunk_seq [OF ch] facts by auto
    show ?thesis using False stop ch Cons.prems(2)
      by (intro exI [of _ r]) (subst while_unfold, simp)
  qed
qed

lemma ack_holds:
  assumes "holds s cs" "ring_ok s" "\<not> heapTooClose s" "a \<noteq> 0xFFFFFFFF" "a < next_seq (hdr s)"
  shows "holds (ack now a s) (dropWhile (\<lambda>c. is_pad c \<or> seq_of c \<le> a) cs)
     \<and> (\<exists>r ck. ack now a s = s\<lparr>hdr := (hdr s)\<lparr>read_off := r, checksum := ck\<rparr>\<rparr>)
     \<and> (checksum (hdr s) = computeCheck (hdr s) \<longrightarrow>
          checksum (hdr (ack now a s)) = computeCheck (hdr (ack now a s)))"
proof -
  let ?Q = "\<lambda>c. is_pad c \<or> seq_of c \<le> a" and ?m = "ring_data s"
  have ch: "chain ?m (read_off (hdr s)) (write_off (hdr s)) cs" and rw: "read_off (hdr s) < 65504"
    "write_off (hdr s) < 65504" using assms(1) by (auto simp: holds_def)
  from ack_loop [OF ch rw(1), of a False] obtain off where
    "while (\<lambda>(off, moved). off \<noteq> write_off (hdr s) \<and> wellFormedAt ?m off (write_off (hdr s))
          \<and> \<not> (\<not> isPadAt ?m off \<and> a < seqAt ?m off))
       (\<lambda>(off, moved). (wrap_off (off + unat (?m off)), True)) (read_off (hdr s), False)
     = (off, dropWhile ?Q cs \<noteq> cs)" and off: "off < 65504" "chain ?m off (write_off (hdr s)) (dropWhile ?Q cs)"
    by auto
  then have run: "ack now a s = (if dropWhile ?Q cs \<noteq> cs then sealHeader (set_read_off off s) else s)"
    using assms by (simp add: ack_def Let_def not_le)
  show ?thesis
  proof (cases "dropWhile ?Q cs = cs")
    case True
    then have "ack now a s = s" using run by simp
    moreover have "s = s\<lparr>hdr := (hdr s)\<lparr>read_off := read_off (hdr s), checksum := checksum (hdr s)\<rparr>\<rparr>" by simp
    ultimately show ?thesis using True assms(1) by metis
  next
    case False
    then have "ack now a s = sealHeader (set_read_off off s)" using run by simp
    then show ?thesis using off rw
      by (auto simp: holds_def sealHeader_def computeCheck_def)
  qed
qed

section \<open>Draining\<close>

text \<open>The longest prefix of whole records that fits in \<open>room\<close> bytes.\<close>

fun take_fit :: "nat \<Rightarrow> byte list list \<Rightarrow> byte list list" where
  "take_fit room [] = []"
| "take_fit room (c # cs) = (if length c \<le> room then c # take_fit (room - length c) cs else [])"

lemma take_fit_prefix: "take_fit room cs = take (length (take_fit room cs)) cs"
  by (induction room cs rule: take_fit.induct) auto

lemma take_fit_room: "length (concat (take_fit room cs)) \<le> room"
  by (induction room cs rule: take_fit.induct) auto

lemma take_fit_maximal:
  "length (take_fit room cs) < length cs \<Longrightarrow>
    room < length (concat (take (Suc (length (take_fit room cs))) cs))"
  by (induction room cs rule: take_fit.induct) auto

abbreviation peek_cond :: "mem \<Rightarrow> nat \<Rightarrow> nat \<Rightarrow> nat \<times> byte list \<times> block_info \<Rightarrow> bool" where
  "peek_cond m w max_bytes \<equiv> (\<lambda>(off, dst, info). off \<noteq> w \<and> wellFormedAt m off w
      \<and> \<not> (\<not> isPadAt m off \<and> max_bytes < length dst + unat (m off)))"

abbreviation peek_body :: "mem \<Rightarrow> nat \<times> byte list \<times> block_info \<Rightarrow> nat \<times> byte list \<times> block_info" where
  "peek_body m \<equiv> (\<lambda>(off, dst, info).
      let len = unat (m off) in
      if \<not> isPadAt m off then
        (wrap_off (off + len), dst @ load m off len,
         (let info = (if n_records info = 0 then info\<lparr>first_seq := seqAt m off\<rparr> else info)
          in info\<lparr>n_records := n_records info + 1\<rparr>))
      else (wrap_off (off + len), dst, info))"

lemma peek_loop:
  assumes "chain m r w cs" "length dst \<le> max_bytes"
  defines "tk \<equiv> take_fit (max_bytes - length dst) (records cs)"
  shows "\<exists>off. while (peek_cond m w max_bytes) (peek_body m) (r, dst, info)
       = (off, dst @ concat tk,
          info\<lparr>n_records := n_records info + length tk,
               first_seq := (if n_records info = 0 \<and> tk \<noteq> [] then seq_of (hd tk) else first_seq info)\<rparr>)
     \<and> (off \<noteq> w \<longleftrightarrow> tk \<noteq> records cs)"
  using assms(1,2) unfolding tk_def
proof (induction cs arbitrary: r dst info)
  case Nil
  then show ?case by (intro exI [of _ w]) (simp add: while_unfold)
next
  case (Cons c cs)
  note ch = Cons.prems(1)
  note facts = chunk_len [OF ch] chunk_pad [OF ch] chunk_wellFormed [OF ch] chain_neq [OF ch]
  have ch': "chain m (wrap_off (r + length c)) w cs" and ld: "load m r (length c) = c" using ch by auto
  consider "is_pad c" | "\<not> is_pad c" "max_bytes < length dst + length c"
    | "\<not> is_pad c" "length dst + length c \<le> max_bytes" by linarith
  then show ?case
  proof cases
    case 1
    then have step: "while (peek_cond m w max_bytes) (peek_body m) (r, dst, info)
        = while (peek_cond m w max_bytes) (peek_body m) (wrap_off (r + length c), dst, info)"
      using facts by (subst while_unfold) simp
    have "records (c # cs) = records cs" using 1 by simp
    then show ?thesis unfolding step using Cons.IH [OF ch' Cons.prems(2), of info] by (simp only:)
  next
    case 2
    then have "\<not> length c \<le> max_bytes - length dst" using Cons.prems(2) by linarith
    with 2 facts Cons.prems(2) show ?thesis
      by (intro exI [of _ r]) (subst while_unfold, simp)
  next
    case 3
    let ?info = "(if n_records info = 0 then info\<lparr>first_seq := seq_of c\<rparr> else info)\<lparr>n_records := n_records info + 1\<rparr>"
    let ?tk = "take_fit (max_bytes - length (dst @ c)) (records cs)"
    have le: "length (dst @ c) \<le> max_bytes" using 3 by simp
    from Cons.IH [OF ch' le, of ?info] obtain off where IH:
      "while (peek_cond m w max_bytes) (peek_body m) (wrap_off (r + length c), dst @ c, ?info)
       = (off, (dst @ c) @ concat ?tk, ?info\<lparr>n_records := n_records ?info + length ?tk,
               first_seq := (if n_records ?info = 0 \<and> ?tk \<noteq> [] then seq_of (hd ?tk) else first_seq ?info)\<rparr>)"
      "off \<noteq> w \<longleftrightarrow> ?tk \<noteq> records cs" by blast
    have "while (peek_cond m w max_bytes) (peek_body m) (r, dst, info)
       = while (peek_cond m w max_bytes) (peek_body m) (wrap_off (r + length c), dst @ c, ?info)"
      using 3 facts ld chunk_seq [OF ch 3(1)] by (subst while_unfold) (simp add: Let_def)
    moreover have "take_fit (max_bytes - length dst) (records (c # cs)) = c # ?tk" using 3 by simp
    ultimately show ?thesis using IH 3 by (intro exI [of _ off]) auto
  qed
qed

lemma peek_spec:
  assumes "ring_inv s" "ring_ok s" "\<not> heapTooClose s"
    and tk_def: "tk = take_fit max_bytes (recs s)"
  shows "peek now max_bytes s = (s, concat tk,
     \<lparr>first_seq = (if tk \<noteq> [] then seq_of (hd tk) else 0), n_records = length tk, more_unread = (tk \<noteq> recs s)\<rparr>)"
proof -
  from assms(1) obtain cs where h: "holds s cs" using ring_inv_holds by blast
  then have ch: "chain (ring_data s) (read_off (hdr s)) (write_off (hdr s)) cs" by (simp add: holds_def)
  from peek_loop [OF ch, of "[]" max_bytes "\<lparr>first_seq = 0, n_records = 0, more_unread = False\<rparr>"]
  show ?thesis
    unfolding peek_def tk_def holds_recs [OF h] using assms(2,3) by auto
qed

section \<open>Boot repair\<close>

lemma dist_add:
  "r < 65504 \<Longrightarrow> w < 65504 \<Longrightarrow> r + n \<le> 65504 \<Longrightarrow> n + dist (wrap_off (r + n)) w < 65504
    \<Longrightarrow> dist r w = n + dist (wrap_off (r + n)) w"
  by (auto simp: dist_def wrap_off_def split: if_splits)

abbreviation repair_cond :: "nat \<Rightarrow> nat \<times> nat \<times> bool \<Rightarrow> bool" where
  "repair_cond w \<equiv> (\<lambda>(off, steps, bad). \<not> bad \<and> off \<noteq> w)"

abbreviation repair_body :: "mem \<Rightarrow> nat \<Rightarrow> nat \<times> nat \<times> bool \<Rightarrow> nat \<times> nat \<times> bool" where
  "repair_body m w \<equiv> (\<lambda>(off, steps, bad).
     if \<not> wellFormedAt m off w \<or> kDataSize < steps + 1 then (off, steps + 1, True)
     else (wrap_off (off + unat (m off)), steps + 1, False))"

text \<open>Whatever bytes the reset left, the walk ends and what it keeps is a chain.\<close>

lemma repair_loop:
  assumes "off < 65504" "w < 65504"
  shows "\<exists>off' st bad cs. while (repair_cond w) (repair_body m w) (off, steps, False) = (off', st, bad)
     \<and> off' < 65504 \<and> dist off off' \<le> dist off w \<and> chain m off off' cs \<and> (\<not> bad \<longrightarrow> off' = w)"
  using assms
proof (induction "dist off w" arbitrary: off steps rule: less_induct)
  case less
  let ?n = "unat (m off)" and ?next = "wrap_off (off + unat (m off))"
  let ?c = "load m off (unat (m off))"
  consider "off = w" | "off \<noteq> w" "\<not> wellFormedAt m off w \<or> kDataSize < steps + 1"
    | "off \<noteq> w" "wellFormedAt m off w" "\<not> kDataSize < steps + 1" by blast
  then show ?case
  proof cases
    case 1
    then have "while (repair_cond w) (repair_body m w) (off, steps, False) = (off, steps, False)"
      by (subst while_unfold) simp
    then show ?thesis using 1 less.prems
      by (intro exI [of _ off] exI [of _ steps] exI [of _ False] exI [of _ "[]"]) simp
  next
    case 2
    then have "while (repair_cond w) (repair_body m w) (off, steps, False) = (off, steps + 1, True)"
      by (subst while_unfold) (auto simp: while_unfold)
    then show ?thesis using 2 less.prems
      by (intro exI [of _ off] exI [of _ "steps + 1"] exI [of _ True] exI [of _ "[]"]) simp
  next
    case 3
    from wellFormed_chunk [OF 3(2,1) less.prems]
    have c: "wf_chunk ?c" "length ?c = ?n" "?n \<le> dist off w" "off + ?n \<le> 65504" "load m off (length ?c) = ?c"
      by simp_all
    have pos: "0 < ?n" using chunk_nonempty [OF c(1)] c(2) by simp
    have nd: "dist ?next w = dist off w - ?n" using less.prems c(3,4) by (intro dist_step)
    have step: "while (repair_cond w) (repair_body m w) (off, steps, False)
        = while (repair_cond w) (repair_body m w) (?next, steps + 1, False)"
      using 3 by (subst while_unfold) simp
    have "dist ?next w < dist off w" using nd pos c(3) by simp
    from less.hyps [OF this _ less.prems(2), of "steps + 1"] c(4) obtain off' st bad cs where IH:
      "while (repair_cond w) (repair_body m w) (?next, steps + 1, False) = (off', st, bad)"
      "off' < 65504" "dist ?next off' \<le> dist ?next w" "chain m ?next off' cs" "\<not> bad \<longrightarrow> off' = w" by auto
    have d: "dist off off' = ?n + dist ?next off'"
      by (rule dist_add) (use IH(2,3) nd c(3,4) less.prems dist_less [of off w] in linarith)+
    then have "chain m off off' (?c # cs)" using c IH(4) by simp
    moreover have "dist off off' \<le> dist off w" using d IH(3) nd c(3) by linarith
    ultimately show ?thesis using IH step by metis
  qed
qed

lemma repairChain_holds:
  assumes "read_off (hdr s) < 65504" "write_off (hdr s) < 65504"
  shows "\<exists>cs. holds (repairChain s) cs"
proof -
  from repair_loop [OF assms, of "ring_data s" 0] obtain off' st bad cs where
    "while (repair_cond (write_off (hdr s))) (repair_body (ring_data s) (write_off (hdr s))) (read_off (hdr s), 0, False)
       = (off', st, bad)"
    and r: "off' < 65504" "chain (ring_data s) (read_off (hdr s)) off' cs" "\<not> bad \<longrightarrow> off' = write_off (hdr s)"
    by blast
  then have "repairChain s = (if bad then s\<lparr>hdr := (hdr s)\<lparr>write_off := off'\<rparr>\<rparr> else s)"
    by (simp add: repairChain_def Let_def)
  then have "holds (repairChain s) cs" using r assms by (cases bad) (simp_all add: holds_def)
  then show ?thesis ..
qed

text \<open>An intact chain passes the walk unchanged.\<close>

lemma repair_loop_id:
  assumes "chain m off w cs" "steps + length cs \<le> 65504"
  shows "\<exists>st. while (repair_cond w) (repair_body m w) (off, steps, False) = (w, st, False)"
  using assms
proof (induction cs arbitrary: off steps)
  case (Cons c cs)
  note ch = Cons.prems(1)
  have "while (repair_cond w) (repair_body m w) (off, steps, False)
        = while (repair_cond w) (repair_body m w) (wrap_off (off + length c), steps + 1, False)"
    using Cons.prems chunk_wellFormed [OF ch] chain_neq [OF ch] chunk_len [OF ch]
    by (subst while_unfold) simp
  with Cons.IH [of "wrap_off (off + length c)" "steps + 1"] Cons.prems show ?case by simp
qed (simp add: while_unfold)

lemma repairChain_id:
  assumes "holds s cs"
  shows "repairChain s = s"
proof -
  have ch: "chain (ring_data s) (read_off (hdr s)) (write_off (hdr s)) cs" using assms by (simp add: holds_def)
  have "0 + length cs \<le> 65504"
    using length_le_total [OF ch] holds_total_less [OF assms] by simp
  from repair_loop_id [OF ch this] show ?thesis
    by (auto simp: repairChain_def Let_def)
qed

section \<open>Boot\<close>

lemma seal_valid:
  "validHeader (sealHeader s) \<longleftrightarrow> magic (hdr s) = kMagic \<and> ver (hdr s) = kVersion
     \<and> write_off (hdr s) < 65504 \<and> read_off (hdr s) < 65504 \<and> next_seq (hdr s) \<noteq> 0"
  by (auto simp: validHeader_iff sealHeader_def computeCheck_def)

lemma begin_ring_inv: "ring_inv (begin_ring s)"
proof (cases "validHeader (s\<lparr>ring_ok := True\<rparr>)")
  case True
  let ?s = "s\<lparr>ring_ok := True, kept := True\<rparr>"
  have v: "validHeader ?s" using True by (simp add: validHeader_iff)
  then obtain cs where h: "holds (repairChain ?s) cs"
    using repairChain_holds [of ?s] by (auto simp: validHeader_iff)
  have m: "magic (hdr (repairChain ?s)) = magic (hdr ?s)" "ver (hdr (repairChain ?s)) = ver (hdr ?s)"
    "next_seq (hdr (repairChain ?s)) = next_seq (hdr ?s)"
    by (auto simp: repairChain_def Let_def split: prod.splits)
  have "validHeader (begin_ring s)" "holds (begin_ring s) cs"
    using h v True by (auto simp: begin_ring_def Let_def validHeader_iff sealHeader_def holds_def m computeCheck_def)
  then show ?thesis by (rule ring_invI)
next
  case False
  let ?i = "initRing (s\<lparr>ring_ok := True, kept := False\<rparr>)"
  from False have "begin_ring s = ?i\<lparr>enabled := True, synth_on := False, synth_rate := 0,
      dropped_reported := dropped (hdr ?i), evicted_ever := False\<rparr>"
    by (simp add: begin_ring_def Let_def)
  then have "validHeader (begin_ring s)" "holds (begin_ring s) []"
    by (simp_all add: initRing_def validHeader_iff sealHeader_def holds_def computeCheck_def)
  then show ?thesis by (rule ring_invI)
qed

lemma begin_ring_keeps:
  assumes "ring_inv s"
  shows "recs (begin_ring s) = recs s \<and> next_seq (hdr (begin_ring s)) = next_seq (hdr s)
    \<and> dropped (hdr (begin_ring s)) = dropped (hdr s) \<and> boot_count (hdr (begin_ring s)) = boot_count (hdr s) + 1"
proof -
  from assms obtain cs where h: "holds s cs" using ring_inv_holds by blast
  let ?s = "s\<lparr>ring_ok := True, kept := True\<rparr>"
  have "validHeader (s\<lparr>ring_ok := True\<rparr>)" using assms by (simp add: ring_inv_def validHeader_iff)
  moreover have "repairChain ?s = ?s" by (rule repairChain_id [of _ cs]) (use h in \<open>simp add: holds_def\<close>)
  ultimately show ?thesis
    by (simp add: begin_ring_def Let_def sealHeader_def recs_def)
qed

section \<open>The module as a machine\<close>

text \<open>
  \<open>good s s'\<close>: the step from \<open>s\<close> keeps the invariant, never revives a disabled ring, and
  the records afterwards are the old ones and some new ones, with some of the oldest gone.
\<close>

definition extends :: "tel \<Rightarrow> tel \<Rightarrow> bool" where
  "extends s s' \<longleftrightarrow> (\<exists>xs j. recs s' = drop j (recs s @ xs) \<and> j \<le> length (recs s @ xs))"

definition good :: "tel \<Rightarrow> tel \<Rightarrow> bool" where
  "good s s' \<longleftrightarrow> tel_ok s' \<and> (ring_ok s' \<longrightarrow> ring_ok s \<and> extends s s')"

lemma extends_refl: "recs s' = recs s \<Longrightarrow> extends s s'"
  by (auto simp: extends_def intro!: exI [of _ "[]"] exI [of _ 0])

lemma extends_trans: "extends s s' \<Longrightarrow> extends s' s'' \<Longrightarrow> extends s s''"
proof -
  assume "extends s s'" "extends s' s''"
  then obtain xs j ys k where a: "recs s' = drop j (recs s @ xs)" "j \<le> length (recs s @ xs)"
    and b: "recs s'' = drop k (recs s' @ ys)" "k \<le> length (recs s' @ ys)" by (auto simp: extends_def)
  have "recs s' @ ys = drop j ((recs s @ xs) @ ys)" using a by simp
  then have "recs s'' = drop (j + k) (recs s @ (xs @ ys))" using b(1)
    by (simp only: drop_drop append_assoc add.commute)
  moreover have "j + k \<le> length (recs s @ (xs @ ys))" using a b by simp
  ultimately show ?thesis unfolding extends_def by blast
qed

lemma good_trans: "good s s' \<Longrightarrow> good s' s'' \<Longrightarrow> good s s''"
  by (auto simp: good_def intro: extends_trans)

lemma good_refl: "tel_ok s \<Longrightarrow> good s s"
  by (simp add: good_def extends_refl)

lemma good_trip: "good s (tripHeapGuard now s)"
  by (simp add: good_def trip_ok trip_off)

text \<open>A step that only touches the volatile state.\<close>

lemma good_same:
  assumes "good s s1" "hdr s2 = hdr s1" "ring_data s2 = ring_data s1" "ring_ok s2 = ring_ok s1"
    "enabled s2 \<longrightarrow> ring_ok s1" "synth_on s2 \<longrightarrow> ring_ok s1"
  shows "good s s2"
  using assms ring_inv_cong [of s2 s1] recs_cong [of s2 s1] by (auto simp: good_def tel_ok_def extends_def)

text \<open>A step that rewrites the header flags and seals it.\<close>

lemma good_flags:
  assumes "good s s1" "ring_ok s1" "s2 = sealHeader (s1\<lparr>enabled := en, hdr := (hdr s1)\<lparr>hflags := f\<rparr>\<rparr>)"
  shows "good s s2"
proof -
  have eq: "read_off (hdr s2) = read_off (hdr s1)" "write_off (hdr s2) = write_off (hdr s1)"
    "ring_data s2 = ring_data s1" "ring_ok s2 = ring_ok s1" "synth_on s2 = synth_on s1"
    by (simp_all add: assms(3) sealHeader_def)
  have "ring_inv s1" using assms by (simp add: good_def tel_ok_def)
  then have "ring_inv s2"
    by (simp add: ring_inv_def validHeader_iff assms(3) sealHeader_def holds_def computeCheck_def)
  moreover have "recs s2 = recs s1" by (simp add: recs_def eq)
  ultimately show ?thesis using assms eq by (auto simp: good_def tel_ok_def extends_def)
qed

lemma good_append:
  assumes "tel_ok s" "ring_ok s" "rec_ok rec"
  shows "good s (append_rec now rec s)"
proof (cases "heapTooClose s")
  case True
  then show ?thesis by (simp add: append_rec_def good_trip)
next
  case False
  have "ring_inv s" using assms by (simp add: tel_ok_def)
  from append_rec_spec [OF this assms(3) False refl, of now] obtain j mk where
    r: "recs (append_rec now rec s) = drop j (recs s) @ [stamped (next_seq (hdr s)) rec] @ mk"
    and j: "j \<le> length (recs s)" by blast
  then have "extends s (append_rec now rec s)"
    unfolding extends_def by (intro exI [of _ "[stamped (next_seq (hdr s)) rec] @ mk"] exI [of _ j]) simp
  then show ?thesis using append_rec_ok [OF assms] assms(2) by (simp add: good_def)
qed

lemma good_state: "tel_ok s \<Longrightarrow> good s (state t now kind code arg s)"
  by (auto simp: state_def good_refl tel_ok_def intro!: good_append buildState_ok)

lemma good_cmd: "tel_ok s \<Longrightarrow> good s (cmd now t c st req s)"
  by (auto simp: cmd_def good_refl tel_ok_def intro!: good_append cmd_record_ok)

lemma good_frame: "tel_ok s \<Longrightarrow> good s (frame now t i p l sp a su fl s)"
  by (auto simp: frame_def good_refl tel_ok_def intro!: good_append frame_record_ok)

lemma good_service_loop: "tel_ok s \<Longrightarrow> ring_ok s \<Longrightarrow> good s (service_loop fuel now ev steps s)"
proof (induction fuel arbitrary: steps s)
  case (Suc fuel)
  show ?case
  proof (cases "synth_period_us s \<le> now - synth_last_us s")
    case True
    let ?s1 = "s\<lparr>synth_last_us := synth_last_us s + synth_period_us s, synth_counter := synth_counter s + 1\<rparr>"
    let ?s2 = "append_rec (ev steps) (synth_record (synth_last_us s + synth_period_us s) (synth_counter s)) ?s1"
    have g1: "good s ?s1" by (rule good_same [OF good_refl [OF Suc.prems(1)]])
      (use Suc.prems in \<open>auto simp: tel_ok_def\<close>)
    then have g2: "good s ?s2"
      using Suc.prems by (intro good_trans [OF g1] good_append synth_record_ok) (auto simp: good_def)
    have eq: "service_loop (Suc fuel) now ev steps s =
        (if \<not> ring_ok ?s2 then ?s2
         else if kSynthCatchUpMax \<le> steps + 1 then ?s2\<lparr>synth_last_us := now\<rparr>
         else service_loop fuel now ev (steps + 1) ?s2)"
      using True by (simp add: Let_def)
    have "good s (?s2\<lparr>synth_last_us := now\<rparr>)"
      by (rule good_same [OF g2]) (use g2 in \<open>auto simp: good_def tel_ok_def\<close>)
    moreover have "ring_ok ?s2 \<Longrightarrow> good s (service_loop fuel now ev (steps + 1) ?s2)"
      by (rule good_trans [OF g2], rule Suc.IH) (use g2 in \<open>auto simp: good_def\<close>)
    ultimately show ?thesis unfolding eq using g2 by auto
  qed (simp add: good_refl Suc.prems)
qed (simp add: good_refl)

lemma good_service: "tel_ok s \<Longrightarrow> good s (service now ev s)"
  by (auto simp: service_def good_refl good_trip good_service_loop)

lemma good_configure: "tel_ok s \<Longrightarrow> good s (configure t0 t now flags rate s)"
proof -
  assume ok: "tel_ok s"
  show ?thesis
  proof (cases "ring_ok s \<and> \<not> heapTooClose s")
    case False
    then show ?thesis using ok by (auto simp: configure_def good_refl good_trip)
  next
    case True
    let ?on = "flags AND kFlagEventsEnabled \<noteq> 0" and ?synth = "flags AND kFlagSynthetic \<noteq> 0"
    define s1 where "s1 = (if ?on \<and> \<not> enabled s then
                    sealHeader (s\<lparr>enabled := True,
                      hdr := (hdr s)\<lparr>hflags := hflags (hdr s) OR kFlagEventsEnabled\<rparr>\<rparr>)
                  else s)"
    define s2 where "s2 = (if 0 \<le> rate
                  then s1\<lparr>synth_rate := (if 0xFFFF < rate then 0xFFFF else of_int rate)\<rparr> else s1)"
    define s3 where "s3 = s2\<lparr>synth_on := (?synth \<and> 0 < synth_rate s2)\<rparr>"
    define s4 where "s4 = s3\<lparr>synth_period_us := (if synth_on s3 then 1000000 div ucast (synth_rate s3) else 0),
                   synth_last_us := t0, synth_counter := 0\<rparr>"
    define s5 where "s5 = state t now ST_TELEMETRY flags (synth_rate s4) s4"
    have run: "configure t0 t now flags rate s = (if \<not> ?on \<and> enabled s5 then
              sealHeader (s5\<lparr>enabled := False,
                hdr := (hdr s5)\<lparr>hflags := hflags (hdr s5) AND NOT kFlagEventsEnabled\<rparr>\<rparr>)
            else s5)"
      using True unfolding s1_def s2_def s3_def s4_def s5_def by (simp add: configure_def Let_def)
    have g1: "good s s1" and r1: "ring_ok s1"
      using good_flags [OF good_refl [OF ok]] True good_refl [OF ok] by (auto simp: s1_def sealHeader_def)
    have g4: "good s s4" and r4: "ring_ok s4"
      by (rule good_same [OF g1]; use g1 r1 in \<open>auto simp: s4_def s3_def s2_def good_def tel_ok_def\<close>)
        (use r1 in \<open>simp add: s4_def s3_def s2_def\<close>)
    have g5: "good s s5"
      unfolding s5_def by (rule good_trans [OF g4 good_state]) (use g4 in \<open>simp add: good_def\<close>)
    have "enabled s5 \<Longrightarrow> ring_ok s5" using g5 by (simp add: good_def tel_ok_def)
    then show ?thesis unfolding run using g5 good_flags [OF g5] by auto
  qed
qed

lemma good_ack: "tel_ok s \<Longrightarrow> good s (ack now a s)"
proof -
  assume ok: "tel_ok s"
  show ?thesis
  proof (cases "ring_ok s \<and> a \<noteq> 0xFFFFFFFF \<and> \<not> heapTooClose s \<and> a < next_seq (hdr s)")
    case False
    then show ?thesis using ok by (auto simp: ack_def good_refl good_trip not_less)
  next
    case True
    then have inv: "ring_inv s" using ok by (simp add: tel_ok_def)
    then obtain cs where h: "holds s cs" using ring_inv_holds by blast
    from ack_holds [OF h, of a now] True obtain r ck where
      h': "holds (ack now a s) (dropWhile (\<lambda>c. is_pad c \<or> seq_of c \<le> a) cs)"
      and s': "ack now a s = s\<lparr>hdr := (hdr s)\<lparr>read_off := r, checksum := ck\<rparr>\<rparr>"
      and ck: "checksum (hdr (ack now a s)) = computeCheck (hdr (ack now a s))"
      using inv by (auto simp: ring_inv_def validHeader_iff)
    have "validHeader (ack now a s)"
      using inv h' ck by (auto simp: validHeader_iff ring_inv_def holds_def s')
    then have "ring_inv (ack now a s)" using h' by (rule ring_invI)
    moreover have "recs (ack now a s) = dropWhile (\<lambda>c. seq_of c \<le> a) (recs s)"
      by (simp add: holds_recs [OF h'] holds_recs [OF h] records_dropWhile)
    then have "extends s (ack now a s)"
      unfolding extends_def by (intro exI [of _ "[]"] exI [of _ "length (takeWhile (\<lambda>c. seq_of c \<le> a) (recs s))"])
        (simp add: dropWhile_eq_drop length_takeWhile_le)
    ultimately show ?thesis using ok s' by (simp add: good_def tel_ok_def)
  qed
qed

lemma good_peek: "tel_ok s \<Longrightarrow> good s (fst (peek now n s))"
  by (auto simp: peek_def good_refl good_trip Let_def split: prod.splits)

section \<open>Runs\<close>

text \<open>
  The calls the firmware makes into the module after \<open>begin\<close>, with the clock readings each
  takes; \<open>Op_malloc\<close> is the heap moving its break between two of them.
\<close>

datatype tel_op =
    Op_cmd u32 u32 byte byte "byte list"
  | Op_frame u32 u32 u16 u16 u32 u32 u32 byte byte
  | Op_state u32 u32 byte byte u16
  | Op_service u32 "nat \<Rightarrow> u32"
  | Op_configure u32 u32 u32 byte int
  | Op_ack u32 u32
  | Op_peek u32 nat
  | Op_malloc nat

fun tel_step :: "tel_op \<Rightarrow> tel \<Rightarrow> tel" where
  "tel_step (Op_cmd now t c st req) s = cmd now t c st req s"
| "tel_step (Op_frame now t i p l sp a su fl) s = frame now t i p l sp a su fl s"
| "tel_step (Op_state t now k c a) s = state t now k c a s"
| "tel_step (Op_service now ev) s = service now ev s"
| "tel_step (Op_configure t0 t now f r) s = configure t0 t now f r s"
| "tel_step (Op_ack now a) s = ack now a s"
| "tel_step (Op_peek now n) s = fst (peek now n s)"
| "tel_step (Op_malloc b) s = s\<lparr>brkval := b\<rparr>"

lemma good_step: "tel_ok s \<Longrightarrow> good s (tel_step a s)"
proof (cases a)
  case (Op_malloc b)
  assume "tel_ok s"
  then have "good s (s\<lparr>brkval := b\<rparr>)"
    by (intro good_same [OF good_refl]) (auto simp: tel_ok_def)
  with Op_malloc show ?thesis by simp
qed (auto simp: good_cmd good_frame good_state good_service good_configure good_ack good_peek)

interpretation tel: invariant_machine tel_step tel_ok
  by unfold_locales (use good_step good_def in blast)

lemma good_run: "tel_ok s \<Longrightarrow> good s (fold tel_step ops s)"
proof (induction ops arbitrary: s)
  case (Cons a ops)
  have "good s (tel_step a s)" using Cons.prems by (rule good_step)
  moreover have "good (tel_step a s) (fold tel_step ops (tel_step a s))"
    using Cons.IH tel.step_invar [OF Cons.prems] .
  ultimately show ?case by (auto intro: good_trans)
qed (simp add: good_refl)

lemma ring_ok_repair [simp]: "ring_ok (repairChain s) = ring_ok s"
  by (simp add: repairChain_def Let_def split: prod.splits)

lemma begin_ring_ring_ok: "ring_ok (begin_ring s)"
  by (simp add: begin_ring_def Let_def sealHeader_def initRing_def)

lemma begin_ring_ok: "ring_ok (begin_ring s) \<and> tel_ok (begin_ring s)"
  by (simp add: tel_ok_def begin_ring_inv begin_ring_ring_ok)

lemma good_boot_records:
  assumes ok: "tel_ok s"
  shows "good s (boot_records b clk hs s)"
proof -
  have isr: "good s' (fold (\<lambda>i s. let n = prev_isr_cnt hs ! i; u = drop_bit 12 n in
             if n = 0 then s
             else state (fst (clk (i + 2))) (snd (clk (i + 2))) ST_PREV_ISR_COUNT (of_nat i)
                    (if 0xFFFF < u then 0xFFFF else ucast u) s) is s')" if "tel_ok s'" for s' "is"
    using that
  proof (induction "is" arbitrary: s')
    case (Cons i "is")
    let ?f = "\<lambda>s. let n = prev_isr_cnt hs ! i; u = drop_bit 12 n in
             if n = 0 then s
             else state (fst (clk (i + 2))) (snd (clk (i + 2))) ST_PREV_ISR_COUNT (of_nat i)
                    (if 0xFFFF < u then 0xFFFF else ucast u) s"
    have "good s' (?f s')" using Cons.prems by (simp add: Let_def good_refl good_state)
    with Cons.IH [of "?f s'"] show ?case by (auto simp: good_def intro: good_trans extends_trans)
  qed (simp add: good_refl)
  let ?s1 = "state (fst (clk 0)) (snd (clk 0)) ST_BOOT (ucast (reset_cause hs AND 0xFF)) (boot_arg hs) s"
  let ?s2 = "if prev_wdog_fired hs then
       state (fst (clk 1)) (snd (clk 1)) ST_WDOG_CONTEXT (ucast (prev_wdog_excret hs AND 0xFF))
         (ucast (prev_wdog_xpsr hs AND 0x1FF) OR push_bit 9 (ucast (prev_wdog_prev_isr hs AND 0x7F))) ?s1 else ?s1"
  have g1: "good s ?s1" using ok by (rule good_state)
  then have g2: "good s ?s2"
    using good_trans [OF g1 good_state] by (simp add: good_def)
  have g3: "good s (boot_isr_counts clk hs ?s2)"
    unfolding boot_isr_counts_def
    by (rule good_trans [OF g2 isr]) (use g2 in \<open>simp add: good_def\<close>)
  have run: "boot_records b clk hs s
      = (if prev_isr_valid hs \<and> reset_cause hs AND b \<noteq> 0 then boot_isr_counts clk hs ?s2 else ?s1)"
    by (simp add: boot_records_def Let_def)
  show ?thesis unfolding run using g1 g3 by (simp only: split: if_split) simp
qed

lemma begin_tel_good:
  "\<not> heapTooClose s \<Longrightarrow> good (begin_ring s) (begin_tel b clk hs s)"
  by (simp add: begin_tel_def good_boot_records begin_ring_ok)

lemma begin_tel_ok: "enabled s \<longrightarrow> ring_ok s \<Longrightarrow> tel_ok (begin_tel b clk hs (s\<lparr>enabled := False, synth_on := False\<rparr>))"
  by (cases "heapTooClose (s\<lparr>enabled := False, synth_on := False\<rparr>)")
    (use begin_tel_good in \<open>auto simp: begin_tel_def tel_ok_def good_def\<close>)

end
