(* ===== verification/TelemetryProps.thy ===== *)
theory TelemetryProps
  imports TelemetryOps
begin

text \<open>
  The properties of the telemetry ring, each with the witness that it applies: what the
  producers, the drain and the boot do to the list of records, and what a reset in the
  middle of an append leaves behind.
\<close>

section \<open>A concrete ring for the witnesses\<close>

definition blank_header :: ring_header where
  "blank_header = \<lparr>magic = 0, ver = 0, hflags = 0, reserved = 0, write_off = 0, read_off = 0,
     next_seq = 0, dropped = 0, boot_count = 0, checksum = 0\<rparr>"

definition blank_tel :: tel where
  "blank_tel = \<lparr>hdr = blank_header, ring_data = (\<lambda>_. 0), ring_ok = False, enabled = False, kept = False,
     heap_collision = False, dropped_reported = 0, last_evict_us = 0, evicted_ever = False,
     synth_on = False, synth_rate = 0, synth_period_us = 0, synth_last_us = 0, synth_counter = 0,
     brkval = 0x20210000\<rparr>"

lemma blank_boot:
  "validHeader blank_tel = False" "heapTooClose blank_tel = False" "heapTooClose (begin_ring blank_tel) = False"
  "recs (begin_ring blank_tel) = []" "next_seq (hdr (begin_ring blank_tel)) = 1"
  "write_off (hdr (begin_ring blank_tel)) = 0" "read_off (hdr (begin_ring blank_tel)) = 0"
proof -
  show v: "validHeader blank_tel = False"
    by (simp add: blank_tel_def blank_header_def validHeader_iff kMagic_def)
  show "heapTooClose blank_tel = False"
    by (simp add: blank_tel_def heapTooClose_def kRingBase_def kHeapGuardBytes_def)
  have v': "validHeader (blank_tel\<lparr>ring_ok := True\<rparr>) = False"
    using v by (simp add: validHeader_iff)
  let ?i = "initRing (blank_tel\<lparr>ring_ok := True, kept := False\<rparr>)"
  have b: "begin_ring blank_tel = ?i\<lparr>enabled := True, synth_on := False, synth_rate := 0,
      dropped_reported := dropped (hdr ?i), evicted_ever := False\<rparr>"
    using v' by (simp add: begin_ring_def Let_def)
  show "heapTooClose (begin_ring blank_tel) = False" "next_seq (hdr (begin_ring blank_tel)) = 1"
    "write_off (hdr (begin_ring blank_tel)) = 0" "read_off (hdr (begin_ring blank_tel)) = 0"
    unfolding b by (simp_all add: initRing_def sealHeader_def heapTooClose_def
        blank_tel_def kRingBase_def kHeapGuardBytes_def)
  have "holds (begin_ring blank_tel) []"
    unfolding b by (simp add: initRing_def sealHeader_def holds_def)
  then show "recs (begin_ring blank_tel) = []" by (simp add: holds_recs)
qed

section \<open>Producing\<close>

text \<open>C17: appending a record to a valid ring evicts some number \<open>j\<close> of the oldest records,
  counts exactly those in \<open>dropped\<close>, puts the record behind the remaining ones, and possibly an
  overrun marker behind it; nothing else changes in the record list and the ring stays
  valid.\<close>

lemma append_evicts_oldest:
  assumes "ring_inv s" and "rec_ok rec" and "\<not> heapTooClose s"
  shows "ring_inv (append_rec now rec s) \<and>
    (\<exists>j mk. recs (append_rec now rec s) = drop j (recs s) @ [stamped (next_seq (hdr s)) rec] @ mk
       \<and> j \<le> length (recs s) \<and> dropped (hdr (append_rec now rec s)) = dropped (hdr s) + of_nat j
       \<and> (j = 0 \<longrightarrow> mk = [])
       \<and> (mk = [] \<or> (\<exists>n arg. mk = [stamped n (buildState now ST_RING_OVERRUN kOverrunCodeEvicted arg)])))"
  using append_rec_spec [OF assms refl, of now] by blast

lemma append_evicts_oldest_witness:
  "ring_inv (append_rec 9 (buildState 5 1 2 3) (begin_ring blank_tel)) \<and>
    (\<exists>j mk. recs (append_rec 9 (buildState 5 1 2 3) (begin_ring blank_tel))
       = drop j [] @ [stamped 1 (buildState 5 1 2 3)] @ mk \<and> j \<le> length ([] :: byte list list))"
  using append_evicts_oldest [OF begin_ring_inv buildState_ok, of blank_tel 9 5 1 2 3]
  by (auto simp: blank_boot)

text \<open>A raw append evicts a record only when the free bytes do not hold the new record
  (and the PAD before it), so a ring with room loses nothing.\<close>

lemma append_evicts_only_when_full:
  assumes "ring_inv s" and "rec_ok rec" and "need_for (write_off (hdr s)) (length rec) \<le> freeBytes s"
  shows "recs (fst (appendRaw rec s)) = recs s @ [stamped (next_seq (hdr s)) rec] \<and> snd (appendRaw rec s) = 0"
proof -
  obtain s' e where run: "appendRaw rec s = (s', e)" by fastforce
  from appendRaw_inv(6) [OF assms(1,2) run] assms(3) have "e = 0" by fastforce
  with appendRaw_inv(2) [OF assms(1,2) run] run show ?thesis by simp
qed

lemma append_evicts_only_when_full_witness:
  "recs (fst (appendRaw (buildState 5 1 2 3) (begin_ring blank_tel))) = [] @ [stamped 1 (buildState 5 1 2 3)]"
proof -
  have "need_for (write_off (hdr (begin_ring blank_tel))) (length (buildState 5 1 2 3)) \<le> freeBytes (begin_ring blank_tel)"
    by (simp add: blank_boot need_for_def freeBytes_dist buildState_def)
  from append_evicts_only_when_full [OF begin_ring_inv buildState_ok this]
  show ?thesis by (simp add: blank_boot)
qed

section \<open>Draining\<close>

text \<open>\<open>ack(a)\<close> frees exactly the leading records with a sequence number up to \<open>a\<close>; an
  \<open>a\<close> this ring has not issued yet frees nothing.\<close>

lemma ack_frees_acked:
  assumes "ring_inv s" and "ring_ok s" and "\<not> heapTooClose s" and "a \<noteq> 0xFFFFFFFF"
  shows "recs (ack now a s) = (if next_seq (hdr s) \<le> a then recs s else dropWhile (\<lambda>c. seq_of c \<le> a) (recs s))
     \<and> dropped (hdr (ack now a s)) = dropped (hdr s) \<and> next_seq (hdr (ack now a s)) = next_seq (hdr s)"
proof (cases "next_seq (hdr s) \<le> a")
  case True
  then show ?thesis using assms by (simp add: ack_def)
next
  case False
  from assms(1) obtain cs where h: "holds s cs" using ring_inv_holds by blast
  with False have lt: "a < next_seq (hdr s)" by simp
  from ack_holds [OF h assms(2-4) lt, of now] obtain r ck where
    h': "holds (ack now a s) (dropWhile (\<lambda>c. is_pad c \<or> seq_of c \<le> a) cs)"
    and s': "ack now a s = s\<lparr>hdr := (hdr s)\<lparr>read_off := r, checksum := ck\<rparr>\<rparr>" by blast
  have "recs (ack now a s) = dropWhile (\<lambda>c. seq_of c \<le> a) (recs s)"
    by (simp add: holds_recs [OF h'] holds_recs [OF h] records_dropWhile)
  moreover have "dropped (hdr (ack now a s)) = dropped (hdr s)" "next_seq (hdr (ack now a s)) = next_seq (hdr s)"
    by (simp_all add: s')
  ultimately show ?thesis using False by simp
qed

text \<open>A ring with one record in it.\<close>

definition one_record :: tel where
  "one_record = fst (appendRaw (buildState 5 1 2 3) (begin_ring blank_tel))"

lemma one_record_facts:
  "ring_inv one_record" "ring_ok one_record" "\<not> heapTooClose one_record"
  "recs one_record = [stamped 1 (buildState 5 1 2 3)]" "next_seq (hdr one_record) = 2"
proof -
  obtain s' e where run: "appendRaw (buildState 5 1 2 3) (begin_ring blank_tel) = (s', e)" by fastforce
  then have s': "one_record = s'" by (simp add: one_record_def)
  note A = appendRaw_inv [OF begin_ring_inv buildState_ok run]
  from A(1) show "ring_inv one_record" by (simp add: s')
  from A(7) show "ring_ok one_record" "\<not> heapTooClose one_record"
    using blank_boot(3) by (auto simp: s' begin_ring_ring_ok heapTooClose_def)
  show "recs one_record = [stamped 1 (buildState 5 1 2 3)]"
    using append_evicts_only_when_full_witness by (simp add: one_record_def)
  show "next_seq (hdr one_record) = 2" using A(5) by (simp add: s' blank_boot stamp_seq_def)
qed

lemma ack_frees_acked_witness: "recs (ack 0 1 one_record) = []"
  using ack_frees_acked [OF one_record_facts(1-3), of 1 0]
  by (simp add: one_record_facts seq_of_stamped [OF buildState_ok] stamp_seq_def word_le_nat_alt)

text \<open>C24: \<open>peek\<close> leaves the ring as it is and returns the longest prefix of whole records that
  fits in \<open>max_bytes\<close>, byte for byte, with the first sequence number, their count and
  whether records remain.\<close>

lemma peek_longest_prefix:
  assumes "ring_inv s" and "ring_ok s" and "\<not> heapTooClose s"
  shows "\<exists>n \<le> length (recs s). peek now max_bytes s = (s, concat (take n (recs s)),
       \<lparr>first_seq = (if n = 0 then 0 else seq_of (recs s ! 0)), n_records = n, more_unread = (n < length (recs s))\<rparr>)
     \<and> length (concat (take n (recs s))) \<le> max_bytes
     \<and> (n < length (recs s) \<longrightarrow> max_bytes < length (concat (take (Suc n) (recs s))))"
proof -
  let ?tk = "take_fit max_bytes (recs s)" and ?n = "length (take_fit max_bytes (recs s))"
  have pre: "?tk = take ?n (recs s)" by (rule take_fit_prefix)
  have le: "?n \<le> length (recs s)" by (subst pre) simp
  have "?tk \<noteq> recs s \<longleftrightarrow> ?n < length (recs s)" using pre le by (metis le_neq_implies_less nat_less_le take_all)
  moreover have "?tk \<noteq> [] \<Longrightarrow> hd ?tk = recs s ! 0" using pre
    by (metis hd_conv_nth length_greater_0_conv nth_take)
  ultimately have "peek now max_bytes s = (s, concat (take ?n (recs s)),
       \<lparr>first_seq = (if ?n = 0 then 0 else seq_of (recs s ! 0)), n_records = ?n, more_unread = (?n < length (recs s))\<rparr>)"
    using peek_spec [OF assms refl, of now max_bytes] pre by auto
  moreover have "length (concat (take ?n (recs s))) \<le> max_bytes"
    using take_fit_room [of max_bytes "recs s"] pre by simp
  ultimately show ?thesis using le take_fit_maximal [of max_bytes "recs s"] by blast
qed

lemma peek_longest_prefix_witness:
  "fst (peek 0 100 one_record) = one_record
   \<and> n_records (snd (snd (peek 0 100 one_record))) \<le> length (recs one_record)"
  using peek_longest_prefix [OF one_record_facts(1-3), of 0 100] by auto

text \<open>Sequence numbers ascend and are all below the next one, until the counter wraps.\<close>

definition seq_sorted :: "tel \<Rightarrow> bool" where
  "seq_sorted s \<longleftrightarrow> sorted_wrt (<) (map seq_of (recs s)) \<and> (\<forall>c\<in>set (recs s). seq_of c < next_seq (hdr s))"

lemma dropWhile_sorted:
  assumes "sorted_wrt (<) (map f xs)" "0 < n" "n \<le> length xs"
  shows "dropWhile (\<lambda>c. f c \<le> (f (xs ! (n - 1)) :: 'a::linorder)) xs = drop n xs"
proof -
  have lt: "f (xs ! i) < f (xs ! j)" if "i < j" "j < length xs" for i j
    using sorted_wrt_nth_less [OF assms(1), of i j] that by simp
  have "f c \<le> f (xs ! (n - 1))" if c: "c \<in> set (take n xs)" for c
  proof -
    from c obtain i where "i < n" "c = xs ! i" using assms(3) by (auto simp: in_set_conv_nth)
    then show ?thesis using lt [of i "n - 1"] assms(2,3) by (cases "i = n - 1") (simp_all add: less_imp_le)
  qed
  then have "dropWhile (\<lambda>c. f c \<le> f (xs ! (n - 1))) (take n xs @ drop n xs)
      = dropWhile (\<lambda>c. f c \<le> f (xs ! (n - 1))) (drop n xs)" by (rule dropWhile_append2)
  moreover have "dropWhile (\<lambda>c. f c \<le> f (xs ! (n - 1))) (drop n xs) = drop n xs"
  proof (rule dropWhile_id)
    fix c
    assume "c \<in> set (drop n xs)"
    then obtain i where "i < length xs - n" "c = xs ! (n + i)" by (auto simp: in_set_conv_nth)
    then show "\<not> f c \<le> f (xs ! (n - 1))" using lt [of "n - 1" "n + i"] assms(2) by (simp add: not_le)
  qed
  ultimately show ?thesis by simp
qed

text \<open>C23: draining is lossless: after \<open>peek\<close> returned \<open>n > 0\<close> records and the host acknowledged
  the last of them, the ring holds exactly the records that were not returned.\<close>

lemma drain_is_lossless:
  assumes "ring_inv s" and "ring_ok s" and "\<not> heapTooClose s" and "seq_sorted s"
    and "peek now max_bytes s = (s, dst, info)" and "0 < n_records info"
    and "a = seq_of (recs s ! (n_records info - 1))" and "a \<noteq> 0xFFFFFFFF"
  shows "dst = concat (take (n_records info) (recs s)) \<and> recs (ack now a s) = drop (n_records info) (recs s)"
proof -
  from peek_spec [OF assms(1-3) refl, of now max_bytes] assms(5)
  have dst: "dst = concat (take_fit max_bytes (recs s))" and n: "n_records info = length (take_fit max_bytes (recs s))"
    by auto
  have pre: "take_fit max_bytes (recs s) = take (n_records info) (recs s)"
    unfolding n by (rule take_fit_prefix)
  have le: "n_records info \<le> length (recs s)"
    unfolding n by (subst take_fit_prefix) simp
  have "seq_of (recs s ! (n_records info - 1)) < next_seq (hdr s)"
    using assms(4,6) le by (auto simp: seq_sorted_def)
  then have lt: "\<not> next_seq (hdr s) \<le> a" using assms(7) by simp
  from assms(1) obtain cs where h: "holds s cs" using ring_inv_holds by blast
  from lt have lt': "a < next_seq (hdr s)" by simp
  from ack_holds [OF h assms(2,3,8) lt', of now]
  have h': "holds (ack now a s) (dropWhile (\<lambda>c. is_pad c \<or> seq_of c \<le> a) cs)" by blast
  have "recs (ack now a s) = dropWhile (\<lambda>c. seq_of c \<le> a) (recs s)"
    by (simp add: holds_recs [OF h'] holds_recs [OF h] records_dropWhile)
  also have "\<dots> = drop (n_records info) (recs s)"
    unfolding assms(7) using assms(4,6) le by (intro dropWhile_sorted) (auto simp: seq_sorted_def)
  finally show ?thesis using dst pre by simp
qed

lemma peek_one_record:
  "peek 0 100 one_record = (one_record, stamped 1 (buildState 5 1 2 3),
      \<lparr>first_seq = 1, n_records = 1, more_unread = False\<rparr>)"
proof -
  have l: "length (stamped 1 (buildState 5 1 2 3)) = 14"
    by (simp add: length_stamped [OF buildState_ok]) (simp add: buildState_def)
  show ?thesis
    using peek_spec [OF one_record_facts(1-3) refl, of 0 100]
    by (simp add: one_record_facts(4) l seq_of_stamped [OF buildState_ok] stamp_seq_def)
qed

lemma drain_is_lossless_witness: "recs (ack 0 1 one_record) = []"
proof -
  have "seq_sorted one_record"
    by (simp add: seq_sorted_def one_record_facts(4,5) seq_of_stamped [OF buildState_ok] stamp_seq_def word_less_nat_alt)
  from drain_is_lossless [OF one_record_facts(1-3) this peek_one_record, of 1]
  show ?thesis by (simp add: one_record_facts(4) seq_of_stamped [OF buildState_ok] stamp_seq_def)
qed

text \<open>Appending keeps the sequence numbers ascending while the 32-bit counter has not
  reached its last value.\<close>

lemma append_keeps_seq_sorted:
  assumes "ring_inv s" and "seq_sorted s" and "rec_ok rec" and "next_seq (hdr s) < 0xFFFFFFFF"
  shows "seq_sorted (fst (appendRaw rec s)) \<and> next_seq (hdr (fst (appendRaw rec s))) = next_seq (hdr s) + 1"
proof -
  let ?n = "next_seq (hdr s)"
  obtain s' e where run: "appendRaw rec s = (s', e)" by fastforce
  note A = appendRaw_inv [OF assms(1,3) run]
  have n: "stamp_seq ?n = ?n" using assms(1,4) by (auto simp: stamp_seq_def ring_inv_def validHeader_iff)
  have "unat ?n < 4294967295" using assms(4) by (simp add: word_less_nat_alt)
  then have "unat (?n + 1) = unat ?n + 1" by (simp add: unat_word_ariths)
  then have lt: "?n < ?n + 1" by (simp add: word_less_nat_alt)
  have "sorted_wrt (<) (map seq_of (drop e (recs s)))"
    using assms(2) sorted_wrt_drop [of "(<)" "map seq_of (recs s)" e] by (simp add: seq_sorted_def drop_map)
  then have "sorted_wrt (<) (map seq_of (drop e (recs s) @ [stamped ?n rec]))"
    using assms(2) by (auto simp: seq_sorted_def sorted_wrt_append
        seq_of_stamped [OF assms(3)] n dest: in_set_dropD)
  moreover have "\<forall>c\<in>set (drop e (recs s) @ [stamped ?n rec]). seq_of c < ?n + 1"
    using assms(2) lt
    by (auto simp: seq_sorted_def seq_of_stamped [OF assms(3)] n dest!: in_set_dropD intro: less_trans)
  ultimately show ?thesis using A(2,5) run by (simp add: seq_sorted_def n)
qed

lemma append_keeps_seq_sorted_witness: "seq_sorted (fst (appendRaw (buildState 5 1 2 3) (begin_ring blank_tel)))"
proof -
  have "seq_sorted (begin_ring blank_tel)" by (simp add: seq_sorted_def blank_boot)
  moreover have "next_seq (hdr (begin_ring blank_tel)) < 0xFFFFFFFF"
    by (simp add: blank_boot word_less_nat_alt)
  ultimately show ?thesis
    using append_keeps_seq_sorted [OF begin_ring_inv _ buildState_ok] by blast
qed

section \<open>Boot and reset\<close>

text \<open>C22: whatever a reset or a power-on left in the region, \<open>begin\<close> terminates with a valid,
  usable ring, and every later sequence of calls keeps it valid until the heap guard
  disables it for good.\<close>

lemma boot_then_run_valid:
  assumes "\<not> heapTooClose s"
  shows "tel_ok (fold tel_step ops (begin_tel b clk hs s))
     \<and> ring_inv (begin_ring s) \<and> ring_ok (begin_ring s)"
proof -
  have "tel_ok (begin_tel b clk hs s)"
    using begin_tel_good [OF assms, of b clk hs] by (simp add: good_def)
  then show ?thesis using tel.run_invar begin_ring_ok begin_ring_inv by blast
qed

lemma boot_then_run_valid_witness:
  "tel_ok (fold tel_step [Op_cmd 1 2 0x70 0 [5], Op_ack 3 1] (begin_tel 0x80 (\<lambda>_. (0, 0)) stats0 blank_tel))"
  using boot_then_run_valid [of blank_tel "[Op_cmd 1 2 0x70 0 [5], Op_ack 3 1]" "0x80" "\<lambda>_. (0, 0)" stats0]
    blank_boot(2) by blast


lemma brkval_begin_ring [simp]: "brkval (begin_ring s) = brkval s"
  by (simp add: begin_ring_def Let_def sealHeader_def initRing_def repairChain_def split: prod.splits)

lemma begin_tel_quiet:
  assumes "\<not> heapTooClose s" "\<not> prev_isr_valid hs"
  shows "ring_ok (begin_tel b clk hs s)"
proof -
  have h: "\<not> heapTooClose (begin_ring s)" using assms(1) by (simp add: heapTooClose_def)
  have e: "enabled (begin_ring s)" by (simp add: begin_ring_def Let_def)
  have "begin_tel b clk hs s = append_rec (snd (clk 0))
      (buildState (fst (clk 0)) ST_BOOT (ucast (reset_cause hs AND 0xFF)) (boot_arg hs)) (begin_ring s)"
    using assms e by (simp add: begin_tel_def boot_records_def Let_def state_def)
  then show ?thesis
    using append_rec_spec [OF begin_ring_inv buildState_ok h refl] begin_ring_ring_ok by simp
qed


text \<open>
  Reset in the middle of \<open>appendRaw\<close>: the header in memory is the one of the first commit
  point; each byte of the area is as before, after the PAD or after the record was written.
\<close>

lemma appendRaw_writes_outside:
  assumes h1: "holds s1 cs" and len: "len \<le> 26" "length rec = len" "6 \<le> len"
    and room: "need_for (write_off (hdr s1)) len \<le> freeBytes s1"
    and pad: "appendRaw_pad len s1 = (s2, w2)"
    and live: "live (read_off (hdr s1)) (write_off (hdr s1)) i"
  shows "ring_data s2 i = ring_data s1 i \<and> ring_data (appendRaw_record w2 rec s2) i = ring_data s2 i"
proof -
  let ?w = "write_off (hdr s1)" and ?r = "read_off (hdr s1)"
  have rw: "?r < 65504" "?w < 65504" using h1 by (auto simp: holds_def)
  note fb = holds_free_bound [OF h1]
  have lb: "length (blit rec 2 (put32 n)) = len" for n using len by simp
  show ?thesis
  proof (cases "65504 - ?w < len")
    case False
    then have "appendRaw_pad len s1 = (s1, ?w)" by (simp add: appendRaw_pad_def Let_def)
    then have s2: "s2 = s1" "w2 = ?w" using pad by simp_all
    have "\<not> (?w \<le> i \<and> i < ?w + len)"
    proof -
      have "?w + len \<le> 65504" using False rw by linarith
      moreover have "dist ?r ?w + len < 65504" using fb room False by (simp add: need_for_def)
      ultimately show ?thesis using not_live_after [OF rw, of len i] live by blast
    qed
    then show ?thesis by (simp add: s2 appendRaw_record_def store_outside lb not_le not_less)
  next
    case True
    then have s2: "s2 = s1\<lparr>ring_data := ring_data s2\<rparr>" "w2 = 0"
      "i \<noteq> ?w \<Longrightarrow> i \<noteq> ?w + 1 \<Longrightarrow> ring_data s2 i = ring_data s1 i"
      "65504 - ?w = 1 \<Longrightarrow> i \<noteq> ?w \<Longrightarrow> ring_data s2 i = ring_data s1 i"
      using pad by (auto simp: appendRaw_pad_def Let_def)
    have room': "dist ?r ?w + (65504 - ?w) + len < 65504" using fb room True rw by (auto simp: need_for_def)
    have a: "\<not> (?w \<le> i \<and> i < 65504)"
    proof -
      have "dist ?r ?w + (65504 - ?w) < 65504" "?w + (65504 - ?w) = 65504" using room' rw by linarith+
      then show ?thesis using not_live_after [OF rw, of "65504 - ?w" i] live by (metis order_refl)
    qed
    have b: "\<not> i < len" using live room' rw by (auto simp: live_def dist_def split: if_splits)
    have "ring_data s2 i = ring_data s1 i"
    proof (cases "65504 - ?w = 1")
      case True
      have "i \<noteq> ?w" using a rw by auto
      with True show ?thesis by (rule s2(4))
    next
      case False
      then have "?w + 1 < 65504" using rw by linarith
      with a rw show ?thesis by (intro s2(3)) auto
    qed
    then show ?thesis using b by (simp add: s2(2) appendRaw_record_def store_outside lb)
  qed
qed


lemma evict_room: "need_for (write_off (hdr s)) len \<le> freeBytes s \<Longrightarrow> appendRaw_evict len s = (s, 0)"
proof -
  assume "need_for (write_off (hdr s)) len \<le> freeBytes s"
  then have "makeRoom (need_for (write_off (hdr s)) len) s = (s, 0)"
    by (simp add: makeRoom_def while_unfold)
  then show ?thesis unfolding appendRaw_evict_def Let_def need_for_def [symmetric] by simp
qed


section \<open>The gap: an eviction of a PAD alone\<close>

text \<open>
  A ring full of STATE records: 4677 of them from offset 0 to 65478, the read cursor on the
  12-byte PAD at the end of the area.
\<close>

definition state_chunk :: "byte list" where
  "state_chunk = [14, 3, 0, 0, 0, 0, 0, 0, 0, 0, 0, 0, 0, 0]"

definition full_mem :: mem where
  "full_mem i = (if i < 65492 then (if i mod 14 = 0 then 14 else if i mod 14 = 1 then 3 else 0)
                 else if i = 65492 then 12 else 0)"

definition full_tel :: tel where
  "full_tel = sealHeader (blank_tel\<lparr>ring_ok := True, enabled := True, ring_data := full_mem,
     hdr := blank_header\<lparr>magic := kMagic, ver := kVersion, write_off := 65478, read_off := 65492,
       next_seq := 4679\<rparr>\<rparr>)"

lemma load_state_chunk:
  assumes "j < 4678"
  shows "load full_mem (14 * j) 14 = state_chunk"
proof (rule nth_equalityI)
  fix i
  assume "i < length (load full_mem (14 * j) 14)"
  then have i: "i < 14" by simp
  then have "14 * j + i < 65492" using assms by linarith
  moreover have "(14 * j + i) mod 14 = i" using i by simp
  moreover have "state_chunk ! i = (if i = 0 then 14 else if i = 1 then 3 else 0)"
    using i unfolding state_chunk_def by (auto simp: nth_Cons' split: if_splits)
  ultimately show "load full_mem (14 * j) 14 ! i = state_chunk ! i"
    using i by (simp add: full_mem_def)
qed (simp add: state_chunk_def)

lemma wf_state_chunk: "wf_chunk state_chunk" "\<not> is_pad state_chunk" "length state_chunk = 14"
  by (simp_all add: wf_chunk_def is_pad_def state_chunk_def tel_types)

lemma full_chain: "n \<le> 4677 \<Longrightarrow> chain full_mem (14 * (4677 - n)) 65478 (replicate n state_chunk)"
proof (induction n)
  case (Suc n)
  have w: "wrap_off (14 * (4677 - Suc n) + 14) = 14 * (4677 - n)"
  proof -
    have "14 * (4677 - Suc n) + 14 = 14 * (4677 - n)" using Suc.prems by simp
    moreover have "14 * (4677 - n) \<noteq> 65504" by simp
    ultimately show ?thesis by (simp add: wrap_off_def)
  qed
  have "14 * (4677 - Suc n) + 14 \<le> 65478" using Suc.prems by linarith
  then have "14 \<le> dist (14 * (4677 - Suc n)) 65478" unfolding dist_def by (auto simp only: split: if_split)
  with Suc w show ?case by (simp add: wf_state_chunk load_state_chunk)
qed simp

definition end_pad :: "byte list" where
  "end_pad = [12, 0, 0, 0, 0, 0, 0, 0, 0, 0, 0, 0]"

lemma full_holds: "holds full_tel (end_pad # replicate 4677 state_chunk)"
proof -
  have "load full_mem 65492 12 = end_pad"
    by (rule nth_equalityI) (auto simp: end_pad_def full_mem_def nth_Cons' split: if_splits)
  moreover have "wf_chunk end_pad" "length end_pad = 12"
    by (simp_all add: wf_chunk_def end_pad_def tel_types)
  ultimately have "chain full_mem 65492 65478 (end_pad # replicate 4677 state_chunk)"
    using full_chain [of 4677] by (simp add: dist_def wrap_off_def)
  then show ?thesis by (simp add: full_tel_def holds_def sealHeader_def blank_tel_def)
qed

lemma full_inv: "ring_inv full_tel"
proof (rule ring_invI [OF _ full_holds])
  show "validHeader full_tel"
    by (simp add: full_tel_def seal_valid blank_tel_def blank_header_def)
qed

text \<open>A 21-byte command record with eight zero payload bytes.\<close>

definition long_cmd :: "byte list" where
  "long_cmd = cmd_record 0 0x70 0 (replicate 8 0)"

lemma full_recs: "recs full_tel = replicate 4677 state_chunk"
proof -
  have "records (replicate n state_chunk) = replicate n state_chunk" for n
    by (induction n) (simp_all add: wf_state_chunk)
  then show ?thesis by (simp add: holds_recs [OF full_holds] end_pad_def is_pad_def tel_types)
qed

text \<open>C25: the eviction of a PAD alone is not published before its bytes are overwritten. Here it
  frees enough room for a command record; a reset between the record's bytes and the header
  (the header in memory still the old one) makes the boot walk reject the first chunk, and
  all 4677 records are gone.\<close>

lemma pad_eviction_not_published:
  "ring_inv full_tel \<and> length (recs full_tel) = 4677
   \<and> (let (s1, e) = appendRaw_evict (length long_cmd) full_tel;
          (s2, w2) = appendRaw_pad (length long_cmd) s1;
          s3 = appendRaw_record w2 long_cmd s2
      in e = 0 \<and> read_off (hdr s1) = 0
       \<and> recs (begin_ring (s3\<lparr>hdr := hdr full_tel\<rparr>)) = [])"
proof -
  have len: "length long_cmd = 21" by (simp add: long_cmd_def cmd_record_def tel_lens)
  have cur: "write_off (hdr full_tel) = 65478" "read_off (hdr full_tel) = 65492" "ring_data full_tel = full_mem"
    by (simp_all add: full_tel_def sealHeader_def blank_tel_def)
  let ?s1 = "set_read_off 0 full_tel"
  have free: "freeBytes full_tel = 13" "freeBytes ?s1 = 25"
    by (simp_all add: freeBytes_dist dist_def cur)
  have body: "makeRoom_body (full_tel, 0, False) = (?s1, 0, False)"
    by (simp add: makeRoom_body_def Let_def cur isPadAt_def full_mem_def wrap_off_def tel_lens tel_types)
  have "makeRoom 21 full_tel = (?s1, 0)"
    by (simp add: makeRoom_def, subst while_unfold, simp add: free body, subst while_unfold, simp add: free)
  then have ev: "appendRaw_evict 21 full_tel = (?s1, 0)"
    by (simp add: appendRaw_evict_def cur)
  have pad: "appendRaw_pad 21 ?s1 = (?s1, 65478)" by (simp add: appendRaw_pad_def cur)
  let ?s3 = "appendRaw_record 65478 long_cmd ?s1"
  let ?c = "?s3\<lparr>hdr := hdr full_tel\<rparr>"
  have "ring_data ?s3 65492 = 0"
    by (simp add: appendRaw_record_def store_def blit_def len)
      (simp add: long_cmd_def cmd_record_def put32_def tel_lens nth_append)
  then have bad: "\<not> wellFormedAt (ring_data ?c) 65492 65478"
    by (simp add: wellFormedAt_alt)
  have v: "validHeader (?c\<lparr>ring_ok := True\<rparr>)" "validHeader (?c\<lparr>ring_ok := True, kept := True\<rparr>)"
    using full_inv by (simp_all add: ring_inv_def validHeader_iff)
  let ?k = "?c\<lparr>ring_ok := True, kept := True\<rparr>"
  have "repairChain ?k = ?k\<lparr>hdr := (hdr ?k)\<lparr>write_off := 65492\<rparr>\<rparr>"
    using bad by (simp add: repairChain_def cur while_unfold)
  then have "holds (begin_ring ?c) []"
    using v by (simp add: begin_ring_def Let_def sealHeader_def holds_def cur)
  then have "recs (begin_ring ?c) = []" by (simp add: holds_recs)
  then show ?thesis using full_inv by (simp add: full_recs len ev pad)
qed

section \<open>Heap guard\<close>

lemma trip_untouched: "kRingBase \<le> brkval s \<Longrightarrow> hdr (tripHeapGuard now s) = hdr s
    \<and> ring_data (tripHeapGuard now s) = ring_data s \<and> brkval (tripHeapGuard now s) = brkval s"
  by (simp add: tripHeapGuard_def Let_def)

text \<open>\<open>ring_untouched\<close>: the step left the region alone, and the heap break where it was.\<close>

definition ring_untouched :: "tel \<Rightarrow> tel \<Rightarrow> bool" where
  "ring_untouched s s' \<longleftrightarrow> hdr s' = hdr s \<and> ring_data s' = ring_data s \<and> brkval s' = brkval s"

lemma heap_reached: "kRingBase \<le> brkval s \<Longrightarrow> heapTooClose s"
  by (simp add: heapTooClose_def kRingBase_def)

lemma append_rec_guard:
  assumes "kRingBase \<le> brkval s"
  shows "ring_untouched s (append_rec now rec s)"
  using heap_reached [OF assms] by (simp add: append_rec_def ring_untouched_def trip_untouched [OF assms])

lemma guard_step:
  assumes "tel_ok s" "kRingBase \<le> brkval s" "\<forall>b. a \<noteq> Op_malloc b"
  shows "ring_untouched s (tel_step a s)"
proof -
  have heap: "heapTooClose s" using assms(2) by (rule heap_reached)
  have off: "\<not> ring_ok s \<Longrightarrow> \<not> enabled s" using assms(1) by (auto simp: tel_ok_def)
  show ?thesis
    using assms off heap trip_untouched [OF assms(2)] append_rec_guard [OF assms(2)]
    by (cases a) (auto simp: cmd_def frame_def state_def service_def configure_def ack_def peek_def
        ring_untouched_def)
qed

text \<open>Once the heap break has reached the ring, no sequence of calls reads it into the
  state or writes a byte of it: header and records stay as they are for the post-mortem.\<close>

lemma heap_guard_protects_ring:
  assumes "tel_ok s" and "kRingBase \<le> brkval s" and "\<forall>a\<in>set ops. \<forall>b. a \<noteq> Op_malloc b"
  shows "hdr (fold tel_step ops s) = hdr s \<and> ring_data (fold tel_step ops s) = ring_data s"
  using assms
proof (induction ops arbitrary: s)
  case (Cons a ops)
  have "ring_untouched s (tel_step a s)" by (rule guard_step) (use Cons.prems in auto)
  moreover have "tel_ok (tel_step a s)" using Cons.prems(1) by (rule tel.step_invar)
  ultimately show ?case using Cons by (simp add: ring_untouched_def)
qed simp

lemma heap_guard_protects_ring_witness:
  "ring_data (fold tel_step [Op_state 1 2 5 0 0, Op_ack 3 1] (one_record\<lparr>brkval := 0x20270000\<rparr>))
     = ring_data one_record"
proof -
  have "tel_ok (one_record\<lparr>brkval := 0x20270000\<rparr>)"
    using one_record_facts(1,2) by (simp add: tel_ok_def ring_inv_def validHeader_iff holds_def)
  from heap_guard_protects_ring [OF this, of "[Op_state 1 2 5 0 0, Op_ack 3 1]"]
  show ?thesis by (simp add: kRingBase_def)
qed

section \<open>The synthetic producer\<close>

lemma append_rec_volatile:
  assumes "ring_inv s" "rec_ok rec" "\<not> heapTooClose s"
  shows "synth_period_us (append_rec now rec s) = synth_period_us s
    \<and> synth_last_us (append_rec now rec s) = synth_last_us s
    \<and> synth_counter (append_rec now rec s) = synth_counter s
    \<and> brkval (append_rec now rec s) = brkval s"
proof -
  obtain s1 e where run: "appendRaw rec s = (s1, e)" by fastforce
  from appendRaw_inv(7) [OF assms(1,2) run] obtain h1 m1 where s1: "s1 = s\<lparr>hdr := h1, ring_data := m1\<rparr>" by blast
  let ?ov = "buildState now ST_RING_OVERRUN kOverrunCodeEvicted
      (let since = dropped (hdr s1) - dropped_reported s1 in if 0xFFFF < since then 0xFFFF else ucast since)"
  obtain s2 e2 where run2: "appendRaw ?ov s1 = (s2, e2)" by fastforce
  from appendRaw_inv(7) [OF appendRaw_inv(1) [OF assms(1,2) run] buildState_ok run2] obtain h2 m2 where
    s2: "s2 = s1\<lparr>hdr := h2, ring_data := m2\<rparr>" by blast
  show ?thesis using assms(3) run2 by (simp add: append_rec_def run Let_def s1 s2)
qed

lemma service_loop_count:
  assumes "ring_inv s" "ring_ok s" "\<not> heapTooClose s" "0 < synth_period_us s" "fuel + steps = 256"
  shows "synth_counter (service_loop fuel now ev steps s)
    = synth_counter s + of_nat (min fuel (unat (now - synth_last_us s) div unat (synth_period_us s)))"
  using assms
proof (induction fuel arbitrary: s steps)
  case (Suc fuel)
  let ?p = "synth_period_us s" and ?d = "now - synth_last_us s"
  have p: "0 < unat ?p" using Suc.prems(4) by (simp add: word_less_nat_alt)
  show ?case
  proof (cases "?p \<le> ?d")
    case False
    then have "unat ?d < unat ?p" by (simp add: word_le_nat_alt)
    with False show ?thesis by simp
  next
    case True
    let ?s1 = "s\<lparr>synth_last_us := synth_last_us s + ?p, synth_counter := synth_counter s + 1\<rparr>"
    let ?rec = "synth_record (synth_last_us s + ?p) (synth_counter s)"
    let ?s2 = "append_rec (ev steps) ?rec ?s1"
    have inv1: "ring_inv ?s1" and heap1: "\<not> heapTooClose ?s1"
      using Suc.prems(1,3) ring_inv_cong [of ?s1 s] by (simp_all add: heapTooClose_def)
    from append_rec_spec [OF inv1 synth_record_ok heap1 refl, of "ev steps"]
    have inv2: "ring_inv ?s2" and ok2: "ring_ok ?s2" using Suc.prems(2) by auto
    from append_rec_volatile [OF inv1 synth_record_ok heap1, of "ev steps"]
    have v2: "synth_period_us ?s2 = ?p" "synth_last_us ?s2 = synth_last_us s + ?p"
      "synth_counter ?s2 = synth_counter s + 1" "\<not> heapTooClose ?s2"
      using heap1 by (simp_all add: heapTooClose_def)
    have sub: "now - (synth_last_us s + ?p) = ?d - ?p" by simp
    have "unat (?d - ?p) = unat ?d - unat ?p" using True by (rule unat_sub)
    moreover have "unat ?d div unat ?p = Suc ((unat ?d - unat ?p) div unat ?p)"
      using True p by (intro le_div_geq) (simp_all add: word_le_nat_alt)
    ultimately have d2: "unat (now - synth_last_us ?s2) div unat ?p = unat ?d div unat ?p - 1"
      unfolding v2(2) sub by simp
    have q: "1 \<le> unat ?d div unat ?p"
      using True p by (simp add: word_le_nat_alt div_greater_zero_iff Suc_le_eq)
    have eq: "service_loop (Suc fuel) now ev steps s =
        (if kSynthCatchUpMax \<le> steps + 1 then ?s2\<lparr>synth_last_us := now\<rparr>
         else service_loop fuel now ev (steps + 1) ?s2)"
      using True ok2 by (simp add: Let_def)
    show ?thesis
    proof (cases "fuel = 0")
      case True
      then have "kSynthCatchUpMax \<le> steps + 1" using Suc.prems(5) by (simp add: kSynthCatchUpMax_def)
      then show ?thesis unfolding eq using True q by (simp add: v2 min_def)
    next
      case False
      then have "\<not> kSynthCatchUpMax \<le> steps + 1" using Suc.prems(5) by (simp add: kSynthCatchUpMax_def)
      moreover have "min (Suc fuel) (unat ?d div unat ?p) = Suc (min fuel (unat ?d div unat ?p - 1))"
        using q by linarith
      ultimately show ?thesis unfolding eq
        using Suc.IH [OF inv2 ok2 v2(4), of "steps + 1"] Suc.prems(4,5) d2 by (simp add: v2)
    qed
  qed
qed simp

text \<open>One \<open>service\<close> call emits exactly one synthetic record per elapsed period since the
  last one, and never more than 256.\<close>

lemma service_emits_per_period:
  assumes "ring_inv s" and "ring_ok s" and "\<not> heapTooClose s" and "synth_on s" and "0 < synth_period_us s"
  shows "synth_counter (service now ev s)
    = synth_counter s + of_nat (min 256 (unat (now - synth_last_us s) div unat (synth_period_us s)))"
  using service_loop_count [OF assms(1-3,5), of 256 0 now ev] assms
  by (simp add: service_def kSynthCatchUpMax_def)

lemma service_emits_per_period_witness:
  "synth_counter (service 1000 (\<lambda>_. 0) (one_record\<lparr>synth_on := True, synth_period_us := 300,
      synth_last_us := 0, synth_counter := 7\<rparr>)) = 10"
proof -
  let ?s = "one_record\<lparr>synth_on := True, synth_period_us := 300, synth_last_us := 0, synth_counter := 7\<rparr>"
  have "ring_inv ?s" "ring_ok ?s" "\<not> heapTooClose ?s"
    using one_record_facts(1-3) by (simp_all add: ring_inv_def validHeader_iff holds_def heapTooClose_def)
  from service_emits_per_period [OF this, of 1000 "\<lambda>_. 0"] show ?thesis by simp
qed

end
