(* ===== verification/Spi.thy ===== *)
theory Spi
  imports Board PanelProtocol Health
begin

text \<open>
  \<open>src/src/SpiManager.h\<close> and \<open>src/src/SpiManager.cpp\<close> (production build): the frame and
  single-panel transfers over the two SPI buses, the runtime clock, and the refresh timer.

  The pins, buses and timers are hardware; the driver's accesses to them are the events of
  a trace, in program order, together with its breadcrumb marks.
\<close>

section \<open>State\<close>

datatype spi_ev =
    AttachDma
  | SetMISO nat nat
  | BusBegin nat
  | BeginTxn nat u32
  | EndTxn nat
  | PinWrite nat bool
  | PinModeOut nat
  | PadConfig nat
  | DelayNs u32
  | Throwaway nat
  | Xfer nat "byte list"
  | XferDma nat "byte list"
  | WaitDma
  | TimerUpdate u32
  | TimerBegin u32 bool
  | TimerEnd
  | WrapPit
  | NvicDisablePit
  | NvicEnablePit
  | TelState byte byte u16
  | EvMark byte byte
  | EvClear

record spi =
  spi_clock_hz :: u32
  bus_clock_hz :: "u32 list"
  cs_setup_delay_ns :: u32
  cs_hold_delay_ns :: u32
  frames_sent :: u32
  armed_hz :: u32
  framescan_pin_a :: int
  framescan_pin_b :: int
  refreshFlag :: bool
  refresh_isr_count :: u32
  instance_set :: bool
  dmaComplete :: bool
  trace :: "spi_ev list"

definition emit :: "spi_ev list \<Rightarrow> spi \<Rightarrow> spi" where
  "emit es s = s\<lparr>trace := trace s @ es\<rparr>"

definition delay_ns :: "u64 \<Rightarrow> u32 \<Rightarrow> u32" where
  "delay_ns periods hz = ucast ((1000000000 * periods) div ucast hz)"

text \<open>The static initialisers.\<close>

definition spi0 :: spi where
  "spi0 = \<lparr>spi_clock_hz = spi_clock_speed, bus_clock_hz = [0, 0],
     cs_setup_delay_ns = delay_ns cs_setup_sck_periods spi_clock_speed,
     cs_hold_delay_ns = delay_ns cs_hold_sck_periods spi_clock_speed,
     frames_sent = 0, armed_hz = 0, framescan_pin_a = -1, framescan_pin_b = -1,
     refreshFlag = False, refresh_isr_count = 0, instance_set = False, dmaComplete = False, trace = []\<rparr>"

section \<open>Interrupt handlers\<close>

definition ISR_DMA :: byte where "ISR_DMA = 2"
definition ISR_REFRESH :: byte where "ISR_REFRESH = 1"

definition dmaISR :: "spi \<times> isr_record \<Rightarrow> spi \<times> isr_record" where
  "dmaISR = (\<lambda>(s, r). let (r, p) = isrEnter ISR_DMA r; s = s\<lparr>dmaComplete := True\<rparr> in (s, isrExit p r))"

definition refreshISR :: "spi \<times> isr_record \<Rightarrow> spi \<times> isr_record" where
  "refreshISR = (\<lambda>(s, r).
     let (r, p) = isrEnter ISR_REFRESH r;
         s = (if instance_set s
              then s\<lparr>refreshFlag := True, refresh_isr_count := refresh_isr_count s + 1\<rparr> else s)
     in (s, isrExit p r))"

section \<open>Bring-up\<close>

definition spi_begin :: "arena_hw \<Rightarrow> spi \<Rightarrow> spi" where
  "spi_begin b s =
     (let s = emit [AttachDma] (s\<lparr>instance_set := True\<rparr>);
          s = fold (\<lambda>r. emit [SetMISO r (region_cipo_pins ! r), BusBegin r]) [0..<2] s;
          s = fold (\<lambda>ps. emit [PinWrite (cs_pin ps) True, PinModeOut (cs_pin ps), PadConfig (cs_pin ps)])
                (panel_sets b) s
      in fold (\<lambda>pin. emit [PinModeOut pin, PinWrite pin True, PadConfig pin]) (cs_decode_tie_high_pins b) s)"

section \<open>Refresh timer\<close>

text \<open>\<open>channel_free\<close>: does \<open>IntervalTimer::begin\<close> find a PIT channel.\<close>

definition armRefreshTimer :: "bool \<Rightarrow> u32 \<Rightarrow> spi \<Rightarrow> spi \<times> bool" where
  "armRefreshTimer channel_free hz s =
     (if hz = 0 then (s, False)
      else if armed_hz s = hz then (s, True)
      else
        let period_us = microseconds_per_second div hz
        in if armed_hz s \<noteq> 0 then ((emit [TimerUpdate period_us] s)\<lparr>armed_hz := hz\<rparr>, True)
           else
             let s = emit [TimerBegin period_us channel_free] s
             in if \<not> channel_free then
                  (emit [TelState 10 0 (ucast (if 0xFFFF < hz then 0xFFFF else hz))] (s\<lparr>armed_hz := 0\<rparr>), False)
                else ((emit [WrapPit] s)\<lparr>armed_hz := hz\<rparr>, True))"

definition disarmRefreshTimer :: "bool \<Rightarrow> spi \<Rightarrow> spi" where
  "disarmRefreshTimer was_enabled s =
     (let s = (if armed_hz s \<noteq> 0 then
                 emit ([NvicDisablePit, TimerEnd] @ (if was_enabled then [NvicEnablePit] else [])) s
               else s)
      in s\<lparr>armed_hz := 0, refreshFlag := False\<rparr>)"

definition refreshArmed :: "spi \<Rightarrow> bool" where
  "refreshArmed s \<longleftrightarrow> armed_hz s \<noteq> 0"

definition refreshArmedAt :: "u32 \<Rightarrow> spi \<Rightarrow> bool" where
  "refreshArmedAt hz s \<longleftrightarrow> armed_hz s = hz \<and> hz \<noteq> 0"

section \<open>Clock\<close>

definition setSpiClockMhz :: "u16 \<Rightarrow> spi \<Rightarrow> spi" where
  "setSpiClockMhz mhz s =
     (let mhz = (if mhz < 1 then 1 else mhz);
          mhz = (if 30 < mhz then 30 else mhz);
          hz = ucast mhz * 1000000
      in s\<lparr>spi_clock_hz := hz, cs_setup_delay_ns := delay_ns cs_setup_sck_periods hz,
           cs_hold_delay_ns := delay_ns cs_hold_sck_periods hz\<rparr>)"

definition getSpiClockMhz :: "spi \<Rightarrow> u16" where
  "getSpiClockMhz s = ucast (spi_clock_hz s div 1000000)"

definition resetFramesSent :: "spi \<Rightarrow> spi" where
  "resetFramesSent s = s\<lparr>frames_sent := 0\<rparr>"

definition setFramescanGatePins :: "int \<Rightarrow> int \<Rightarrow> spi \<Rightarrow> spi" where
  "setFramescanGatePins a b s = s\<lparr>framescan_pin_a := a, framescan_pin_b := b\<rparr>"

section \<open>Transfers\<close>

definition beginBus :: "nat \<Rightarrow> spi \<Rightarrow> spi" where
  "beginBus r s =
     (let s = emit [BeginTxn r (spi_clock_hz s)] s
      in if bus_clock_hz s ! r \<noteq> spi_clock_hz s
         then (emit [Throwaway r] s)\<lparr>bus_clock_hz := (bus_clock_hz s)[r := spi_clock_hz s]\<rparr>
         else s)"

definition beginPanelSetTransaction :: "spi \<Rightarrow> spi" where
  "beginPanelSetTransaction s = fold beginBus [0..<2] s"

definition endPanelSetTransaction :: "spi \<Rightarrow> spi" where
  "endPanelSetTransaction s = fold (\<lambda>r. emit [EndTxn r]) [0..<2] s"

text \<open>
  The spin on \<open>dmaComplete_\<close> ends when the transfer's completion interrupt (\<open>dmaISR\<close>) has
  fired; the event \<open>WaitDma\<close> stands for it.
\<close>

definition transferPanelSet :: "byte list \<Rightarrow> byte list \<Rightarrow> spi \<Rightarrow> spi" where
  "transferPanelSet block_b0 block_b1 s =
     (let s = emit [XferDma 0 block_b0] (s\<lparr>dmaComplete := False\<rparr>);
          s = emit [Xfer 1 block_b1] s
      in (emit [WaitDma] s)\<lparr>dmaComplete := True\<rparr>)"

text \<open>The panel's set and bus, searched as the code does.\<close>

fun find_panel :: "panel_set list \<Rightarrow> nat \<Rightarrow> (panel_set \<times> nat) option" where
  "find_panel [] p = None"
| "find_panel (ps # pss) p =
     (if panel_b0 ps = p then Some (ps, 0)
      else if panel_b1 ps = p then Some (ps, 1)
      else find_panel pss p)"

definition transferSinglePanel :: "arena_hw \<Rightarrow> nat \<Rightarrow> byte list \<Rightarrow> spi \<Rightarrow> spi \<times> bool" where
  "transferSinglePanel b panel_index copi s =
     (case find_panel (panel_sets b) panel_index of
        None \<Rightarrow> (s, False)
      | Some (ps, bus) \<Rightarrow>
          let s = beginBus bus s;
              s = emit [PinWrite (cs_pin ps) False, DelayNs (cs_setup_delay_ns s), Xfer bus copi,
                        DelayNs (cs_hold_delay_ns s), PinWrite (cs_pin ps) True, EndTxn bus] s
          in (s, True))"

definition gate_pins :: "spi \<Rightarrow> nat list" where
  "gate_pins s = map nat (filter (\<lambda>p. 0 \<le> p) [framescan_pin_a s, framescan_pin_b s])"

definition panel_block :: "byte list \<Rightarrow> nat \<Rightarrow> nat \<Rightarrow> byte list" where
  "panel_block frame_buf block_byte_count p =
     slice frame_buf (stream_frame_prefix_byte_count + p * block_byte_count) block_byte_count"

definition transfer_set :: "byte list \<Rightarrow> nat \<Rightarrow> panel_set \<Rightarrow> spi \<Rightarrow> spi" where
  "transfer_set frame_buf block_byte_count ps s =
     (let s = beginPanelSetTransaction s;
          s = emit [PinWrite (cs_pin ps) False, DelayNs (cs_setup_delay_ns s)] s;
          s = transferPanelSet (panel_block frame_buf block_byte_count (panel_b0 ps))
                               (panel_block frame_buf block_byte_count (panel_b1 ps)) s;
          s = emit [DelayNs (cs_hold_delay_ns s), PinWrite (cs_pin ps) True] s
      in endPanelSetTransaction s)"

definition valid_block_size :: "nat \<Rightarrow> bool" where
  "valid_block_size n \<longleftrightarrow> n = block_byte_count_gs2 \<or> n = block_byte_count_gs16
     \<or> n = block_byte_count_psram \<or> n = block_byte_count_psram_duty"

definition transferFrame :: "arena_hw \<Rightarrow> byte list option \<Rightarrow> nat \<Rightarrow> spi \<Rightarrow> spi" where
  "transferFrame b frame_buf block_byte_count s =
     (case frame_buf of
        None \<Rightarrow> s
      | Some buf \<Rightarrow>
          if \<not> valid_block_size block_byte_count then s
          else
            let s = s\<lparr>frames_sent := frames_sent s + 1\<rparr>;
                s = emit [EvMark OP_SPI_FRAME 0] s;
                s = emit (map (\<lambda>p. PinWrite p True) (gate_pins s)) s;
                s = fold (transfer_set buf block_byte_count) (panel_sets b) s;
                s = emit (map (\<lambda>p. PinWrite p False) (gate_pins s)) s
            in emit [EvClear] s)"

end
