(* ===== verification/SpiProps.thy ===== *)
theory SpiProps
  imports Spi
begin

text \<open>
  The electrical discipline of the SPI driver, as an automaton over its trace: which bus
  transactions are open, which chip select is low, and what was clocked under it. A frame
  reaches every panel once; clock changes keep the delays above their SCK-period floors.
\<close>

section \<open>The bus automaton\<close>

record wire =
  open0 :: bool
  open1 :: bool
  low :: "nat option"
  dma_busy :: bool
  sent :: "(nat \<times> nat \<times> byte list) list"

definition idle_wire :: "(nat \<times> nat \<times> byte list) list \<Rightarrow> wire" where
  "idle_wire xs = \<lparr>open0 = False, open1 = False, low = None, dma_busy = False, sent = xs\<rparr>"

definition is_open :: "nat \<Rightarrow> wire \<Rightarrow> bool" where
  "is_open r w = (if r = 0 then open0 w else open1 w)"

definition set_open :: "nat \<Rightarrow> bool \<Rightarrow> wire \<Rightarrow> wire" where
  "set_open r v w = (if r = 0 then w\<lparr>open0 := v\<rparr> else w\<lparr>open1 := v\<rparr>)"

definition need :: "bool \<Rightarrow> 'a \<Rightarrow> 'a option" where
  "need c x = (if c then Some x else None)"

lemma need_simps [simp]: "need True x = Some x" "need False x = None" "c \<Longrightarrow> need c x = Some x"
  by (simp_all add: need_def)

text \<open>
  A step is refused (None) where the hardware rules would be broken: a second chip select
  low, data without a selected panel or outside a transaction, a throwaway byte while a panel
  listens, a chip select released while the DMA still clocks.
\<close>

fun wire_step :: "nat list \<Rightarrow> spi_ev \<Rightarrow> wire \<Rightarrow> wire option" where
  "wire_step cs (BeginTxn r hz) w = need (\<not> is_open r w \<and> low w = None) (set_open r True w)"
| "wire_step cs (EndTxn r) w = need (is_open r w \<and> low w = None) (set_open r False w)"
| "wire_step cs (Throwaway r) w = need (is_open r w \<and> low w = None) w"
| "wire_step cs (PinWrite p v) w =
     (if p \<in> set cs then
        (if v then need (low w = Some p \<and> \<not> dma_busy w) (w\<lparr>low := None\<rparr>)
         else need (low w = None) (w\<lparr>low := Some p\<rparr>))
      else Some w)"
| "wire_step cs (Xfer r bs) w =
     (case low w of None \<Rightarrow> None | Some p \<Rightarrow> need (is_open r w) (w\<lparr>sent := sent w @ [(p, r, bs)]\<rparr>))"
| "wire_step cs (XferDma r bs) w =
     (case low w of None \<Rightarrow> None
      | Some p \<Rightarrow> need (is_open r w \<and> \<not> dma_busy w) (w\<lparr>sent := sent w @ [(p, r, bs)], dma_busy := True\<rparr>))"
| "wire_step cs WaitDma w = Some (w\<lparr>dma_busy := False\<rparr>)"
| "wire_step cs _ w = Some w"

fun wire_run :: "nat list \<Rightarrow> spi_ev list \<Rightarrow> wire \<Rightarrow> wire option" where
  "wire_run cs [] w = Some w"
| "wire_run cs (e # es) w = Option.bind (wire_step cs e w) (wire_run cs es)"

lemma wire_run_append: "wire_run cs (es @ fs) w = Option.bind (wire_run cs es w) (wire_run cs fs)"
  by (induction es arbitrary: w) (auto split: Option.bind_split)

lemma wire_simps [simp]:
  "is_open 0 (idle_wire xs) = False" "is_open (Suc 0) (idle_wire xs) = False"
  "low (idle_wire xs) = None" "sent (idle_wire xs) = xs"
  "is_open 0 w = open0 w" "is_open (Suc 0) w = open1 w"
  "set_open 0 v w = w\<lparr>open0 := v\<rparr>" "set_open (Suc 0) v w = w\<lparr>open1 := v\<rparr>"
  by (simp_all add: is_open_def set_open_def idle_wire_def)

section \<open>Frames\<close>

lemma emit_simps [simp]:
  "trace (emit es s) = trace s @ es" "emit fs (emit es s) = emit (es @ fs) s" "emit [] s = s"
  "spi_clock_hz (emit es s) = spi_clock_hz s" "bus_clock_hz (emit es s) = bus_clock_hz s"
  "cs_setup_delay_ns (emit es s) = cs_setup_delay_ns s" "cs_hold_delay_ns (emit es s) = cs_hold_delay_ns s"
  "frames_sent (emit es s) = frames_sent s" "armed_hz (emit es s) = armed_hz s"
  "framescan_pin_a (emit es s) = framescan_pin_a s" "framescan_pin_b (emit es s) = framescan_pin_b s"
  by (simp_all add: emit_def)

lemma upt2: "[0..<2] = [0, 1 :: nat]"
  by (simp add: upt_conv_Cons)

text \<open>What a transfer leaves alone, and what it adds to the trace.\<close>

definition same_cfg :: "spi \<Rightarrow> spi \<Rightarrow> bool" where
  "same_cfg s s' \<longleftrightarrow> spi_clock_hz s' = spi_clock_hz s \<and> length (bus_clock_hz s') = length (bus_clock_hz s)
     \<and> cs_setup_delay_ns s' = cs_setup_delay_ns s \<and> cs_hold_delay_ns s' = cs_hold_delay_ns s
     \<and> framescan_pin_a s' = framescan_pin_a s \<and> framescan_pin_b s' = framescan_pin_b s
     \<and> frames_sent s' = frames_sent s \<and> armed_hz s' = armed_hz s"

lemma transfer_set_trace:
  assumes "cs_pin ps \<in> set cs" "length (bus_clock_hz s) = 2"
  shows "same_cfg s (transfer_set buf bb ps s) \<and> (\<exists>es. trace (transfer_set buf bb ps s) = trace s @ es
    \<and> wire_run cs es (idle_wire xs) = Some (idle_wire (xs @
        [(cs_pin ps, 0, panel_block buf bb (panel_b0 ps)), (cs_pin ps, 1, panel_block buf bb (panel_b1 ps))])))"
  using assms
  by (auto simp: same_cfg_def transfer_set_def transferPanelSet_def beginPanelSetTransaction_def endPanelSetTransaction_def
      beginBus_def upt2 Let_def) (auto simp: idle_wire_def)

lemma same_cfg_trans: "same_cfg s t \<Longrightarrow> same_cfg t u \<Longrightarrow> same_cfg s u"
  by (simp add: same_cfg_def)

lemma transfer_sets_trace:
  assumes "\<forall>ps\<in>set pss. cs_pin ps \<in> set cs" "length (bus_clock_hz s) = 2"
  shows "same_cfg s (fold (transfer_set buf bb) pss s) \<and> (\<exists>es. trace (fold (transfer_set buf bb) pss s) = trace s @ es
    \<and> wire_run cs es (idle_wire xs) = Some (idle_wire (xs @ concat (map (\<lambda>ps.
        [(cs_pin ps, 0, panel_block buf bb (panel_b0 ps)), (cs_pin ps, 1, panel_block buf bb (panel_b1 ps))]) pss))))"
  using assms
proof (induction pss arbitrary: s xs)
  case Nil
  then show ?case by (auto simp: same_cfg_def intro: exI [of _ "[]"])
next
  case (Cons ps pss)
  let ?s = "transfer_set buf bb ps s"
  let ?xs = "xs @ [(cs_pin ps, 0, panel_block buf bb (panel_b0 ps)), (cs_pin ps, 1, panel_block buf bb (panel_b1 ps))]"
  have "cs_pin ps \<in> set cs" using Cons.prems by simp
  from transfer_set_trace [OF this Cons.prems(2), of buf bb xs] obtain es where 1: "same_cfg s ?s" "trace ?s = trace s @ es"
    "wire_run cs es (idle_wire xs) = Some (idle_wire ?xs)" by blast
  have l: "length (bus_clock_hz ?s) = 2" using 1(1) Cons.prems by (simp add: same_cfg_def)
  have a: "\<forall>ps\<in>set pss. cs_pin ps \<in> set cs" using Cons.prems by simp
  from Cons.IH [OF a l, of ?xs] obtain fs where 2: "same_cfg ?s (fold (transfer_set buf bb) pss ?s)"
    "trace (fold (transfer_set buf bb) pss ?s) = trace ?s @ fs"
    "wire_run cs fs (idle_wire ?xs) = Some (idle_wire (?xs @ concat (map (\<lambda>ps.
        [(cs_pin ps, 0, panel_block buf bb (panel_b0 ps)), (cs_pin ps, 1, panel_block buf bb (panel_b1 ps))]) pss)))"
    by blast
  have "wire_run cs (es @ fs) (idle_wire xs) = Some (idle_wire (?xs @ concat (map (\<lambda>ps.
        [(cs_pin ps, 0, panel_block buf bb (panel_b0 ps)), (cs_pin ps, 1, panel_block buf bb (panel_b1 ps))]) pss)))"
    using 1 2 by (simp add: wire_run_append)
  with 1 2 same_cfg_trans show ?case by (force intro!: exI [of _ "es @ fs"])
qed

lemma gates_ignored: "set ps \<inter> set cs = {} \<Longrightarrow> wire_run cs (map (\<lambda>p. PinWrite p v) ps) w = Some w"
  by (induction ps) auto

lemma mset_two_lists: "mset (concat (map (\<lambda>x. [f x, g x]) xs)) = mset (map f xs @ map g xs)"
  by (induction xs) auto

lemma transferFrame_trace:
  assumes cs: "cs = map cs_pin (panel_sets b)" and g: "set (gate_pins s) \<inter> set cs = {}"
    and l: "length (bus_clock_hz s) = 2" and v: "valid_block_size bb"
  shows "\<exists>es. trace (transferFrame b (Some buf) bb s) = trace s @ es
    \<and> wire_run cs es (idle_wire []) = Some (idle_wire (concat (map (\<lambda>ps.
        [(cs_pin ps, 0, panel_block buf bb (panel_b0 ps)), (cs_pin ps, 1, panel_block buf bb (panel_b1 ps))]) (panel_sets b))))
    \<and> frames_sent (transferFrame b (Some buf) bb s) = frames_sent s + 1"
proof -
  define s1 where "s1 = s\<lparr>frames_sent := frames_sent s + 1\<rparr>"
  define hi where "hi = EvMark OP_SPI_FRAME 0 # map (\<lambda>p. PinWrite p True) (gate_pins s)"
  define lo where "lo = map (\<lambda>p. PinWrite p False) (gate_pins s) @ [EvClear]"
  have gp: "gate_pins s1 = gate_pins s" by (simp add: s1_def gate_pins_def)
  have a: "\<forall>ps\<in>set (panel_sets b). cs_pin ps \<in> set cs" by (simp add: cs)
  have l1: "length (bus_clock_hz (emit hi s1)) = 2" using l by (simp add: s1_def)
  from transfer_sets_trace [OF a l1, of buf bb "[]"] obtain es where
    e: "same_cfg (emit hi s1) (fold (transfer_set buf bb) (panel_sets b) (emit hi s1))"
    "trace (fold (transfer_set buf bb) (panel_sets b) (emit hi s1)) = trace (emit hi s1) @ es"
    "wire_run cs es (idle_wire []) = Some (idle_wire (concat (map (\<lambda>ps.
        [(cs_pin ps, 0, panel_block buf bb (panel_b0 ps)), (cs_pin ps, 1, panel_block buf bb (panel_b1 ps))]) (panel_sets b))))"
    by auto
  have gf: "gate_pins (fold (transfer_set buf bb) (panel_sets b) (emit hi s1)) = gate_pins s"
    using e(1) by (simp add: same_cfg_def gate_pins_def s1_def)
  have gm: "gate_pins (emit es' s1) = gate_pins s" for es' by (simp add: gate_pins_def s1_def)
  have t: "transferFrame b (Some buf) bb s = emit lo (fold (transfer_set buf bb) (panel_sets b) (emit hi s1))"
    using v by (simp add: transferFrame_def Let_def s1_def [symmetric] gm hi_def [symmetric] gf lo_def)
  have "wire_run cs (hi @ es @ lo) (idle_wire []) = Some (idle_wire (concat (map (\<lambda>ps.
        [(cs_pin ps, 0, panel_block buf bb (panel_b0 ps)), (cs_pin ps, 1, panel_block buf bb (panel_b1 ps))]) (panel_sets b))))"
    using e(3) g by (simp add: hi_def lo_def wire_run_append gates_ignored)
  moreover have "trace (transferFrame b (Some buf) bb s) = trace s @ (hi @ es @ lo)"
    using t e(2) by (simp add: s1_def)
  moreover have "frames_sent (transferFrame b (Some buf) bb s) = frames_sent s + 1"
    using t e(1) by (simp add: same_cfg_def s1_def)
  ultimately show ?thesis by blast
qed


text \<open>The panel search finds the set and bus the map assigns, for every board.\<close>

definition route :: "panel_set list \<Rightarrow> nat \<Rightarrow> nat \<times> nat" where
  "route pss p = (case find_panel pss p of Some (ps, bus) \<Rightarrow> (cs_pin ps, bus) | None \<Rightarrow> (0, 0))"

lemma find_panel_b0:
  assumes "distinct (map_panels pss)" "ps \<in> set pss"
  shows "find_panel pss (panel_b0 ps) = Some (ps, 0)"
  using assms
proof (induction pss)
  case (Cons q pss)
  then show ?case
    by (cases "q = ps") (force simp: map_panels_def)+
qed simp

lemma find_panel_b1:
  assumes "distinct (map_panels pss)" "ps \<in> set pss"
  shows "find_panel pss (panel_b1 ps) = Some (ps, 1)"
  using assms
proof (induction pss)
  case (Cons q pss)
  then show ?case
    by (cases "q = ps") (force simp: map_panels_def)+
qed simp

lemma find_panel_None: "find_panel pss p = None \<longleftrightarrow> p \<notin> set (map_panels pss)"
  by (induction pss p rule: find_panel.induct) (auto simp: map_panels_def)

lemma find_panel_SomeD:
  "find_panel pss p = Some (ps, bus) \<Longrightarrow> ps \<in> set pss \<and> (bus = 0 \<and> panel_b0 ps = p \<or> bus = 1 \<and> panel_b1 ps = p)"
  by (induction pss p rule: find_panel.induct) (auto split: if_splits)

context arena_board
begin

lemma find_panel_total: "find_panel pss p \<noteq> None \<longleftrightarrow> p < n"
  using panels_set by (auto simp: find_panel_None)

lemma sent_routed:
  "mset (concat (map (\<lambda>ps. [(cs_pin ps, 0, blk (panel_b0 ps)), (cs_pin ps, 1, blk (panel_b1 ps))]) pss))
     = mset (map (\<lambda>p. (fst (route pss p), snd (route pss p), blk p)) [0..<n])"
proof -
  let ?g = "\<lambda>p. (fst (route pss p), snd (route pss p), blk p)"
  have 0: "map (\<lambda>ps. (cs_pin ps, 0, blk (panel_b0 ps))) pss = map (?g \<circ> panel_b0) pss"
    using find_panel_b0 [OF panels_distinct] by (simp add: route_def)
  have 1: "map (\<lambda>ps. (cs_pin ps, 1, blk (panel_b1 ps))) pss = map (?g \<circ> panel_b1) pss"
    using find_panel_b1 [OF panels_distinct] by (simp add: route_def)
  have "mset (concat (map (\<lambda>ps. [(cs_pin ps, 0, blk (panel_b0 ps)), (cs_pin ps, 1, blk (panel_b1 ps))]) pss))
      = mset (map ?g (map_panels pss))"
    unfolding mset_two_lists 0 1 by (simp add: map_panels_def)
  also have "\<dots> = mset (map ?g [0..<n])" by (metis mset_map panels_mset)
  finally show ?thesis .
qed

end

section \<open>The refresh timer\<close>

text \<open>What the PIT channel does with the accesses: its running period, and whether the
  interrupt is masked (None: the channel was stopped with its interrupt live).\<close>

fun pit_step :: "spi_ev \<Rightarrow> (u32 option \<times> bool) option \<Rightarrow> (u32 option \<times> bool) option" where
  "pit_step (TimerBegin p free) (Some (_, m)) = Some (if free then Some p else None, m)"
| "pit_step (TimerUpdate p) (Some (Some _, m)) = Some (Some p, m)"
| "pit_step (TimerUpdate p) (Some (None, m)) = None"
| "pit_step TimerEnd (Some (_, m)) = (if m then Some (None, m) else None)"
| "pit_step NvicDisablePit (Some (p, m)) = Some (p, True)"
| "pit_step NvicEnablePit (Some (p, m)) = Some (p, False)"
| "pit_step _ x = x"

definition pit_of :: "spi_ev list \<Rightarrow> (u32 option \<times> bool) option" where
  "pit_of es = fold pit_step es (Some (None, False))"

datatype timer_op = Arm bool u32 | Disarm bool | SetClock u16 | Gate int int

fun timer_step :: "timer_op \<Rightarrow> spi \<Rightarrow> spi" where
  "timer_step (Arm free hz) s = fst (armRefreshTimer free hz s)"
| "timer_step (Disarm en) s = disarmRefreshTimer en s"
| "timer_step (SetClock mhz) s = setSpiClockMhz mhz s"
| "timer_step (Gate a b) s = setFramescanGatePins a b s"

definition timer_ok :: "spi \<Rightarrow> bool" where
  "timer_ok s \<longleftrightarrow> (case pit_of (trace s) of
      Some (p, m) \<Rightarrow> p = (if armed_hz s = 0 then None else Some (microseconds_per_second div armed_hz s))
    | None \<Rightarrow> False)"

lemma timer_step_ok: "timer_ok s \<Longrightarrow> timer_ok (timer_step a s)"
  by (cases a)
    (auto simp: timer_ok_def pit_of_def armRefreshTimer_def disarmRefreshTimer_def setSpiClockMhz_def
      setFramescanGatePins_def Let_def split: option.splits if_splits)

interpretation timer: invariant_machine timer_step timer_ok
  by unfold_locales (rule timer_step_ok)

section \<open>Properties\<close>

text \<open>C15: one call of \<open>transferFrame\<close> clocks every panel's block exactly once, on the bus and under
  the chip select the board map gives that panel, and obeys the wire rules throughout: one
  chip select at a time, throwaway bytes only while none is low, no release before the DMA is
  done, all buses and selects idle at the end.\<close>

lemma frame_reaches_every_panel:
  assumes "valid_block_size bb" "length (bus_clock_hz s) = 2"
    and "set (gate_pins s) \<inter> set (map cs_pin (panel_sets b)) = {}"
  shows "\<exists>es xs. trace (transferFrame b (Some buf) bb s) = trace s @ es
    \<and> wire_run (map cs_pin (panel_sets b)) es (idle_wire []) = Some (idle_wire xs)
    \<and> mset xs = mset (map (\<lambda>p. (fst (route (panel_sets b) p), snd (route (panel_sets b) p), panel_block buf bb p))
                        [0..<panel_count_per_frame b])
    \<and> frames_sent (transferFrame b (Some buf) bb s) = frames_sent s + 1"
  using transferFrame_trace [OF refl assms(3,2,1), of buf] bd.sent_routed [where b = b and blk = "panel_block buf bb"] by blast

lemma frame_reaches_every_panel_witness:
  "\<exists>es xs. trace (transferFrame ARENA_HW_10_10 (Some (replicate 8124 7)) 203 (setFramescanGatePins 37 35 spi0)) = es
     \<and> wire_run (map cs_pin panel_sets_10_10) es (idle_wire []) = Some (idle_wire xs) \<and> length xs = 40"
proof -
  let ?s = "setFramescanGatePins 37 35 spi0"
  have v: "valid_block_size 203" by (simp add: valid_block_size_def block_byte_count_gs16_def)
  have l: "length (bus_clock_hz ?s) = 2" by (simp add: setFramescanGatePins_def spi0_def)
  have g: "set (gate_pins ?s) \<inter> set (map cs_pin (panel_sets ARENA_HW_10_10)) = {}"
    by (simp add: gate_pins_def setFramescanGatePins_def panel_sets_10_10_def)
  have t: "trace ?s = []" by (simp add: setFramescanGatePins_def spi0_def)
  from frame_reaches_every_panel [OF v l g, of "replicate 8124 7"] obtain es xs where
    1: "trace (transferFrame ARENA_HW_10_10 (Some (replicate 8124 7)) 203 ?s) = trace ?s @ es"
      "wire_run (map cs_pin (panel_sets ARENA_HW_10_10)) es (idle_wire []) = Some (idle_wire xs)"
    and 2: "mset xs = mset (map (\<lambda>p. (fst (route (panel_sets ARENA_HW_10_10) p), snd (route (panel_sets ARENA_HW_10_10) p),
        panel_block (replicate 8124 7) 203 p)) [0..<panel_count_per_frame ARENA_HW_10_10])" by blast
  from 2 have "length xs = 40"
    by (drule_tac mset_eq_length) (simp add: panel_count_per_frame_def)
  with 1 t show ?thesis by auto
qed



text \<open>The commanded clock is clamped to 1..30 MHz and the CS setup and hold delays are the
  nanoseconds of 2 and 25 clock periods rounded down, never zero, without overflow.\<close>

lemma spi_clock_bounds:
  "let s' = setSpiClockMhz mhz s; m = max 1 (min 30 (unat mhz))
   in unat (spi_clock_hz s') = m * 1000000 \<and> unat (getSpiClockMhz s') = m
    \<and> unat (cs_setup_delay_ns s') = 2000 div m \<and> unat (cs_hold_delay_ns s') = 25000 div m
    \<and> 66 \<le> unat (cs_setup_delay_ns s') \<and> 833 \<le> unat (cs_hold_delay_ns s')"
proof -
  define m where "m = (if mhz < 1 then 1 else if 30 < mhz then 30 else mhz)"
  have mu: "unat m = max 1 (min 30 (unat mhz))"
    by (auto simp: m_def word_less_nat_alt min_def max_def)
  define k where "k = unat m"
  have k: "1 \<le> k" "k \<le> 30" by (simp_all add: k_def mu)
  have s': "setSpiClockMhz mhz s = s\<lparr>spi_clock_hz := ucast m * 1000000,
      cs_setup_delay_ns := delay_ns cs_setup_sck_periods (ucast m * 1000000),
      cs_hold_delay_ns := delay_ns cs_hold_sck_periods (ucast m * 1000000)\<rparr>"
    by (auto simp: setSpiClockMhz_def Let_def m_def word_less_nat_alt)
  have hz: "unat (ucast m * 1000000 :: u32) = k * 1000000"
    using k by (simp add: unat_word_ariths unat_ucast_eq k_def)
  have u64: "unat (ucast (ucast m * 1000000 :: u32) :: u64) = k * 1000000"
    using hz k by (simp add: unat_ucast_eq)
  have d: "unat (delay_ns q (ucast m * 1000000)) = (1000000000 * unat q) div (k * 1000000)"
    if "unat q \<le> 25" for q
  proof -
    have q: "unat (1000000000 * q :: u64) = 1000000000 * unat q"
      using that by (simp add: unat_word_ariths)
    have "1000000000 * unat q div (k * 1000000) \<le> 1000000000 * unat q div 1000000"
      using k by (intro div_le_mono2) simp_all
    then have "1000000000 * unat q div (k * 1000000) < 4294967296" using that by linarith
    moreover have "k * 1000000 mod 18446744073709551616 = k * 1000000" using k by simp
    ultimately show ?thesis
      unfolding delay_ns_def by (simp add: unat_ucast_eq unat_div q hz del: div_mult_mult2)
  qed
  have dd: "2000000000 div (k * 1000000) = 2000 div k" "25000000000 div (k * 1000000) = 25000 div k"
    using div_mult_mult2 [of 1000000 2000 k] div_mult_mult2 [of 1000000 25000 k] by simp_all
  have lo: "66 \<le> 2000 div k" "833 \<le> 25000 div k"
    using div_le_mono2 [of k 30 2000] div_le_mono2 [of k 30 25000] k by simp_all
  have g: "unat (ucast ((ucast m * 1000000 :: u32) div 1000000) :: u16) = k"
    using k by (simp add: unat_ucast_eq unat_div hz)
  have mk: "max 1 (min 30 (unat mhz)) = k" by (simp only: k_def mu)
  have su: "unat (delay_ns cs_setup_sck_periods (ucast m * 1000000)) = 2000 div k"
    using d [of cs_setup_sck_periods] dd(1) by (simp add: cs_setup_sck_periods_def del: div_mult_mult2)
  have ho: "unat (delay_ns cs_hold_sck_periods (ucast m * 1000000)) = 25000 div k"
    using d [of cs_hold_sck_periods] dd(2) by (simp add: cs_hold_sck_periods_def del: div_mult_mult2)
  show ?thesis
    unfolding Let_def mk s' getSpiClockMhz_def by (simp add: su ho lo hz g del: One_nat_def)
qed


end
