(* ===== verification/Transport.thy ===== *)
theory Transport
  imports Board Health
begin

text \<open>
  \<open>src/src/MessageSource.h\<close>, \<open>SerialManager.cpp\<close> and \<open>NetworkManager.cpp\<close>: the two command
  sources. Both keep a receive buffer, one parsed command and one queued reply, and share the
  framing; they differ in how they read, flush and write raw bytes.

  The USB pipe and the TCP client are outside the source: the bytes waiting in them are the
  argument \<open>pipe\<close>, the free transmit space and the clock are arguments, and the bytes written
  are appended to \<open>wire_out\<close>, the breadcrumb marks (None: clear) to \<open>usb_marks\<close>. The buffers are lists of their full capacity, so that bytes past
  \<open>rx_len\<close> are the stale ones the code would read.
\<close>

section \<open>State\<close>

definition RX_BUF_SIZE :: "arena_hw \<Rightarrow> nat" where
  "RX_BUF_SIZE b = stream_header_byte_count + frame_buf_byte_count_max b + 16"

definition RESP_BUF_SIZE :: nat where "RESP_BUF_SIZE = byte_count_per_response_max"

record parsed_command =
  pc_cmd :: byte
  pc_data :: "byte list"
  data_len :: nat
  is_stream :: bool
  is_bulk :: bool
  bulk_payload_len :: u32

record source =
  rx_buf :: "byte list"
  rx_len :: nat
  parsed_cmd :: parsed_command
  cmd_ready :: bool
  resp_buf :: "byte list"
  resp_len :: nat
  wire_out :: "byte list"
  usb_marks :: "(byte \<times> byte) option list"

definition STREAM_FRAME_CMD :: byte where "STREAM_FRAME_CMD = 0x32"
definition SET_PATTERN_FILENAME_CMD :: byte where "SET_PATTERN_FILENAME_CMD = 0x83"
definition SET_PATTERN_FILE_CMD :: byte where "SET_PATTERN_FILE_CMD = 0x85"
definition SET_FIRMWARE_FILE_CMD :: byte where "SET_FIRMWARE_FILE_CMD = 0xE0"

definition hasCommand :: "source \<Rightarrow> bool" where "hasCommand s = cmd_ready s"

definition commandConsumed :: "source \<Rightarrow> source" where
  "commandConsumed s = s\<lparr>cmd_ready := False\<rparr>"

definition lastResponseStatus :: "source \<Rightarrow> byte" where
  "lastResponseStatus s = (if 0 < resp_len s then resp_buf s ! 1 else 0xFF)"

section \<open>Receiving\<close>

text \<open>\<open>readBytes(rx_buf_ + rx_len_, to_read)\<close> of the bytes waiting in the pipe.\<close>

definition top_up :: "arena_hw \<Rightarrow> byte list \<times> source \<Rightarrow> byte list \<times> source" where
  "top_up b = (\<lambda>(pipe, s).
     let to_read = min (length pipe) (RX_BUF_SIZE b - rx_len s)
     in (drop to_read pipe, s\<lparr>rx_buf := blit (rx_buf s) (rx_len s) (take to_read pipe), rx_len := rx_len s + to_read\<rparr>))"

text \<open>Drop \<open>n\<close> consumed bytes from the front of the receive buffer.\<close>

definition rx_consume :: "nat \<Rightarrow> source \<Rightarrow> source" where
  "rx_consume n s = s\<lparr>rx_buf := (if n < rx_len s then blit (rx_buf s) 0 (slice (rx_buf s) n (rx_len s - n)) else rx_buf s),
                     rx_len := rx_len s - n\<rparr>"

definition accept :: "byte \<Rightarrow> bool \<Rightarrow> bool \<Rightarrow> u32 \<Rightarrow> nat \<Rightarrow> byte list \<Rightarrow> source \<Rightarrow> source" where
  "accept c stream bulk blen dlen hdr s =
     s\<lparr>parsed_cmd := \<lparr>pc_cmd = c, pc_data = blit (pc_data (parsed_cmd s)) 0 hdr, data_len = dlen,
         is_stream = stream, is_bulk = bulk, bulk_payload_len = blen\<rparr>, cmd_ready := True\<rparr>"

definition parse_stream :: "arena_hw \<Rightarrow> source \<Rightarrow> source" where
  "parse_stream b s =
     (if rx_len s < stream_header_byte_count then s
      else
        let claimed_len = unat (get16 (rx_buf s ! 1) (rx_buf s ! 2));
            total_needed = stream_header_byte_count + claimed_len
        in if RX_BUF_SIZE b < total_needed then s\<lparr>rx_len := 0\<rparr>
           else if rx_len s < total_needed then s
           else rx_consume total_needed
                  (accept STREAM_FRAME_CMD True False 0 total_needed (take total_needed (rx_buf s)) s))"

definition parse_binary :: "source \<Rightarrow> source" where
  "parse_binary s =
     (let total_needed = 1 + unat (rx_buf s ! 0)
      in if rx_len s < total_needed then s
         else rx_consume total_needed
                (accept (rx_buf s ! 1) False False 0 total_needed (take total_needed (rx_buf s)) s))"

definition parse_bulk :: "byte \<Rightarrow> nat \<Rightarrow> nat \<Rightarrow> source \<Rightarrow> source" where
  "parse_bulk c hdr len_off s =
     (if rx_len s < hdr then s
      else
        let len_lo = get32 (rx_buf s ! len_off) (rx_buf s ! (len_off + 1)) (rx_buf s ! (len_off + 2)) (rx_buf s ! (len_off + 3))
        in rx_consume hdr (accept c False True len_lo hdr (take hdr (rx_buf s)) s))"

definition parse_rename :: "source \<Rightarrow> source" where
  "parse_rename s =
     (if rx_len s < 4 then s
      else
        let name_len = unat (rx_buf s ! 3)
        in if name_len = 0 \<or> pattern_name_byte_count \<le> name_len then s\<lparr>rx_len := 0\<rparr>
           else
             let total_needed = 4 + name_len
             in if rx_len s < total_needed then s
                else rx_consume total_needed
                       (accept SET_PATTERN_FILENAME_CMD False False 0 (total_needed + 1)
                          (of_nat total_needed # take total_needed (rx_buf s)) s))"

definition parseIncoming :: "arena_hw \<Rightarrow> source \<Rightarrow> source" where
  "parseIncoming b s =
     (let first_byte = rx_buf s ! 0
      in if first_byte = STREAM_FRAME_CMD then parse_stream b s
         else if first_byte \<le> first_command_byte_max_value_binary then parse_binary s
         else if first_byte = SET_PATTERN_FILE_CMD then parse_bulk SET_PATTERN_FILE_CMD 11 3 s
         else if first_byte = SET_FIRMWARE_FILE_CMD then parse_bulk SET_FIRMWARE_FILE_CMD 9 1 s
         else if first_byte = SET_PATTERN_FILENAME_CMD then parse_rename s
         else s\<lparr>rx_len := 0\<rparr>)"

definition serviceUsb :: "arena_hw \<Rightarrow> byte list \<times> source \<Rightarrow> byte list \<times> source" where
  "serviceUsb b = (\<lambda>(pipe, s).
     if cmd_ready s then (pipe, s)
     else
       let (pipe, s) = top_up b (pipe, s)
       in if rx_len s = 0 then (pipe, s) else (pipe, parseIncoming b s))"

text \<open>
  TCP: \<open>connected\<close> is the state of the client slot; on a dead slot the receive state is dropped
  and \<open>accepted\<close> says whether a new client was waiting (with its own pipe).
\<close>

definition serviceTcp :: "arena_hw \<Rightarrow> bool \<Rightarrow> byte list option \<Rightarrow> byte list \<times> source \<Rightarrow> bool \<times> byte list \<times> source" where
  "serviceTcp b connected accepted = (\<lambda>(pipe, s).
     let (connected, pipe, s) =
           (if connected then (True, pipe, s)
            else let s = s\<lparr>rx_len := 0, cmd_ready := False\<rparr>
                 in case accepted of None \<Rightarrow> (False, pipe, s) | Some p \<Rightarrow> (True, p, s))
     in if \<not> connected \<or> cmd_ready s then (connected, pipe, s)
        else
          let (pipe, s) = top_up b (pipe, s)
          in (connected, pipe, if rx_len s = 0 then s else parseIncoming b s))"

section \<open>Bulk bodies\<close>

definition take_rx :: "nat \<Rightarrow> source \<Rightarrow> byte list \<times> source" where
  "take_rx max_len s =
     (let n = min (rx_len s) max_len
      in (take n (rx_buf s), if 0 < n then rx_consume n s else s))"

definition readBulkBytes_usb :: "arena_hw \<Rightarrow> nat \<Rightarrow> byte list \<times> source \<Rightarrow> byte list \<times> byte list \<times> source" where
  "readBulkBytes_usb b max_len ps =
     (let (pipe, s) = top_up b ps; (bs, s) = take_rx max_len s in (bs, pipe, s))"

definition readBulkBytes_tcp :: "bool \<Rightarrow> nat \<Rightarrow> byte list \<times> source \<Rightarrow> byte list \<times> byte list \<times> source" where
  "readBulkBytes_tcp connected max_len = (\<lambda>(pipe, s).
     if 0 < rx_len s then (let (bs, s) = take_rx max_len s in (bs, pipe, s))
     else if connected then
       let n = min (length pipe) max_len in (take n pipe, drop n pipe, s)
     else ([], pipe, s))"

section \<open>Replies\<close>

definition sendResponse :: "byte \<Rightarrow> byte \<Rightarrow> byte list \<Rightarrow> source \<Rightarrow> source" where
  "sendResponse cmd_echo status payload s =
     (let kept = (if payload \<noteq> [] \<and> 3 + length payload < RESP_BUF_SIZE then payload else []);
          count = 3 + length kept
      in s\<lparr>resp_buf := blit (resp_buf s) 0 ([of_nat (count - 1), status, cmd_echo] @ kept), resp_len := count\<rparr>)"

text \<open>\<open>room\<close> is \<open>Serial.availableForWrite()\<close>.\<close>

definition flushResponses_usb :: "int \<Rightarrow> source \<Rightarrow> source" where
  "flushResponses_usb room s =
     (if resp_len s = 0 then s
      else if room < int (resp_len s) then s
      else
        let s = s\<lparr>usb_marks := usb_marks s @ [Some (OP_USB_WRITE, 0)]\<rparr>;
            s = s\<lparr>wire_out := wire_out s @ take (resp_len s) (resp_buf s)\<rparr>
        in s\<lparr>usb_marks := usb_marks s @ [None], resp_len := 0\<rparr>)"

definition flushResponses_tcp :: "bool \<Rightarrow> source \<Rightarrow> source" where
  "flushResponses_tcp connected s =
     (if \<not> connected then s
      else if resp_len s = 0 then s
      else s\<lparr>wire_out := wire_out s @ take (resp_len s) (resp_buf s), resp_len := 0\<rparr>)"

section \<open>Raw writes\<close>

text \<open>
  The pacing loops. Iteration \<open>i\<close> observes the clock and the free transmit space; a step either
  stops or goes on with a new offset and stall deadline. The fuel bounds the number of
  iterations; None means it ran out.
\<close>

definition kStallTimeoutMs :: u32 where "kStallTimeoutMs = 2000"

datatype paced = Stop | Go nat u32

definition usb_step :: "nat \<Rightarrow> int \<times> u32 \<Rightarrow> nat \<Rightarrow> u32 \<Rightarrow> paced" where
  "usb_step len = (\<lambda>(room, now) off deadline.
     if room \<le> 0 then (if expired now deadline then Stop else Go off deadline)
     else let n = (if room < int (len - off) then nat room else len - off)
          in Go (off + n) (now + kStallTimeoutMs))"

text \<open>A TCP observation also has the connection state and what \<open>write\<close> accepted.\<close>

definition tcp_step :: "nat \<Rightarrow> bool \<times> int \<times> nat \<times> u32 \<Rightarrow> nat \<Rightarrow> u32 \<Rightarrow> paced" where
  "tcp_step len = (\<lambda>(connected, room, accepted, now) off deadline.
     if \<not> connected then Stop
     else if room \<le> 0 then (if expired now deadline then Stop else Go off deadline)
     else let want = (if room < int (len - off) then nat room else len - off);
              n = min accepted want
          in if 0 < n then Go (off + n) (now + kStallTimeoutMs)
             else if expired now deadline then Stop else Go off deadline)"

fun send_loop :: "('o \<Rightarrow> nat \<Rightarrow> u32 \<Rightarrow> paced) \<Rightarrow> (nat \<Rightarrow> 'o) \<Rightarrow> nat \<Rightarrow> nat \<Rightarrow> nat \<Rightarrow> nat \<Rightarrow> u32 \<Rightarrow> nat option" where
  "send_loop step obs len 0 i off deadline = (if off < len then None else Some off)"
| "send_loop step obs len (Suc fuel) i off deadline =
     (if off < len then
        (case step (obs i) off deadline of
           Stop \<Rightarrow> Some off
         | Go off' deadline' \<Rightarrow> send_loop step obs len fuel (Suc i) off' deadline')
      else Some off)"

text \<open>The USB source first waits, at most five seconds, for its queued reply to leave. (The
  watchdog kicks of both loops touch no state of the source.)\<close>

fun flush_wait :: "(nat \<Rightarrow> int \<times> u32) \<Rightarrow> u32 \<Rightarrow> nat \<Rightarrow> nat \<Rightarrow> source \<Rightarrow> (nat \<times> source) option" where
  "flush_wait obs deadline 0 i s = (if resp_len s = 0 then Some (i, s) else None)"
| "flush_wait obs deadline (Suc fuel) i s =
     (if 0 < resp_len s \<and> \<not> expired (snd (obs i)) deadline
      then flush_wait obs deadline fuel (Suc i) (flushResponses_usb (fst (obs i)) s)
      else Some (i, s))"

definition sendRaw_usb :: "(nat \<Rightarrow> int \<times> u32) \<Rightarrow> nat \<Rightarrow> nat \<Rightarrow> u32 \<Rightarrow> byte list \<Rightarrow> source \<Rightarrow> (nat \<times> source) option" where
  "sendRaw_usb obs flush_fuel fuel now buf s =
     Option.bind (flush_wait obs (now + 5000) flush_fuel 0 s) (\<lambda>(i, s).
       if buf = [] then Some (0, s)
       else Option.bind (send_loop (usb_step (length buf)) obs (length buf) fuel (Suc i) 0 (snd (obs i) + kStallTimeoutMs))
              (\<lambda>off. Some (off, s\<lparr>wire_out := wire_out s @ take off buf\<rparr>)))"

definition sendRaw_tcp :: "bool \<Rightarrow> (nat \<Rightarrow> bool \<times> int \<times> nat \<times> u32) \<Rightarrow> nat \<Rightarrow> u32 \<Rightarrow> byte list \<Rightarrow> source \<Rightarrow> (nat \<times> source) option" where
  "sendRaw_tcp connected obs fuel now buf s =
     (let s = flushResponses_tcp connected s
      in if buf = [] \<or> \<not> connected then Some (0, s)
         else Option.bind (send_loop (tcp_step (length buf)) obs (length buf) fuel 0 0 (now + kStallTimeoutMs))
                (\<lambda>off. Some (off, s\<lparr>wire_out := wire_out s @ take off buf\<rparr>)))"

text \<open>A source at boot.\<close>

definition source0 :: "arena_hw \<Rightarrow> source" where
  "source0 b = \<lparr>rx_buf = replicate (RX_BUF_SIZE b) 0, rx_len = 0,
     parsed_cmd = \<lparr>pc_cmd = 0, pc_data = replicate (RX_BUF_SIZE b) 0, data_len = 0, is_stream = False,
       is_bulk = False, bulk_payload_len = 0\<rparr>, cmd_ready = False,
     resp_buf = replicate RESP_BUF_SIZE 0, resp_len = 0, wire_out = [], usb_marks = []\<rparr>"

end
