(* ===== verification/TransportProps.thy ===== *)
theory TransportProps
  imports Transport
begin

text \<open>
  Memory safety of the receive and reply buffers, the round trip of the framing (any chunking
  of the byte stream), the reply frame, and the termination of the paced raw writes.
\<close>

section \<open>Buffers stay in bounds\<close>

lemma rx_size_bounds: "4083 \<le> RX_BUF_SIZE b" "RX_BUF_SIZE b \<le> 9767"
  using frame_max_bounds [of b] by (simp_all add: RX_BUF_SIZE_def stream_header_byte_count_def)

definition source_ok :: "arena_hw \<Rightarrow> source \<Rightarrow> bool" where
  "source_ok b s \<longleftrightarrow> length (rx_buf s) = RX_BUF_SIZE b \<and> rx_len s \<le> RX_BUF_SIZE b
     \<and> length (pc_data (parsed_cmd s)) = RX_BUF_SIZE b \<and> data_len (parsed_cmd s) \<le> RX_BUF_SIZE b
     \<and> length (resp_buf s) = RESP_BUF_SIZE
     \<and> (resp_len s = 0 \<or> 3 \<le> resp_len s \<and> resp_len s < RESP_BUF_SIZE \<and> unat (resp_buf s ! 0) + 1 = resp_len s)"

lemma source_okI [intro?]:
  assumes "source_ok b s" "length (rx_buf s') = length (rx_buf s)" "rx_len s' \<le> rx_len s"
    "parsed_cmd s' = parsed_cmd s" "resp_buf s' = resp_buf s" "resp_len s' = resp_len s"
  shows "source_ok b s'"
  using assms by (simp add: source_ok_def)

lemma rx_consume_ok:
  assumes "source_ok b s" "n \<le> rx_len s"
  shows "source_ok b (rx_consume n s)"
  using assms by (auto simp: source_ok_def rx_consume_def slice_def blit_def)

lemma accept_ok:
  assumes "source_ok b s" "length hdr \<le> RX_BUF_SIZE b" "dlen \<le> RX_BUF_SIZE b"
  shows "source_ok b (accept c st bu bl dlen hdr s)"
  using assms by (simp add: source_ok_def accept_def)

lemma accept_simps [simp]:
  "rx_len (accept c st bu bl dlen hdr s) = rx_len s" "rx_buf (accept c st bu bl dlen hdr s) = rx_buf s"
  "cmd_ready (accept c st bu bl dlen hdr s)"
  "parsed_cmd (rx_consume n s) = parsed_cmd s" "cmd_ready (rx_consume n s) = cmd_ready s"
  "rx_len (rx_consume n s) = rx_len s - n"
  by (simp_all add: accept_def rx_consume_def)

lemma drop_rx_ok: "source_ok b s \<Longrightarrow> source_ok b (s\<lparr>rx_len := 0\<rparr>)"
  by (simp add: source_ok_def)

lemma unat_byte_le: "unat (x :: byte) \<le> 255"
  using unat_u8_less [of x] by linarith

lemma parseIncoming_ok: "source_ok b s \<Longrightarrow> source_ok b (parseIncoming b s)"
proof -
  assume ok: "source_ok b s"
  then have len: "length (rx_buf s) = RX_BUF_SIZE b" by (simp add: source_ok_def)
  note sz = rx_size_bounds [of b]
  have st: "source_ok b (parse_stream b s)"
    using ok len by (auto simp: parse_stream_def Let_def not_le not_less intro!: rx_consume_ok accept_ok drop_rx_ok)
  have bi: "source_ok b (parse_binary s)"
    using ok len sz unat_byte_le [of "rx_buf s ! 0"]
    by (auto simp: parse_binary_def Let_def not_less intro!: rx_consume_ok accept_ok)
  have bu: "source_ok b (parse_bulk c h l s)" if "h \<le> 11" for c h l
    using that ok len sz by (auto simp: parse_bulk_def Let_def not_less intro!: rx_consume_ok accept_ok)
  have re: "source_ok b (parse_rename s)"
    using ok len sz unat_byte_le [of "rx_buf s ! 3"]
    by (auto simp: parse_rename_def Let_def not_less not_le pattern_name_byte_count_def
        intro!: rx_consume_ok accept_ok drop_rx_ok)
  show ?thesis
    using ok by (auto simp: parseIncoming_def Let_def st bi bu re intro: drop_rx_ok)
qed

lemma top_up_ok:
  assumes "source_ok b s"
  shows "source_ok b (snd (top_up b (pipe, s)))"
  using assms by (auto simp: top_up_def Let_def source_ok_def min_def)

lemma take_rx_ok: "source_ok b s \<Longrightarrow> source_ok b (snd (take_rx n s))"
  by (auto simp: take_rx_def Let_def intro: rx_consume_ok)

text \<open>The payload a reply keeps: nothing when it would not fit the buffer.\<close>

definition kept :: "byte list \<Rightarrow> byte list" where
  "kept p = (if p \<noteq> [] \<and> 3 + length p < RESP_BUF_SIZE then p else [])"

lemma kept_len: "3 + length (kept p) < 200"
  by (simp add: kept_def RESP_BUF_SIZE_def byte_count_per_response_max_def)

lemma sendResponse_eq:
  "sendResponse c st p s = s\<lparr>resp_buf := blit (resp_buf s) 0 (of_nat (2 + length (kept p)) # st # c # kept p),
     resp_len := 3 + length (kept p)\<rparr>"
  by (simp add: sendResponse_def kept_def Let_def)

lemma small_byte: "n < 256 \<Longrightarrow> unat (of_nat n :: byte) = n"
  by (simp only: unsigned_of_nat take_bit_eq_mod) simp

lemma sendResponse_ok:
  assumes "source_ok b s"
  shows "source_ok b (sendResponse c st p s)"
proof -
  have l: "length (resp_buf s) = 200"
    using assms by (simp add: source_ok_def RESP_BUF_SIZE_def byte_count_per_response_max_def)
  obtain q where q: "q = kept p" "3 + length q < 200" using kept_len by blast
  have u: "unat (of_nat (2 + length q) :: byte) = 2 + length q" using q by (intro small_byte) simp
  have r: "resp_buf (sendResponse c st p s) = blit (resp_buf s) 0 (of_nat (2 + length q) # st # c # q)"
    "resp_len (sendResponse c st p s) = 3 + length q" "rx_buf (sendResponse c st p s) = rx_buf s"
    "rx_len (sendResponse c st p s) = rx_len s" "parsed_cmd (sendResponse c st p s) = parsed_cmd s"
    by (simp_all only: sendResponse_eq q) simp_all
  have z: "blit (resp_buf s) 0 (of_nat (2 + length q) # st # c # q) ! 0 = of_nat (2 + length q)"
    by (simp add: blit_def)
  have y: "length (blit (resp_buf s) 0 (of_nat (2 + length q) # st # c # q)) = 200"
    using q(2) l by simp
  show ?thesis
    unfolding source_ok_def r z u y
    using assms q(2) by (auto simp: source_ok_def RESP_BUF_SIZE_def byte_count_per_response_max_def)
qed

lemma small_ops_ok:
  "source_ok b s \<Longrightarrow> source_ok b (commandConsumed s)" "source_ok b s \<Longrightarrow> source_ok b (flushResponses_usb room s)"
  "source_ok b s \<Longrightarrow> source_ok b (flushResponses_tcp conn s)"
  by (auto simp: commandConsumed_def flushResponses_usb_def flushResponses_tcp_def Let_def source_ok_def)

datatype src_op =
    ServiceUsb "byte list"
  | ServiceTcp bool "byte list option" "byte list"
  | Consume
  | ReadBulkUsb nat "byte list"
  | ReadBulkTcp bool nat "byte list"
  | Send byte byte "byte list"
  | FlushUsb int
  | FlushTcp bool

fun src_step :: "arena_hw \<Rightarrow> src_op \<Rightarrow> source \<Rightarrow> source" where
  "src_step b (ServiceUsb pipe) s = snd (serviceUsb b (pipe, s))"
| "src_step b (ServiceTcp conn acc pipe) s = snd (snd (serviceTcp b conn acc (pipe, s)))"
| "src_step b Consume s = commandConsumed s"
| "src_step b (ReadBulkUsb n pipe) s = snd (snd (readBulkBytes_usb b n (pipe, s)))"
| "src_step b (ReadBulkTcp conn n pipe) s = snd (snd (readBulkBytes_tcp conn n (pipe, s)))"
| "src_step b (Send c st p) s = sendResponse c st p s"
| "src_step b (FlushUsb room) s = flushResponses_usb room s"
| "src_step b (FlushTcp conn) s = flushResponses_tcp conn s"

lemma serviceUsb_ok: "source_ok b s \<Longrightarrow> source_ok b (snd (serviceUsb b (pipe, s)))"
  using top_up_ok [of b s pipe] by (auto simp: serviceUsb_def split: prod.splits intro: parseIncoming_ok)

lemma serviceTcp_ok: "source_ok b s \<Longrightarrow> source_ok b (snd (snd (serviceTcp b conn acc (pipe, s))))"
proof -
  assume ok: "source_ok b s"
  have r: "source_ok b (s\<lparr>rx_len := 0, cmd_ready := False\<rparr>)" using ok by (simp add: source_ok_def)
  show ?thesis
    using ok r by (cases acc) (auto simp: serviceTcp_def Let_def case_prod_beta intro: parseIncoming_ok top_up_ok)
qed

lemma src_step_ok: "source_ok b s \<Longrightarrow> source_ok b (src_step b a s)"
proof (cases a)
  case (ReadBulkUsb n pipe)
  assume "source_ok b s"
  then show ?thesis
    using ReadBulkUsb take_rx_ok [OF top_up_ok [of b s pipe], of n]
    by (simp add: readBulkBytes_usb_def case_prod_beta)
next
  case (ReadBulkTcp c n pipe)
  assume "source_ok b s"
  then show ?thesis
    using ReadBulkTcp take_rx_ok [of b s n] by (simp add: readBulkBytes_tcp_def case_prod_beta Let_def)
qed (simp_all add: serviceUsb_ok serviceTcp_ok sendResponse_ok small_ops_ok)

interpretation src: invariant_machine "src_step b" "source_ok b" for b
  by unfold_locales (rule src_step_ok)


section \<open>The host side of the framing\<close>

datatype host_msg =
    Binary byte "byte list"
  | Stream "byte list"
  | Upload u16 u32 u32
  | Firmware u32 u32
  | Rename u16 "byte list"

fun encode :: "host_msg \<Rightarrow> byte list" where
  "encode (Binary c ps) = of_nat (1 + length ps) # c # ps"
| "encode (Stream pl) = STREAM_FRAME_CMD # put16 (of_nat (length pl)) @ pl"
| "encode (Upload idx lo hi) = SET_PATTERN_FILE_CMD # put16 idx @ put32 lo @ put32 hi"
| "encode (Firmware lo hi) = SET_FIRMWARE_FILE_CMD # put32 lo @ put32 hi"
| "encode (Rename idx name) = SET_PATTERN_FILENAME_CMD # put16 idx @ of_nat (length name) # name"

fun wf_msg :: "arena_hw \<Rightarrow> host_msg \<Rightarrow> bool" where
  "wf_msg b (Binary c ps) \<longleftrightarrow> length ps < 49"
| "wf_msg b (Stream pl) \<longleftrightarrow> length pl \<le> frame_buf_byte_count_max b + 16"
| "wf_msg b (Upload idx lo hi) \<longleftrightarrow> True"
| "wf_msg b (Firmware lo hi) \<longleftrightarrow> True"
| "wf_msg b (Rename idx name) \<longleftrightarrow> 0 < length name \<and> length name < 64"

text \<open>What the command processor sees of a parsed command.\<close>

type_synonym cmd_view = "byte \<times> byte list \<times> bool \<times> bool \<times> u32"

definition view :: "parsed_command \<Rightarrow> cmd_view" where
  "view p = (pc_cmd p, take (data_len p) (pc_data p), is_stream p, is_bulk p, bulk_payload_len p)"

fun msg_view :: "host_msg \<Rightarrow> cmd_view" where
  "msg_view (Binary c ps) = (c, encode (Binary c ps), False, False, 0)"
| "msg_view (Stream pl) = (STREAM_FRAME_CMD, encode (Stream pl), True, False, 0)"
| "msg_view (Upload idx lo hi) = (SET_PATTERN_FILE_CMD, encode (Upload idx lo hi), False, True, lo)"
| "msg_view (Firmware lo hi) = (SET_FIRMWARE_FILE_CMD, encode (Firmware lo hi), False, True, lo)"
| "msg_view (Rename idx name) =
     (SET_PATTERN_FILENAME_CMD, of_nat (4 + length name) # encode (Rename idx name), False, False, 0)"

definition content :: "source \<Rightarrow> byte list" where
  "content s = take (rx_len s) (rx_buf s)"

lemma content_len: "source_ok b s \<Longrightarrow> length (content s) = rx_len s"
  by (simp add: content_def source_ok_def)

lemma content_nth: "source_ok b s \<Longrightarrow> i < rx_len s \<Longrightarrow> rx_buf s ! i = content s ! i"
  by (simp add: content_def)

lemma content_consume:
  assumes "source_ok b s" "n \<le> rx_len s"
  shows "content (rx_consume n s) = drop n (content s)"
  using assms by (auto simp: content_def rx_consume_def source_ok_def blit_def slice_def drop_take)

lemma content_accept [simp]: "content (accept c st bu bl d h s) = content s"
  by (simp add: content_def)

lemma take_rx_buf: "source_ok b s \<Longrightarrow> n \<le> rx_len s \<Longrightarrow> take n (rx_buf s) = take n (content s)"
  by (simp add: content_def min_def)

text \<open>A message taken off the buffer: the view the processor gets and what stays behind.\<close>

lemma accepted:
  assumes ok: "source_ok b s" and n: "n \<le> rx_len s" and hdr: "length hdr = d" "d \<le> RX_BUF_SIZE b"
  shows "let s' = rx_consume n (accept c st bu bl d hdr s)
         in cmd_ready s' \<and> view (parsed_cmd s') = (c, hdr, st, bu, bl) \<and> content s' = drop n (content s)"
proof -
  have "source_ok b (accept c st bu bl d hdr s)" using accept_ok [OF ok] hdr by simp
  then have "content (rx_consume n (accept c st bu bl d hdr s)) = drop n (content s)"
    using content_consume n by fastforce
  moreover have "view (parsed_cmd (accept c st bu bl d hdr s)) = (c, hdr, st, bu, bl)"
    using ok hdr by (simp add: accept_def view_def blit_def source_ok_def)
  ultimately show ?thesis by (simp add: Let_def)
qed

lemma small_u16: "n < 65536 \<Longrightarrow> unat (of_nat n :: u16) = n"
  by (simp only: unsigned_of_nat take_bit_eq_mod) simp

lemma byte_le_iff: "n < 256 \<Longrightarrow> (of_nat n :: byte) \<le> 0x32 \<longleftrightarrow> n \<le> 50"
  by (simp add: word_le_nat_alt small_byte)

lemma byte_eq_iff: "n < 256 \<Longrightarrow> (of_nat n :: byte) = 0x32 \<longleftrightarrow> n = 50"
proof -
  assume n: "n < 256"
  have "(of_nat n :: byte) = 0x32 \<longleftrightarrow> unat (of_nat n :: byte) = unat (0x32 :: byte)"
    by (rule word_unat_eq_iff)
  with n show ?thesis by (simp add: small_byte)
qed

lemmas opcode_defs = STREAM_FRAME_CMD_def SET_PATTERN_FILENAME_CMD_def SET_PATTERN_FILE_CMD_def
  SET_FIRMWARE_FILE_CMD_def first_command_byte_max_value_binary_def stream_header_byte_count_def
  pattern_name_byte_count_def

lemma get16_list: "put16 v = [x, y] \<Longrightarrow> get16 x y = v"
  using get16_put16 [of v] by simp

lemma put_explode: "\<exists>x y. put16 v = [x, y]" "\<exists>p q r s. put32 w = [p, q, r, s]"
  by (simp_all add: put16_def put32_def)

lemma get32_list: "put32 w = [p, q, r, s] \<Longrightarrow> get32 p q r s = w"
  using get32_put32 [of w] by simp

lemma encode_len_bound: "wf_msg b m \<Longrightarrow> length (encode m) \<le> RX_BUF_SIZE b"
  using rx_size_bounds [of b] by (cases m) (auto simp: RX_BUF_SIZE_def stream_header_byte_count_def)


text \<open>With the whole message in front the parser takes exactly it.\<close>

lemma parse_complete:
  assumes ok: "source_ok b s" and wf: "wf_msg b m" and c: "content s = encode m @ rest"
  shows "let s' = parseIncoming b s
         in cmd_ready s' \<and> view (parsed_cmd s') = msg_view m \<and> content s' = rest"
proof -
  have len: "rx_len s = length (encode m) + length rest" using content_len [OF ok] c by simp
  have nth: "rx_buf s ! i = (encode m @ rest) ! i" if "i < length (encode m)" for i
    using content_nth [OF ok, of i] that len c by simp
  have tk: "take (length (encode m)) (rx_buf s) = encode m"
    using take_rx_buf [OF ok, of "length (encode m)"] len c by simp
  have dr: "drop (length (encode m)) (content s) = rest" using c by simp
  note bound = encode_len_bound [OF wf]
  note acc = accepted [OF ok, of "length (encode m)", where hdr = "encode m" and d = "length (encode m)", unfolded dr]
  show ?thesis
  proof (cases m)
    case (Binary x ps)
    define k where "k = 1 + length ps"
    have n: "k < 50" using wf Binary by (simp add: k_def)
    have l: "length (encode m) = 1 + k" using Binary by (simp add: k_def)
    have f: "rx_buf s ! 0 = of_nat k" "rx_buf s ! Suc 0 = x"
      using nth [of 0] nth [of 1] l Binary by (simp_all add: k_def)
    have u: "unat (of_nat k :: byte) = k" using n by (intro small_byte) simp
    have p: "parseIncoming b s = rx_consume (1 + k) (accept x False False 0 (1 + k) (encode m) s)"
      using n byte_le_iff [of k] byte_eq_iff [of k] len l tk
      by (simp add: parseIncoming_def parse_binary_def f u opcode_defs Let_def)
    show ?thesis using acc [of x False False 0] bound len p l Binary by (auto simp: Let_def k_def)
  next
    case (Stream pl)
    obtain u v where uv: "put16 (of_nat (length pl)) = [u, v]" using put_explode by blast
    have n: "length pl < 65536" using wf Stream frame_max_bounds [of b] by simp
    have l: "length (encode m) = 3 + length pl" using Stream by simp
    have f: "rx_buf s ! 0 = 0x32" "rx_buf s ! 1 = u" "rx_buf s ! 2 = v"
      using nth [of 0] nth [of 1] nth [of 2] l Stream uv by (simp_all add: opcode_defs)
    have g: "unat (get16 u v) = length pl" using get16_list [OF uv] small_u16 [OF n] by simp
    have p: "parseIncoming b s = rx_consume (3 + length pl) (accept STREAM_FRAME_CMD True False 0 (3 + length pl) (encode m) s)"
      using len l tk bound f g by (simp add: parseIncoming_def parse_stream_def opcode_defs Let_def)
    show ?thesis using acc [of STREAM_FRAME_CMD True False 0] bound len p unfolding l by (simp add: Let_def) (simp add: Stream)
  next
    case (Upload idx lo hi)
    obtain u v where uv: "put16 idx = [u, v]" using put_explode by blast
    obtain x0 x1 x2 x3 where lo: "put32 lo = [x0, x1, x2, x3]" using put_explode by blast
    have l: "length (encode m) = 11" using Upload by simp
    have f: "rx_buf s ! 0 = 0x85" "rx_buf s ! 3 = x0" "rx_buf s ! 4 = x1" "rx_buf s ! 5 = x2" "rx_buf s ! 6 = x3"
      using nth [of 0] nth [of 3] nth [of 4] nth [of 5] nth [of 6] l Upload uv lo by (simp_all add: opcode_defs)
    have p: "parseIncoming b s = rx_consume 11 (accept SET_PATTERN_FILE_CMD False True lo 11 (encode m) s)"
      using len l tk f get32_list [OF lo]
      by (simp add: parseIncoming_def parse_bulk_def opcode_defs Let_def word_le_nat_alt)
    show ?thesis using acc [of SET_PATTERN_FILE_CMD False True lo] bound len p l Upload by (simp add: Let_def)
  next
    case (Firmware lo hi)
    obtain x0 x1 x2 x3 where lo: "put32 lo = [x0, x1, x2, x3]" using put_explode by blast
    have l: "length (encode m) = 9" using Firmware by simp
    have f: "rx_buf s ! 0 = 0xE0" "rx_buf s ! 1 = x0" "rx_buf s ! 2 = x1" "rx_buf s ! 3 = x2" "rx_buf s ! 4 = x3"
      using nth [of 0] nth [of 1] nth [of 2] nth [of 3] nth [of 4] l Firmware lo by (simp_all add: opcode_defs)
    have i: "1 + 1 = (2 :: nat)" "1 + 2 = (3 :: nat)" "1 + 3 = (4 :: nat)" by simp_all
    have p: "parseIncoming b s = rx_consume 9 (accept SET_FIRMWARE_FILE_CMD False True lo 9 (encode m) s)"
      using len l tk unfolding parseIncoming_def parse_bulk_def Let_def i f get32_list [OF lo]
      by (simp add: opcode_defs word_le_nat_alt)
    show ?thesis using acc [of SET_FIRMWARE_FILE_CMD False True lo] bound len p l Firmware by (simp add: Let_def)
  next
    case (Rename idx name)
    obtain u v where uv: "put16 idx = [u, v]" using put_explode by blast
    have n: "0 < length name" "length name < 64" using wf Rename by simp_all
    have l: "length (encode m) = 4 + length name" using Rename by simp
    have f: "rx_buf s ! 0 = 0x83" "rx_buf s ! 3 = of_nat (length name)"
      using nth [of 0] nth [of 3] l Rename uv by (simp_all add: opcode_defs)
    have g: "unat (of_nat (length name) :: byte) = length name" using n by (intro small_byte) simp
    let ?h = "of_nat (4 + length name) # encode m"
    have p: "parseIncoming b s = rx_consume (4 + length name)
        (accept SET_PATTERN_FILENAME_CMD False False 0 (5 + length name) ?h s)"
      using len l tk f g n by (simp add: parseIncoming_def parse_rename_def opcode_defs Let_def word_le_nat_alt)
    have "5 + length name \<le> RX_BUF_SIZE b" using n rx_size_bounds [of b] by simp
    then show ?thesis
      using accepted [OF ok, of "4 + length name" ?h "5 + length name" SET_PATTERN_FILENAME_CMD False False 0] len p l
        dr [unfolded l] by (simp add: Let_def Rename)
  qed
qed


text \<open>With only part of a message there the parser waits and changes nothing.\<close>

lemma parse_partial:
  assumes ok: "source_ok b s" and wf: "wf_msg b m" and c: "encode m = content s @ missing"
    and ne: "content s \<noteq> []" "missing \<noteq> []"
  shows "parseIncoming b s = s"
proof -
  have len: "rx_len s < length (encode m)" "0 < rx_len s"
    using content_len [OF ok] c ne by (cases "content s"; cases missing; simp)+
  have nth: "rx_buf s ! i = encode m ! i" if "i < rx_len s" for i
    using content_nth [OF ok that] that c content_len [OF ok] by (simp add: nth_append)
  note bound = encode_len_bound [OF wf]
  show ?thesis
  proof (cases m)
    case (Binary x ps)
    define k where "k = 1 + length ps"
    have n: "k < 50" using wf Binary by (simp add: k_def)
    have l: "length (encode m) = 1 + k" using Binary by (simp add: k_def)
    have f: "rx_buf s ! 0 = of_nat k" using nth [of 0] len Binary by (simp add: k_def)
    have u: "unat (of_nat k :: byte) = k" using n by (intro small_byte) simp
    show ?thesis
      using n byte_le_iff [of k] byte_eq_iff [of k] len l
      by (simp add: parseIncoming_def parse_binary_def f u opcode_defs Let_def)
  next
    case (Stream pl)
    obtain u v where uv: "put16 (of_nat (length pl)) = [u, v]" using put_explode by blast
    have n: "length pl < 65536" using wf Stream frame_max_bounds [of b] by simp
    have l: "length (encode m) = 3 + length pl" using Stream by simp
    have f: "rx_buf s ! 0 = 0x32" "2 < rx_len s \<Longrightarrow> rx_buf s ! Suc 0 = u" "2 < rx_len s \<Longrightarrow> rx_buf s ! 2 = v"
      using nth [of 0] nth [of 1] nth [of 2] len Stream uv by (simp_all add: opcode_defs)
    have g: "unat (get16 u v) = length pl" using get16_list [OF uv] small_u16 [OF n] by simp
    show ?thesis
      using len l bound f g by (auto simp: parseIncoming_def parse_stream_def opcode_defs Let_def)
  next
    case (Upload idx lo hi)
    have "length (encode m) = 11" "rx_buf s ! 0 = 0x85" using nth [of 0] len Upload by (simp_all add: opcode_defs)
    then show ?thesis using len by (simp add: parseIncoming_def parse_bulk_def opcode_defs Let_def word_le_nat_alt)
  next
    case (Firmware lo hi)
    have "length (encode m) = 9" "rx_buf s ! 0 = 0xE0" using nth [of 0] len Firmware by (simp_all add: opcode_defs)
    then show ?thesis using len by (simp add: parseIncoming_def parse_bulk_def opcode_defs Let_def word_le_nat_alt)
  next
    case (Rename idx name)
    obtain u v where uv: "put16 idx = [u, v]" using put_explode by blast
    have n: "0 < length name" "length name < 64" using wf Rename by simp_all
    have l: "length (encode m) = 4 + length name" using Rename by simp
    have f: "rx_buf s ! 0 = 0x83" "3 < rx_len s \<Longrightarrow> rx_buf s ! 3 = of_nat (length name)"
      using nth [of 0] nth [of 3] len Rename uv by (simp_all add: opcode_defs)
    have g: "unat (of_nat (length name) :: byte) = length name" using n by (intro small_byte) simp
    show ?thesis
      using len l f g n by (auto simp: parseIncoming_def parse_rename_def opcode_defs Let_def word_le_nat_alt)
  qed
qed

section \<open>The command stream over any chunking\<close>

text \<open>One main-loop turn of a source whose commands are consumed at once, and a run of turns
  in which the host delivers one chunk of bytes before each.\<close>

definition turn :: "arena_hw \<Rightarrow> byte list \<times> source \<Rightarrow> cmd_view list \<times> byte list \<times> source" where
  "turn b ps = (let (pipe, s) = serviceUsb b ps
                in (if hasCommand s then [view (parsed_cmd s)] else [], pipe, commandConsumed s))"

fun host_run :: "arena_hw \<Rightarrow> byte list list \<Rightarrow> byte list \<times> source \<Rightarrow> cmd_view list \<times> byte list \<times> source" where
  "host_run b [] (pipe, s) = ([], pipe, s)"
| "host_run b (chunk # chunks) (pipe, s) =
     (let (o1, pipe, s) = turn b (pipe @ chunk, s); (o2, ps) = host_run b chunks (pipe, s) in (o1 @ o2, ps))"

lemma top_up_content:
  assumes "source_ok b s" "top_up b (pipe, s) = (pipe', s')"
  shows "content s' @ pipe' = content s @ pipe \<and> (pipe' = [] \<or> rx_len s' = RX_BUF_SIZE b) \<and> cmd_ready s' = cmd_ready s"
proof -
  let ?n = "min (length pipe) (RX_BUF_SIZE b - rx_len s)"
  have p: "pipe' = drop ?n pipe" and s': "s' = s\<lparr>rx_buf := blit (rx_buf s) (rx_len s) (take ?n pipe), rx_len := rx_len s + ?n\<rparr>"
    using assms(2) by (auto simp: top_up_def Let_def)
  have "content s' = content s @ take ?n pipe"
    using assms(1) by (auto simp: s' content_def blit_def source_ok_def min_def)
  then show ?thesis using assms(1) by (auto simp: p s' min_def source_ok_def)
qed

lemma turn_step:
  assumes ok: "source_ok b s" and nr: "\<not> cmd_ready s" and wf: "\<forall>m\<in>set ms. wf_msg b m"
    and inv: "content s @ pipe @ fut = concat (map encode ms)"
    and t: "turn b (pipe, s) = (out, pipe', s')"
  shows "source_ok b s' \<and> \<not> cmd_ready s' \<and> (\<exists>k \<le> length ms. out = map msg_view (take k ms)
    \<and> content s' @ pipe' @ fut = concat (map encode (drop k ms)) \<and> (fut = [] \<longrightarrow> ms \<noteq> [] \<longrightarrow> k = 1))"
proof -
  obtain p u where tu: "top_up b (pipe, s) = (p, u)" by (cases "top_up b (pipe, s)")
  have u: "source_ok b u" using top_up_ok [OF ok, of pipe] tu by simp
  have c: "content u @ p = content s @ pipe" "p = [] \<or> rx_len u = RX_BUF_SIZE b" "\<not> cmd_ready u"
    using top_up_content [OF ok tu] nr by auto
  have inv': "content u @ p @ fut = concat (map encode ms)" using inv c(1) by (metis append_assoc)
  let ?v = "if rx_len u = 0 then u else parseIncoming b u"
  have s: "serviceUsb b (pipe, s) = (p, ?v)" using nr tu by (simp add: serviceUsb_def)
  then have r: "out = (if cmd_ready ?v then [view (parsed_cmd ?v)] else [])" "pipe' = p" "s' = commandConsumed ?v"
    using t by (simp_all only: turn_def s Let_def prod.case hasCommand_def prod.inject)
  have ok': "source_ok b s'" using r(3) u parseIncoming_ok small_ops_ok(1) by simp
  have nr': "\<not> cmd_ready s'" using r(3) by (simp add: commandConsumed_def)
  have same: "content s' = content ?v" using r(3) by (simp add: content_def commandConsumed_def)
  have wait: ?thesis if "?v = u" and "fut = [] \<Longrightarrow> ms = []"
  proof -
    have "out = [] \<and> content s' @ pipe' @ fut = concat (map encode ms)" using that(1) r c(3) same inv' by simp
    then show ?thesis using ok' nr' that(2) by (auto intro: exI [of _ 0])
  qed
  show ?thesis
  proof (cases ms)
    case Nil
    then have "content u = []" using inv' by simp
    then have "rx_len u = 0" using content_len [OF u] by simp
    then show ?thesis using Nil wait by simp
  next
    case (Cons m ms')
    have wm: "wf_msg b m" using wf Cons by simp
    have le: "length (encode m) \<le> RX_BUF_SIZE b" by (rule encode_len_bound [OF wm])
    have pos: "encode m \<noteq> []" by (cases m) auto
    have e: "content u @ (p @ fut) = encode m @ concat (map encode ms')" using inv' Cons by simp
    show ?thesis
    proof (cases "length (encode m) \<le> rx_len u")
      case True
      then obtain rest where rest: "content u = encode m @ rest"
        using e content_len [OF u] by (metis append_eq_append_conv_if append_take_drop_id)
      have "0 < rx_len u" using True pos by (cases "encode m") auto
      then have v: "?v = parseIncoming b u" by simp
      have "cmd_ready ?v \<and> view (parsed_cmd ?v) = msg_view m \<and> content ?v = rest"
        using parse_complete [OF u wm rest] v by (simp add: Let_def)
      moreover have "rest @ p @ fut = concat (map encode ms')" using e rest by simp
      ultimately show ?thesis
        using ok' nr' r same Cons by (auto intro!: exI [of _ 1])
    next
      case False
      then obtain missing where missing: "encode m = content u @ missing" "missing \<noteq> []"
        using e content_len [OF u]
        by (metis append_eq_append_conv_if append_take_drop_id append_Nil2 le_refl linear)
      have "?v = u"
        using parse_partial [OF u wm missing(1) _ missing(2)] content_len [OF u] by (cases "content u") auto
      moreover have "ms = []" if "fut = []"
      proof -
        have "p = []" using c(2) False le by auto
        then have "content u = encode m @ concat (map encode ms')" using e that by simp
        then show ?thesis using False content_len [OF u] by simp
      qed
      ultimately show ?thesis by (rule wait)
    qed
  qed
qed


lemma host_run_append:
  "host_run b (cs @ ds) ps = (let (o1, ps1) = host_run b cs ps; (o2, ps2) = host_run b ds ps1 in (o1 @ o2, ps2))"
  by (induction cs arbitrary: ps) (auto simp: Let_def split: prod.splits)

lemma host_run_prefix:
  assumes "source_ok b s" "\<not> cmd_ready s" "\<forall>m\<in>set ms. wf_msg b m"
    "content s @ pipe @ concat chunks = concat (map encode ms)" "host_run b chunks (pipe, s) = (out, pipe', s')"
  shows "source_ok b s' \<and> \<not> cmd_ready s' \<and> (\<exists>k \<le> length ms. out = map msg_view (take k ms)
    \<and> content s' @ pipe' = concat (map encode (drop k ms)))"
  using assms
proof (induction chunks arbitrary: pipe s ms out)
  case Nil
  then show ?case by (auto intro: exI [of _ 0])
next
  case (Cons chunk chunks)
  obtain o1 p1 s1 where t: "turn b (pipe @ chunk, s) = (o1, p1, s1)" by (cases "turn b (pipe @ chunk, s)") auto
  obtain o2 where h: "host_run b chunks (p1, s1) = (o2, pipe', s')" "out = o1 @ o2"
    using Cons.prems(5) t by (auto simp: Let_def split: prod.splits)
  have inv: "content s @ (pipe @ chunk) @ concat chunks = concat (map encode ms)" using Cons.prems(4) by simp
  from turn_step [OF Cons.prems(1,2,3) inv t] obtain k where
    k: "source_ok b s1" "\<not> cmd_ready s1" "k \<le> length ms" "o1 = map msg_view (take k ms)"
      "content s1 @ p1 @ concat chunks = concat (map encode (drop k ms))" by blast
  have wf: "\<forall>m\<in>set (drop k ms). wf_msg b m" using Cons.prems(3) by (meson in_set_dropD)
  from Cons.IH [OF k(1,2) wf k(5) h(1)] obtain j where
    j: "source_ok b s'" "\<not> cmd_ready s'" "j \<le> length ms - k" "o2 = map msg_view (take j (drop k ms))"
      "content s' @ pipe' = concat (map encode (drop j (drop k ms)))" by auto
  have "out = map msg_view (take (k + j) ms)" using h(2) k(4) j(4) by (simp add: take_add)
  moreover have "content s' @ pipe' = concat (map encode (drop (k + j) ms))" using j(5) by (simp add: add.commute)
  ultimately show ?case using j(1,2,3) k(3) by (auto intro!: exI [of _ "k + j"])
qed

lemma host_run_drain:
  assumes "source_ok b s" "\<not> cmd_ready s" "\<forall>m\<in>set ms. wf_msg b m"
    "content s @ pipe = concat (map encode ms)"
  shows "\<exists>s'. host_run b (replicate (length ms) []) (pipe, s) = (map msg_view ms, [], s') \<and> content s' = []"
  using assms
proof (induction ms arbitrary: pipe s)
  case Nil
  then show ?case by simp
next
  case (Cons m ms)
  obtain o1 p1 s1 where t: "turn b (pipe @ [], s) = (o1, p1, s1)" by (cases "turn b (pipe @ [], s)") auto
  have inv: "content s @ (pipe @ []) @ [] = concat (map encode (m # ms))" using Cons.prems(4) by simp
  from turn_step [OF Cons.prems(1,2,3) inv t]
  have k: "source_ok b s1" "\<not> cmd_ready s1" "o1 = [msg_view m]" "content s1 @ p1 = concat (map encode ms)" by auto
  have wf: "\<forall>m\<in>set ms. wf_msg b m" using Cons.prems(3) by simp
  from Cons.IH [OF k(1,2) wf k(4)] t k(3) show ?case by auto
qed

section \<open>Properties\<close>

text \<open>C12: the framing round trip: whatever way the bytes of a sequence of well-formed host messages
  are cut into chunks, the source hands exactly those commands to the processor, in order and
  unaltered, within one further turn per message, and ends with nothing buffered.\<close>

lemma transport_delivers:
  assumes "source_ok b s" "\<not> cmd_ready s" "content s = []" "\<forall>m\<in>set ms. wf_msg b m"
    and "concat chunks = concat (map encode ms)"
  shows "\<exists>s'. host_run b (chunks @ replicate (length ms) []) ([], s) = (map msg_view ms, [], s') \<and> content s' = []"
proof -
  obtain o1 p1 s1 where h: "host_run b chunks ([], s) = (o1, p1, s1)" by (cases "host_run b chunks ([], s)") auto
  from host_run_prefix [OF assms(1,2,4) _ h] assms(3,5) obtain k where
    k: "source_ok b s1" "\<not> cmd_ready s1" "k \<le> length ms" "o1 = map msg_view (take k ms)"
      "content s1 @ p1 = concat (map encode (drop k ms))" by auto
  have wf: "\<forall>m\<in>set (drop k ms). wf_msg b m" using assms(4) by (meson in_set_dropD)
  from host_run_drain [OF k(1,2) wf k(5)] obtain s2 where
    d: "host_run b (replicate (length (drop k ms)) []) (p1, s1) = (map msg_view (drop k ms), [], s2)" "content s2 = []"
    by blast
  have ok2: "source_ok b s2 \<and> \<not> cmd_ready s2"
    using host_run_prefix [OF k(1,2) wf _ d(1)] k(5) by simp
  have rest: "\<exists>s3. host_run b (replicate j []) ([], s2) = ([], [], s3) \<and> content s3 = []" for j
  proof -
    obtain o3 p3 s3 where h3: "host_run b (replicate j []) ([], s2) = (o3, p3, s3)"
      by (cases "host_run b (replicate j []) ([], s2)") auto
    from host_run_prefix [of b s2 "[]" "[]" "replicate j []", OF _ _ _ _ h3] ok2 d(2) show ?thesis
      using h3 by auto
  qed
  have "replicate (length ms) [] = replicate (length (drop k ms)) [] @ (replicate k [] :: byte list list)"
    using k(3) by (simp flip: replicate_add)
  moreover obtain s3 where "host_run b (replicate k []) ([], s2) = ([], [], s3)" "content s3 = []" using rest by blast
  moreover have "map msg_view (take k ms) @ map msg_view (drop k ms) = map msg_view ms"
    by (simp flip: map_append)
  ultimately show ?thesis using h d k(4) by (simp add: host_run_append)
qed

lemma source0_ok: "source_ok b (source0 b)"
  by (simp add: source_ok_def source0_def)

lemma transport_delivers_witness:
  "fst (host_run ARENA_HW_2_10 ([[3, 0x70], [1, 0, 0x83, 2, 0, 1], [65, 0x32, 1, 0, 9]] @ replicate 3 []) ([], source0 ARENA_HW_2_10))
     = [(0x70, [3, 0x70, 1, 0], False, False, 0), (0x83, [5, 0x83, 2, 0, 1, 65], False, False, 0),
        (0x32, [0x32, 1, 0, 9], True, False, 0)]"
proof -
  let ?ms = "[Binary 0x70 [1, 0], Rename 2 [65], Stream [9]]"
  have p: "put16 2 = [2, 0]" "put16 1 = [1, 0]" by (simp_all add: put16_def)
  let ?cs = "[[3, 0x70], [1, 0, 0x83, 2, 0, 1], [65, 0x32, 1, 0, 9]]"
  have c: "concat ?cs = concat (map encode ?ms)" by (simp add: p opcode_defs)
  have v: "map msg_view ?ms = [(0x70, [3, 0x70, 1, 0], False, False, 0), (0x83, [5, 0x83, 2, 0, 1, 65], False, False, 0),
        (0x32, [0x32, 1, 0, 9], True, False, 0)]" by (simp add: p opcode_defs)
  have s: "\<not> cmd_ready (source0 ARENA_HW_2_10)" "content (source0 ARENA_HW_2_10) = []"
    "\<forall>m\<in>set ?ms. wf_msg ARENA_HW_2_10 m" "length ?ms = 3"
    by (simp_all add: source0_def content_def)
  show ?thesis
    using transport_delivers [OF source0_ok s(1-3) c] unfolding v s(4) by auto
qed


text \<open>A flushed reply is one frame [length, status, echo, payload]: the whole payload when it
  fits (at most 196 bytes), no payload otherwise, and the status reads back as sent.\<close>

lemma reply_frame:
  assumes "source_ok b s"
  shows "let s' = sendResponse c st p s; q = (if length p < 197 then p else [])
         in lastResponseStatus s' = st
          \<and> wire_out (flushResponses_tcp True s') = wire_out s @ [of_nat (2 + length q), st, c] @ q
          \<and> wire_out (flushResponses_usb (int (3 + length q)) s') = wire_out s @ [of_nat (2 + length q), st, c] @ q"
proof -
  obtain q where q: "q = kept p" "3 + length q < 200" using kept_len by blast
  have k: "(if length p < 197 then p else []) = q" by (simp add: q kept_def RESP_BUF_SIZE_def byte_count_per_response_max_def)
  have l: "length (resp_buf s) = 200"
    using assms by (simp add: source_ok_def RESP_BUF_SIZE_def byte_count_per_response_max_def)
  have r: "sendResponse c st p s = s\<lparr>resp_buf := blit (resp_buf s) 0 (of_nat (2 + length q) # st # c # q), resp_len := 3 + length q\<rparr>"
    by (simp only: sendResponse_eq q)
  have t: "take (3 + length q) (blit (resp_buf s) 0 (of_nat (2 + length q) # st # c # q)) = of_nat (2 + length q) # st # c # q"
    by (simp add: blit_def numeral_3_eq_3)
  have z: "blit (resp_buf s) 0 (of_nat (2 + length q) # st # c # q) ! 1 = st" by (simp add: blit_def)
  show ?thesis
    unfolding Let_def k r
    using t z unfolding lastResponseStatus_def flushResponses_tcp_def flushResponses_usb_def Let_def by simp
qed

lemma reply_frame_witness:
  "wire_out (flushResponses_tcp True (sendResponse 0x17 0 [44, 1] (source0 ARENA_HW_2_10))) = [4, 0, 0x17, 44, 1]
   \<and> wire_out (flushResponses_tcp True (sendResponse 0x17 0 (replicate 197 7) (source0 ARENA_HW_2_10))) = [2, 0, 0x17]"
  using reply_frame [OF source0_ok, of "0x17" 0 "[44, 1]" ARENA_HW_2_10]
    reply_frame [OF source0_ok, of "0x17" 0 "replicate 197 7" ARENA_HW_2_10]
  by (simp add: Let_def source0_def)

end
