(* ===== verification/Pacing.thy ===== *)
theory Pacing
  imports Transport
begin

text \<open>
  The paced raw writes end: the contract of one iteration as a locale, the termination of the
  loop proved once in it against any clock that keeps running, and its two interpretations
  (USB and TCP).
\<close>

section \<open>Deadlines on a running clock\<close>

text \<open>The clock at iteration \<open>i\<close>, in unwrapped milliseconds: it never goes back, never stops, and
  one iteration takes at most a million of them.\<close>

definition running_clock :: "(nat \<Rightarrow> nat) \<Rightarrow> bool" where
  "running_clock t \<longleftrightarrow> (\<forall>i. t i \<le> t (Suc i)) \<and> (\<forall>i. t (Suc i) \<le> t i + 1000000) \<and> (\<forall>x. \<exists>i. x \<le> t i)"

lemma expired_nat: "d \<le> a \<Longrightarrow> a < d + 2 ^ 31 \<Longrightarrow> expired (of_nat a) (of_nat d)"
proof -
  assume "d \<le> a" "a < d + 2 ^ 31"
  then obtain k where k: "a = d + k" "k < 2 ^ 31" by (metis add_less_cancel_left le_Suc_ex)
  have "(of_nat a :: u32) - of_nat d = of_nat k" by (simp add: k)
  moreover have "sint (of_nat k :: u32) = int k"
    using k(2) by (simp add: signed_of_nat signed_take_bit_int_eq_self)
  ultimately show ?thesis by (simp add: expired_def)
qed

text \<open>Some later iteration sees the deadline as passed.\<close>

definition reaches :: "(nat \<Rightarrow> nat) \<Rightarrow> nat \<Rightarrow> nat \<Rightarrow> bool" where
  "reaches t i d \<longleftrightarrow> (\<exists>j\<ge>i. d \<le> t j \<and> t j < d + 2 ^ 31)"

lemma clock_reaches:
  assumes "running_clock t" "t i < d + 2 ^ 30"
  shows "reaches t i d"
proof (cases "d \<le> t i")
  case True
  then show ?thesis using assms(2) by (auto simp: reaches_def)
next
  case False
  have mono: "t i \<le> t j" if "i \<le> j" for i j
    using that assms(1) by (simp add: running_clock_def lift_Suc_mono_le)
  obtain k where k: "d \<le> t k" using assms(1) unfolding running_clock_def by blast
  define j where "j = (LEAST k. d \<le> t k)"
  have j: "d \<le> t j" unfolding j_def using k by (rule LeastI)
  have "\<not> j \<le> i" using mono [of j i] j False by auto
  then obtain j' where j': "j = Suc j'" "i \<le> j'" by (cases j) auto
  have "\<not> d \<le> t j'" using not_less_Least [of j' "\<lambda>k. d \<le> t k"] j'(1) j_def by auto
  moreover have "t j \<le> t j' + 1000000" using assms(1) by (simp add: running_clock_def j')
  ultimately have "t j < d + 2 ^ 31" by simp
  then show ?thesis using j j' unfolding reaches_def by (metis le_SucI)
qed

section \<open>The contract of one iteration\<close>

locale paced_writer =
  fixes step :: "'o \<Rightarrow> nat \<Rightarrow> u32 \<Rightarrow> paced" and clock :: "'o \<Rightarrow> u32" and len :: nat
  assumes go: "off < len \<Longrightarrow> step obs off d = Go off' d' \<Longrightarrow>
    (off' = off \<and> d' = d \<and> \<not> expired (clock obs) d) \<or> (off < off' \<and> off' \<le> len \<and> d' = clock obs + kStallTimeoutMs)"
begin

text \<open>A stalled write either stops or progresses before its deadline passes.\<close>

lemma stall_ends:
  assumes "\<And>i. clock (obs i) = of_nat (t i)" "i \<le> j" "d \<le> t j" "t j < d + 2 ^ 31" "off < len"
    and prog: "\<And>k off'. off < off' \<Longrightarrow> off' \<le> len \<Longrightarrow>
        \<exists>fuel res. send_loop step obs len fuel (Suc k) off' (of_nat (t k) + kStallTimeoutMs) = Some res \<and> off' \<le> res \<and> res \<le> len"
  shows "\<exists>fuel res. send_loop step obs len fuel i off (of_nat d) = Some res \<and> off \<le> res \<and> res \<le> len"
  using assms(2)
proof (induction "j - i" arbitrary: i rule: less_induct)
  case (less i)
  show ?case
  proof (cases "step (obs i) off (of_nat d)")
    case Stop
    have "send_loop step obs len (Suc 0) i off (of_nat d) = Some off" using assms(5) Stop by simp
    then show ?thesis using assms(5) by (meson le_refl less_imp_le)
  next
    case (Go off' d')
    from go [OF assms(5) this] consider "off' = off" "d' = of_nat d" "\<not> expired (clock (obs i)) (of_nat d)"
      | "off < off'" "off' \<le> len" "d' = clock (obs i) + kStallTimeoutMs" by blast
    then show ?thesis
    proof cases
      case 1
      have "i \<noteq> j" using 1(3) expired_nat [OF assms(3,4)] assms(1) by auto
      then have lt: "j - Suc i < j - i" "Suc i \<le> j" using less.prems by auto
      from less.hyps [OF lt] obtain fuel res where
        "send_loop step obs len fuel (Suc i) off (of_nat d) = Some res" "off \<le> res" "res \<le> len" by blast
      then have "send_loop step obs len (Suc fuel) i off (of_nat d) = Some res" using Go 1 assms(5) by simp
      then show ?thesis using \<open>off \<le> res\<close> \<open>res \<le> len\<close> by blast
    next
      case 2
      from prog [OF 2(1,2), of i] obtain fuel res where
        f: "send_loop step obs len fuel (Suc i) off' (of_nat (t i) + kStallTimeoutMs) = Some res" "off' \<le> res" "res \<le> len" by blast
      then have "send_loop step obs len (Suc fuel) i off (of_nat d) = Some res" using Go 2 assms(1,5) by simp
      then show ?thesis using f 2(1) by (meson less_imp_le order_trans)
    qed
  qed
qed

lemma send_returns:
  assumes "\<And>i. clock (obs i) = of_nat (t i)" "running_clock t" "reaches t i d" "off \<le> len"
  shows "\<exists>fuel res. send_loop step obs len fuel i off (of_nat d) = Some res \<and> off \<le> res \<and> res \<le> len"
  using assms(3,4)
proof (induction "len - off" arbitrary: i off d rule: less_induct)
  case less
  show ?case
  proof (cases "off < len")
    case False
    then have "send_loop step obs len 0 i off (of_nat d) = Some off" by simp
    then show ?thesis using less.prems by blast
  next
    case True
    obtain j where j: "i \<le> j" "d \<le> t j" "t j < d + 2 ^ 31" using less.prems(1) by (auto simp: reaches_def)
    have p: "\<exists>fuel res. send_loop step obs len fuel (Suc k) off' (of_nat (t k) + kStallTimeoutMs) = Some res
        \<and> off' \<le> res \<and> res \<le> len" if "off < off'" "off' \<le> len" for k off'
    proof -
      have "t (Suc k) \<le> t k + 1000000" using assms(2) by (simp add: running_clock_def)
      then have "reaches t (Suc k) (t k + 2000)" by (intro clock_reaches assms) simp
      moreover have "len - off' < len - off" using that True by simp
      ultimately show ?thesis
        using less.hyps [of off' "Suc k" "t k + 2000"] that by (simp add: kStallTimeoutMs_def)
    qed
    show ?thesis by (rule stall_ends [OF assms(1) j True p])
  qed
qed

end

lemma usb_go:
  assumes "off < len" "usb_step len obs off d = Go off' d'"
  shows "(off' = off \<and> d' = d \<and> \<not> expired (snd obs) d) \<or> (off < off' \<and> off' \<le> len \<and> d' = snd obs + kStallTimeoutMs)"
  using assms by (cases obs) (auto simp: usb_step_def Let_def split: if_splits)

lemma tcp_go:
  assumes "off < len" "tcp_step len obs off d = Go off' d'"
  shows "(off' = off \<and> d' = d \<and> \<not> expired (snd (snd (snd obs))) d)
    \<or> (off < off' \<and> off' \<le> len \<and> d' = snd (snd (snd obs)) + kStallTimeoutMs)"
  using assms by (cases obs) (auto simp: tcp_step_def Let_def split: if_splits)

interpretation usb: paced_writer "usb_step len" snd len for len
  by unfold_locales (rule usb_go)

interpretation tcp: paced_writer "tcp_step len" "\<lambda>obs. snd (snd (snd obs))" len for len
  by unfold_locales (rule tcp_go)


section \<open>The reply goes first\<close>

lemma flush_shape:
  "flushResponses_usb room s = s \<or> (resp_len (flushResponses_usb room s) = 0
     \<and> wire_out (flushResponses_usb room s) = wire_out s @ take (resp_len s) (resp_buf s))"
  by (auto simp: flushResponses_usb_def Let_def)

lemma flush_wait_returns:
  assumes "\<And>i. snd (obs i) = of_nat (t i)" "i \<le> j" "d \<le> t j" "t j < d + 2 ^ 31"
  shows "\<exists>fuel i' s'. flush_wait obs (of_nat d) fuel i s = Some (i', s') \<and> i' \<le> j
    \<and> (\<exists>pre. wire_out s' = wire_out s @ pre \<and> (pre = [] \<or> pre = take (resp_len s) (resp_buf s)))"
  using assms(2)
proof (induction "j - i" arbitrary: i rule: less_induct)
  case less
  let ?go = "0 < resp_len s \<and> \<not> expired (snd (obs i)) (of_nat d)"
  show ?case
  proof (cases ?go)
    case False
    then have "flush_wait obs (of_nat d) (Suc 0) i s = Some (i, s)" by auto
    then show ?thesis using less.prems by fastforce
  next
    case True
    then have "i \<noteq> j" using expired_nat [OF assms(3,4)] assms(1) by auto
    then have lt: "j - Suc i < j - i" "Suc i \<le> j" using less.prems by auto
    let ?s = "flushResponses_usb (fst (obs i)) s"
    have un: "flush_wait obs (of_nat d) (Suc f) i s = flush_wait obs (of_nat d) f (Suc i) ?s" for f
      using True by simp
    from flush_shape [of "fst (obs i)" s] show ?thesis
    proof (elim disjE conjE)
      assume "?s = s"
      with less.hyps [OF lt] un show ?thesis by metis
    next
      assume 2: "resp_len ?s = 0" "wire_out ?s = wire_out s @ take (resp_len s) (resp_buf s)"
      then have "flush_wait obs (of_nat d) (Suc 0) i s = Some (Suc i, ?s)" using un by simp
      with 2 lt(2) show ?thesis by blast
    qed
  qed
qed

section \<open>Properties\<close>


lemma ms_clock_runs: "running_clock (\<lambda>i. i)"
  by (auto simp: running_clock_def)


text \<open>The same of \<open>NetworkManager::sendRaw\<close>, whose client may also disappear or accept nothing.\<close>

lemma sendRaw_tcp_returns:
  assumes "\<And>i. snd (snd (snd (obs i))) = of_nat (t i)" "running_clock t" "n \<le> t 0" "t 0 \<le> n + 1000000"
  shows "\<exists>fuel off s'. sendRaw_tcp conn obs fuel (of_nat n) buf s = Some (off, s') \<and> off \<le> length buf
    \<and> wire_out s' = wire_out (flushResponses_tcp conn s) @ take off buf"
proof -
  have "reaches t 0 (n + 2000)" by (rule clock_reaches [OF assms(2)]) (use assms(4) in simp)
  from tcp.send_returns [OF assms(1,2) this, of 0 "length buf"] obtain fuel off where
    "send_loop (tcp_step (length buf)) obs (length buf) fuel 0 0 (of_nat n + kStallTimeoutMs) = Some off" "off \<le> length buf"
    by (auto simp: kStallTimeoutMs_def)
  note f = this
  let ?s = "flushResponses_tcp conn s"
  show ?thesis
  proof (cases "buf = [] \<or> \<not> conn")
    case True
    then have "sendRaw_tcp conn obs fuel (of_nat n) buf s = Some (0, ?s)" by (simp add: sendRaw_tcp_def Let_def)
    then show ?thesis by (intro exI [of _ fuel] exI [of _ 0] exI [of _ ?s]) simp
  next
    case False
    then have "sendRaw_tcp conn obs fuel (of_nat n) buf s = Some (off, ?s\<lparr>wire_out := wire_out ?s @ take off buf\<rparr>)"
      using f by (simp add: sendRaw_tcp_def Let_def)
    then show ?thesis using f(2) by (intro exI [of _ fuel] exI [of _ off]) simp
  qed
qed

lemma sendRaw_tcp_returns_witness:
  "\<exists>fuel off s'. sendRaw_tcp True (\<lambda>i. (True, 5, 0, of_nat i)) fuel 0 [1, 2, 3] (source0 ARENA_HW_2_10) = Some (off, s') \<and> off \<le> 3"
  using sendRaw_tcp_returns [OF _ ms_clock_runs, of "\<lambda>i. (True, 5, 0, of_nat i)" 0 True "[1, 2, 3]" "source0 ARENA_HW_2_10"] by fastforce

end
