(* ===== verification/Sd.thy ===== *)
theory Sd
  imports Board Checksums PanelProtocol "HOL-Library.List_Lexorder"
begin

text \<open>
  \<open>src/src/SdManager.h\<close> and \<open>src/src/SdManager.cpp\<close>: the sorted pattern catalogue, the
  manifests, opening and validating a pattern, and reading frames and metadata.

  The SD library (SdFat and the Teensy wrapper) is outside src/: its card state is the type
  variable 'c, its file handles 'h, and its calls are the fields of \<open>sdlib\<close>. Names are NUL-free
  byte strings; \<open>names\<close> and \<open>origin_names\<close> are the first \<open>pattern_count_\<close> rows of the arrays.
\<close>

section \<open>The library the code calls\<close>

record ('c, 'h) sdlib =
  sd_mount :: "'c \<Rightarrow> 'c \<times> bool"
  sd_list :: "'c \<Rightarrow> (byte list \<times> bool) list option"
  sd_exists :: "byte list \<Rightarrow> 'c \<Rightarrow> bool"
  sd_remove :: "byte list \<Rightarrow> 'c \<Rightarrow> 'c \<times> bool"
  sd_rename :: "byte list \<Rightarrow> byte list \<Rightarrow> 'c \<Rightarrow> 'c \<times> bool"
  sd_format :: "'c \<Rightarrow> 'c \<times> bool"
  sd_open :: "byte list \<Rightarrow> 'c \<Rightarrow> 'h option"
  sd_create :: "byte list \<Rightarrow> 'c \<Rightarrow> 'c \<times> 'h option"
  sd_write :: "byte list \<Rightarrow> 'h \<Rightarrow> 'c \<Rightarrow> 'c \<times> 'h \<times> nat"
  sd_close :: "'h \<Rightarrow> 'c \<Rightarrow> 'c"
  sd_seek :: "nat \<Rightarrow> 'h \<Rightarrow> 'c \<Rightarrow> 'h \<times> bool"
  sd_read :: "nat \<Rightarrow> 'h \<Rightarrow> 'c \<Rightarrow> 'h \<times> byte list"
  sd_size :: "'h \<Rightarrow> 'c \<Rightarrow> nat"
  sd_contiguous :: "'h \<Rightarrow> 'c \<Rightarrow> bool"
  sd_mkdir :: "byte list \<Rightarrow> 'c \<Rightarrow> 'c"

section \<open>State\<close>

record pattern_info =
  frame_count :: nat
  row_count :: nat
  col_count :: nat
  gs_val :: byte
  block_size :: nat
  num_panels :: nat
  frame_size :: nat

record ('c, 'h) sd =
  card :: 'c
  mounted :: bool
  names :: "byte list list"
  origin_names :: "byte list list"
  file_h :: "'h option"
  file_open :: bool
  contiguous :: bool
  legacy_seek :: bool
  applied_legacy_seek :: bool
  open_id :: nat
  info :: pattern_info

definition info0 :: pattern_info where
  "info0 = \<lparr>frame_count = 0, row_count = 0, col_count = 0, gs_val = 0, block_size = 0, num_panels = 0, frame_size = 0\<rparr>"

definition sd0 :: "'c \<Rightarrow> ('c, 'h) sd" where
  "sd0 c = \<lparr>card = c, mounted = False, names = [], origin_names = [], file_h = None, file_open = False,
     contiguous = False, legacy_seek = False, applied_legacy_seek = False, open_id = 0, info = info0\<rparr>"

definition pattern_count :: "('c, 'h) sd \<Rightarrow> nat" where
  "pattern_count s = length (names s)"

section \<open>Strings\<close>

fun strcmp :: "byte list \<Rightarrow> byte list \<Rightarrow> int" where
  "strcmp [] [] = 0"
| "strcmp [] (y # ys) = -1"
| "strcmp (x # xs) [] = 1"
| "strcmp (x # xs) (y # ys) = (if x < y then -1 else if y < x then 1 else strcmp xs ys)"

definition str :: "string \<Rightarrow> byte list" where
  "str s = map of_char s"

definition pattern_dir :: "byte list" where "pattern_dir = str ''/patterns''"
definition pattern_temp_name :: "byte list" where "pattern_temp_name = str ''pattern.temp''"
definition manifest_bin_path :: "byte list" where "manifest_bin_path = str ''/MANIFEST.bin''"
definition manifest_txt_path :: "byte list" where "manifest_txt_path = str ''/MANIFEST.txt''"

definition hasPatExtension :: "byte list \<Rightarrow> bool" where
  "hasPatExtension name =
     (if length name < 4 then False
      else let ext = drop (length name - 4) name
           in ext ! 0 = of_char (CHR ''.'')
            \<and> (ext ! 1 = of_char (CHR ''p'') \<or> ext ! 1 = of_char (CHR ''P''))
            \<and> (ext ! 2 = of_char (CHR ''a'') \<or> ext ! 2 = of_char (CHR ''A''))
            \<and> (ext ! 3 = of_char (CHR ''t'') \<or> ext ! 3 = of_char (CHR ''T'')))"

text \<open>\<open>snprintf(path, sizeof(path), "%s/%s", pattern_dir, name)\<close>: at most 74 characters.\<close>

definition pattern_path :: "byte list \<Rightarrow> byte list" where
  "pattern_path name = take 74 (pattern_dir @ of_char (CHR ''/'') # name)"

definition patternSetId :: "byte list list \<Rightarrow> u32" where
  "patternSetId ns =
     fold (\<lambda>name h.
         let h = fold (\<lambda>p h. (h XOR ucast p) * 16777619) name h
         in (h XOR 10) * 16777619) ns 2166136261"

section \<open>The catalogue\<close>

text \<open>The insertion loop: how far the new name sinks from the end.\<close>

fun insert_pos :: "byte list list \<Rightarrow> byte list \<Rightarrow> nat \<Rightarrow> nat" where
  "insert_pos ns name 0 = 0"
| "insert_pos ns name (Suc p) = (if 0 < strcmp (ns ! p) name then insert_pos ns name p else Suc p)"

definition insert_at :: "nat \<Rightarrow> 'a \<Rightarrow> 'a list \<Rightarrow> 'a list" where
  "insert_at p x xs = take p xs @ x # drop p xs"

definition insertSorted :: "byte list \<Rightarrow> byte list \<Rightarrow> ('c, 'h) sd \<Rightarrow> ('c, 'h) sd" where
  "insertSorted name origin s =
     (if pattern_max_count \<le> pattern_count s then s
      else let pos = insert_pos (names s) name (pattern_count s)
           in s\<lparr>names := insert_at pos name (names s), origin_names := insert_at pos origin (origin_names s)\<rparr>)"

definition remove_at :: "nat \<Rightarrow> 'a list \<Rightarrow> 'a list" where
  "remove_at p xs = take p xs @ drop (Suc p) xs"

definition removeAt :: "nat \<Rightarrow> ('c, 'h) sd \<Rightarrow> ('c, 'h) sd" where
  "removeAt pos s =
     (if pattern_count s \<le> pos then s
      else s\<lparr>names := remove_at pos (names s), origin_names := remove_at pos (origin_names s)\<rparr>)"

definition scan_entry :: "byte list \<times> bool \<Rightarrow> byte list list \<Rightarrow> byte list list" where
  "scan_entry = (\<lambda>(name, is_dir) ns.
     if \<not> is_dir \<and> name \<noteq> [] \<and> name ! 0 \<noteq> of_char (CHR ''.'') \<and> hasPatExtension name
        \<and> length name < pattern_name_byte_count \<and> length ns < pattern_max_count
     then insert_at (insert_pos ns name (length ns)) name ns else ns)"

definition scanPatterns :: "('c, 'h) sdlib \<Rightarrow> ('c, 'h) sd \<Rightarrow> ('c, 'h) sd" where
  "scanPatterns L s =
     (case sd_list L (card s) of
        None \<Rightarrow> s
      | Some entries \<Rightarrow> s\<lparr>names := fold scan_entry entries (names s)\<rparr>)"

definition patternName :: "nat \<Rightarrow> ('c, 'h) sd \<Rightarrow> byte list option" where
  "patternName i s = (if i = 0 \<or> pattern_count s < i then None else Some (names s ! (i - 1)))"

definition patternOrigin :: "nat \<Rightarrow> ('c, 'h) sd \<Rightarrow> byte list option" where
  "patternOrigin i s = (if i = 0 \<or> pattern_count s < i then None else Some (origin_names s ! (i - 1)))"

section \<open>Manifests\<close>

text \<open>Decimal and hexadecimal as \<open>snprintf\<close> prints them.\<close>

fun dec :: "nat \<Rightarrow> byte list" where
  "dec n = (if n < 10 then [of_nat (48 + n)] else dec (n div 10) @ [of_nat (48 + n mod 10)])"

declare dec.simps [simp del]

definition hex_digit :: "nat \<Rightarrow> byte" where
  "hex_digit d = of_nat (if d < 10 then 48 + d else 55 + d)"

definition hex8 :: "u32 \<Rightarrow> byte list" where
  "hex8 w = map (\<lambda>i. hex_digit (unat (drop_bit (4 * (7 - i)) w AND 15))) [0..<8]"

definition manifest_bin :: "nat \<Rightarrow> byte list" where
  "manifest_bin n = put16 (of_nat n) @ [0, 0, 0, 0]"

definition manifest_lines :: "byte list list \<Rightarrow> byte list list \<Rightarrow> byte list list" where
  "manifest_lines ns os =
     [str ''Timestamp: 0'' @ [13, 10],
      str ''Pattern Count: '' @ dec (length ns) @ [13, 10],
      str ''Pattern Set ID: '' @ hex8 (patternSetId ns) @ [13, 10],
      [13, 10],
      str ''Mapping:'' @ [13, 10]]
     @ map (\<lambda>(n, orig). n @ str '' <- '' @ orig @ [13, 10]) (zip ns os)"

text \<open>Every line goes through \<open>ok = ok && (f.write(line) == len)\<close> (for the fixed lines: \<open>> 0\<close>).\<close>

fun write_lines :: "('c, 'h) sdlib \<Rightarrow> (byte list \<times> bool) list \<Rightarrow> 'h \<Rightarrow> 'c \<Rightarrow> 'c \<times> 'h \<times> bool" where
  "write_lines L [] h c = (c, h, True)"
| "write_lines L ((line, whole) # lines) h c =
     (let (c, h, n) = sd_write L line h c
      in if (if whole then n = length line else 0 < n) then write_lines L lines h c else (c, h, False))"

definition writeManifest_bin :: "('c, 'h) sdlib \<Rightarrow> ('c, 'h) sd \<Rightarrow> ('c, 'h) sd \<times> bool" where
  "writeManifest_bin L s =
     (let (c, _) = sd_remove L manifest_bin_path (card s);
          (c, h) = sd_create L manifest_bin_path c
      in case h of
           None \<Rightarrow> (s\<lparr>card := c\<rparr>, False)
         | Some h \<Rightarrow>
             let (c, h, n) = sd_write L (manifest_bin (pattern_count s)) h c;
                 c = sd_close L h c
             in if n = 6 then (s\<lparr>card := c\<rparr>, True)
                else (s\<lparr>card := fst (sd_remove L manifest_bin_path c)\<rparr>, False))"

definition writeManifest_txt :: "('c, 'h) sdlib \<Rightarrow> ('c, 'h) sd \<Rightarrow> ('c, 'h) sd \<times> bool" where
  "writeManifest_txt L s =
     (let (c, _) = sd_remove L manifest_txt_path (card s);
          (c, h) = sd_create L manifest_txt_path c
      in case h of
           None \<Rightarrow> (s\<lparr>card := c\<rparr>, False)
         | Some h \<Rightarrow>
             let ls = manifest_lines (names s) (origin_names s);
                 (c, h, ok) = write_lines L (zip ls (replicate 5 False @ replicate (length ls - 5) True)) h c;
                 c = sd_close L h c
             in if ok then (s\<lparr>card := c\<rparr>, True)
                else (s\<lparr>card := fst (sd_remove L manifest_txt_path c)\<rparr>, False))"

definition writeManifest :: "('c, 'h) sdlib \<Rightarrow> ('c, 'h) sd \<Rightarrow> ('c, 'h) sd \<times> bool" where
  "writeManifest L s =
     (if \<not> mounted s then (s, False)
      else let (s, ok) = writeManifest_bin L s
           in if \<not> ok then (s, False) else writeManifest_txt L s)"

section \<open>Mounting\<close>

definition sd_begin :: "('c, 'h) sdlib \<Rightarrow> ('c, 'h) sd \<Rightarrow> ('c, 'h) sd \<times> bool" where
  "sd_begin L s =
     (let (c, m) = sd_mount L (card s);
          s = s\<lparr>card := c, mounted := m, names := [], origin_names := []\<rparr>
      in if m then
           let s = scanPatterns L s;
               s = s\<lparr>origin_names := names s\<rparr>;
               (s, _) = writeManifest L s
           in (s, True)
         else (s, False))"

definition rescan :: "('c, 'h) sdlib \<Rightarrow> ('c, 'h) sd \<Rightarrow> ('c, 'h) sd" where
  "rescan L s =
     (let s = s\<lparr>names := [], origin_names := []\<rparr>
      in if mounted s then (let s = scanPatterns L s in s\<lparr>origin_names := names s\<rparr>) else s)"

section \<open>Deleting, formatting, renaming\<close>

definition close_file :: "('c, 'h) sdlib \<Rightarrow> ('c, 'h) sd \<Rightarrow> ('c, 'h) sd" where
  "close_file L s = s\<lparr>card := (case file_h s of Some h \<Rightarrow> sd_close L h (card s) | None \<Rightarrow> card s), file_open := False\<rparr>"

definition delete_finish :: "('c, 'h) sdlib \<Rightarrow> nat \<Rightarrow> byte list \<Rightarrow> ('c, 'h) sd \<Rightarrow> ('c, 'h) sd \<times> byte" where
  "delete_finish L i path s =
     (let (c, ok) = sd_remove L path (card s); s = s\<lparr>card := c\<rparr>
      in if \<not> ok then (s, CE_SD_FILE_ERROR)
         else
           let s = (if 0 < i then removeAt (i - 1) s else s);
               (s, ok) = writeManifest L s
           in (s, if ok then CE_NONE else CE_MANIFEST_WRITE_ERROR))"

definition deletePattern :: "('c, 'h) sdlib \<Rightarrow> nat \<Rightarrow> ('c, 'h) sd \<Rightarrow> ('c, 'h) sd \<times> byte" where
  "deletePattern L i s =
     (if \<not> mounted s then (s, CE_SD_NOT_PRESENT)
      else if i = 0 then
        (let path = pattern_path pattern_temp_name
         in if \<not> sd_exists L path (card s) then (s, CE_BAD_PARAM) else delete_finish L i path s)
      else if pattern_count s < i then (s, CE_BAD_PARAM)
      else
        let s = (if file_open s \<and> open_id s = i then close_file L s else s)
        in delete_finish L i (pattern_path (names s ! (i - 1))) s)"

definition purgeMemory :: "('c, 'h) sdlib \<Rightarrow> ('c, 'h) sd \<Rightarrow> ('c, 'h) sd \<times> byte" where
  "purgeMemory L s =
     (if \<not> mounted s then (s, CE_SD_NOT_PRESENT)
      else
        let s = (if file_open s then close_file L s else s);
            (c, ok) = sd_format L (card s);
            s = s\<lparr>card := c\<rparr>
        in if \<not> ok then (s, CE_SD_FORMAT_ERROR)
           else
             let (s, ok) = writeManifest L (s\<lparr>names := [], origin_names := []\<rparr>)
             in (s, if ok then CE_NONE else CE_MANIFEST_WRITE_ERROR))"

text \<open>\<open>snprintf(candidate, 64, "X%03u_%s", n, new_name)\<close>.\<close>

definition prefixed_name :: "nat \<Rightarrow> byte list \<Rightarrow> byte list" where
  "prefixed_name n new_name =
     take 63 (of_char (CHR ''X'') # (let d = dec n in replicate (3 - length d) 48 @ d) @ of_char (CHR ''_'') # new_name)"

fun free_name :: "('c, 'h) sdlib \<Rightarrow> byte list \<Rightarrow> 'c \<Rightarrow> nat \<Rightarrow> nat \<Rightarrow> byte list \<Rightarrow> byte list" where
  "free_name L new_name c n 0 candidate = candidate"
| "free_name L new_name c n (Suc tries) candidate =
     (if sd_exists L (pattern_path candidate) c
      then free_name L new_name c (Suc n) tries (prefixed_name n new_name) else candidate)"

text \<open>The first index (1-based) of a name, 0 when it is not listed.\<close>

fun index_of :: "byte list \<Rightarrow> nat \<Rightarrow> byte list list \<Rightarrow> nat" where
  "index_of name i [] = 0"
| "index_of name i (n # ns) = (if n = name then i + 1 else index_of name (i + 1) ns)"

definition rename_finish :: "('c, 'h) sdlib \<Rightarrow> nat \<Rightarrow> byte list \<Rightarrow> byte list \<Rightarrow> byte list
    \<Rightarrow> ('c, 'h) sd \<Rightarrow> ('c, 'h) sd \<times> byte \<times> nat option" where
  "rename_finish L i old_path saved_origin new_name s =
     (let candidate = free_name L new_name (card s) 1 999 (take 63 new_name);
          (c, ok) = sd_rename L old_path (pattern_path candidate) (card s);
          s = s\<lparr>card := c\<rparr>
      in if \<not> ok then (s, CE_SD_FILE_ERROR, None)
         else
           let s = (if 0 < i then removeAt (i - 1) s else s);
               s = insertSorted candidate (if i = 0 then candidate else saved_origin) s;
               new_idx = index_of candidate 0 (names s);
               (s, ok) = writeManifest L s
           in (s, if ok then CE_NONE else CE_MANIFEST_WRITE_ERROR, Some new_idx))"

definition renamePattern :: "('c, 'h) sdlib \<Rightarrow> nat \<Rightarrow> byte list \<Rightarrow> ('c, 'h) sd \<Rightarrow> ('c, 'h) sd \<times> byte \<times> nat option" where
  "renamePattern L i new_name s =
     (if \<not> mounted s then (s, CE_SD_NOT_PRESENT, None)
      else if i = 0 then rename_finish L i (pattern_path pattern_temp_name) [] new_name s
      else if pattern_count s < i then (s, CE_BAD_PARAM, None)
      else
        let s = (if file_open s \<and> open_id s = i then close_file L s else s)
        in rename_finish L i (pattern_path (names s ! (i - 1))) (origin_names s ! (i - 1)) new_name s)"

section \<open>Opening and reading\<close>

definition le16 :: "byte list \<Rightarrow> nat \<Rightarrow> nat" where
  "le16 bs off = unat (get16 (bs ! off) (bs ! (off + 1)))"

definition validateHeaderBytes :: "byte list \<Rightarrow> byte" where
  "validateHeaderBytes hdr =
     (if hdr ! 0 \<noteq> of_char (CHR ''G'') \<or> hdr ! 1 \<noteq> of_char (CHR ''6'') \<or> hdr ! 2 \<noteq> of_char (CHR ''P'')
         \<or> hdr ! 3 \<noteq> of_char (CHR ''T'') then CE_HEADER_CRC
      else if unat (drop_bit 4 (hdr ! 4) AND 0x0F) \<noteq> pattern_format_version then CE_HEADER_CRC
      else if crc8_autosar (take (pattern_header_byte_count - 1) hdr) \<noteq> hdr ! (pattern_header_byte_count - 1)
        then CE_HEADER_CRC
      else if le16 hdr 6 = 0 then CE_HEADER_CRC
      else if hdr ! 10 \<noteq> 1 \<and> hdr ! 10 \<noteq> 2 then CE_HEADER_CRC
      else CE_NONE)"

definition header_info :: "byte list \<Rightarrow> pattern_info" where
  "header_info hdr =
     (let row = unat (hdr ! 8); col = unat (hdr ! 9); gs = hdr ! 10;
          bs = (if gs = 1 then panel_block_byte_count_gs2 else panel_block_byte_count_gs16)
      in \<lparr>frame_count = le16 hdr 6, row_count = row, col_count = col, gs_val = gs, block_size = bs,
          num_panels = row * col,
          frame_size = pattern_frame_prefix_byte_count + row * col * bs + pattern_frame_crc_byte_count\<rparr>)"

definition validateHeader :: "arena_hw \<Rightarrow> byte list \<Rightarrow> ('c, 'h) sd \<Rightarrow> ('c, 'h) sd \<times> byte" where
  "validateHeader b hdr s =
     (let err = validateHeaderBytes hdr
      in if err \<noteq> CE_NONE then (s, err)
         else
           let num_panels = unat (hdr ! 8) * unat (hdr ! 9);
               mask_bits = sum_list (map (\<lambda>i. popcount (hdr ! (11 + i))) [0..<6])
           in if num_panels = 0 \<or> arena_panel_count_max < num_panels then (s, CE_ARENA_MISMATCH)
              else if num_panels < mask_bits then (s, CE_ARENA_MISMATCH)
              else if unat (hdr ! 8) \<noteq> panel_count_per_frame_row b \<or> unat (hdr ! 9) \<noteq> panel_count_per_frame_col b
                then (s, CE_ARENA_MISMATCH)
              else (s\<lparr>info := header_info hdr\<rparr>, CE_NONE))"

definition open_read_header :: "('c, 'h) sdlib \<Rightarrow> arena_hw \<Rightarrow> nat \<Rightarrow> 'h \<Rightarrow> ('c, 'h) sd \<Rightarrow> ('c, 'h) sd \<times> byte" where
  "open_read_header L b i h s =
     (let (h, hdr) = sd_read L pattern_header_byte_count h (card s)
      in if length hdr \<noteq> pattern_header_byte_count
         then (s\<lparr>card := sd_close L h (card s), file_h := Some h\<rparr>, CE_SD_FILE_ERROR)
         else
           let (s, err) = validateHeader b hdr s
           in if err \<noteq> CE_NONE then (s\<lparr>card := sd_close L h (card s), file_h := Some h\<rparr>, err)
              else
                let s = (if \<not> legacy_seek s then s\<lparr>contiguous := sd_contiguous L h (card s)\<rparr> else s);
                    s = s\<lparr>applied_legacy_seek := legacy_seek s\<rparr>;
                    (h, _) = sd_seek L pattern_header_byte_count h (card s)
                in (s\<lparr>file_h := Some h, file_open := True, open_id := i\<rparr>, CE_NONE))"

definition openPattern :: "('c, 'h) sdlib \<Rightarrow> arena_hw \<Rightarrow> nat \<Rightarrow> ('c, 'h) sd \<Rightarrow> ('c, 'h) sd \<times> byte" where
  "openPattern L b i s =
     (if \<not> mounted s then (s, CE_SD_NOT_PRESENT)
      else if i = 0 \<or> pattern_count s < i then (s, CE_BAD_PARAM)
      else if file_open s \<and> open_id s = i \<and> applied_legacy_seek s = legacy_seek s then (s, CE_NONE)
      else
        let s = (if file_open s then close_file L s else s);
            s = s\<lparr>contiguous := False\<rparr>
        in case sd_open L (pattern_path (names s ! (i - 1))) (card s) of
             None \<Rightarrow> (s\<lparr>file_h := None\<rparr>, CE_SD_FILE_ERROR)
           | Some h \<Rightarrow> open_read_header L b i h s)"

definition setLegacySeek :: "bool \<Rightarrow> ('c, 'h) sd \<Rightarrow> ('c, 'h) sd" where
  "setLegacySeek on s = s\<lparr>legacy_seek := on\<rparr>"

text \<open>\<open>readFrame\<close>: the destination afterwards (the bytes read overwrite its start) and the code;
  the three phase timings are measurements only.\<close>

definition readFrame :: "('c, 'h) sdlib \<Rightarrow> nat \<Rightarrow> byte list \<Rightarrow> ('c, 'h) sd \<Rightarrow> ('c, 'h) sd \<times> byte list \<times> byte" where
  "readFrame L idx dest s =
     (if \<not> mounted s then (s, dest, CE_SD_NOT_PRESENT)
      else case (if file_open s then file_h s else None) of
        None \<Rightarrow> (s, dest, CE_SD_FILE_ERROR)
      | Some h \<Rightarrow>
        if frame_count (info s) \<le> idx then (s, dest, CE_BAD_PARAM)
        else
          let body_len = pattern_frame_prefix_byte_count + num_panels (info s) * block_size (info s)
          in if length dest < body_len then (s, dest, CE_BAD_PARAM)
             else
               let offset = pattern_header_byte_count + idx * frame_size (info s);
                   (h, ok) = sd_seek L offset h (card s);
                   s = s\<lparr>file_h := Some h\<rparr>
               in if \<not> ok then (s, dest, CE_SD_FILE_ERROR)
                  else
                    let (h, body) = sd_read L body_len h (card s);
                        s = s\<lparr>file_h := Some h\<rparr>;
                        dest = blit dest 0 body
                    in if length body \<noteq> body_len then (s, dest, CE_SD_FILE_ERROR)
                       else
                         let (h, crc) = sd_read L pattern_frame_crc_byte_count h (card s);
                             s = s\<lparr>file_h := Some h\<rparr>
                         in if length crc \<noteq> pattern_frame_crc_byte_count then (s, dest, CE_SD_FILE_ERROR)
                            else if dest ! 0 \<noteq> of_char (CHR ''F'') \<or> dest ! 1 \<noteq> of_char (CHR ''R'') then (s, dest, CE_FRAME_CRC)
                            else if crc16_ccitt_false (take body_len dest) \<noteq> get16 (crc ! 0) (crc ! 1) then (s, dest, CE_FRAME_CRC)
                            else (s, dest, CE_NONE))"


section \<open>Metadata without disturbing the open pattern\<close>

record pattern_meta =
  m_frame_count :: nat
  m_gs_val :: byte
  m_rows :: byte
  m_cols :: byte
  m_arena_id :: byte
  m_observer_id :: byte
  m_file_size :: nat
  m_duty_cycle :: byte

definition header_meta :: "byte list \<Rightarrow> nat \<Rightarrow> byte \<Rightarrow> pattern_meta" where
  "header_meta hdr fsize duty =
     \<lparr>m_frame_count = le16 hdr 6, m_gs_val = hdr ! 10, m_rows = hdr ! 8, m_cols = hdr ! 9,
      m_arena_id = push_bit 2 (hdr ! 4 AND 0x0F) OR drop_bit 6 (hdr ! 5),
      m_observer_id = hdr ! 5 AND 0x3F, m_file_size = fsize, m_duty_cycle = duty\<rparr>"

text \<open>Every path closes the separate handle.\<close>

definition meta_body :: "('c, 'h) sdlib \<Rightarrow> 'h \<Rightarrow> 'c \<Rightarrow> 'h \<times> (byte + pattern_meta)" where
  "meta_body L h c =
     (let (h, hdr) = sd_read L pattern_header_byte_count h c
      in if length hdr \<noteq> pattern_header_byte_count then (h, Inl CE_SD_FILE_ERROR)
         else
           let err = validateHeaderBytes hdr
           in if err \<noteq> CE_NONE then (h, Inl err)
              else
                let fsize = sd_size L h c;
                    bs = (if hdr ! 10 = 1 then panel_block_byte_count_gs2 else panel_block_byte_count_gs16);
                    off = pattern_header_byte_count + pattern_frame_prefix_byte_count + bs - 1
                in if fsize \<le> off then (h, Inl CE_SD_FILE_ERROR)
                   else
                     let (h, ok) = sd_seek L off h c
                     in if \<not> ok then (h, Inl CE_SD_FILE_ERROR)
                        else
                          let (h, d) = sd_read L 1 h c
                          in if length d \<noteq> 1 then (h, Inl CE_SD_FILE_ERROR)
                             else (h, Inr (header_meta hdr fsize (d ! 0))))"

definition readPatternInfo :: "('c, 'h) sdlib \<Rightarrow> nat \<Rightarrow> ('c, 'h) sd \<Rightarrow> ('c, 'h) sd \<times> (byte + pattern_meta)" where
  "readPatternInfo L i s =
     (if \<not> mounted s then (s, Inl CE_SD_NOT_PRESENT)
      else if i = 0 \<or> pattern_count s < i then (s, Inl CE_BAD_PARAM)
      else case sd_open L (pattern_path (names s ! (i - 1))) (card s) of
             None \<Rightarrow> (s, Inl CE_SD_FILE_ERROR)
           | Some h \<Rightarrow>
               let (h, r) = meta_body L h (card s)
               in (s\<lparr>card := sd_close L h (card s)\<rparr>, r))"

end
