(* ===== verification/SdProps.thy ===== *)
theory SdProps
  imports Sd
begin

text \<open>
  The catalogue stays sorted, bounded and in step with its origins under every operation and
  whatever the card answers; insertion and removal refine adding and removing one (name,
  origin) pair; an opened pattern fits the frame buffer; an accepted frame is intact.
\<close>

section \<open>\<open>strcmp\<close> is the lexicographic order\<close>

lemma strcmp_pos: "0 < strcmp a b \<longleftrightarrow> b < a"
  by (induction a b rule: strcmp.induct) auto

section \<open>Insertion and removal\<close>

lemma insert_pos_le: "insert_pos ns name p \<le> p"
  by (induction p) auto

lemma insert_pos_above: "insert_pos ns name p \<le> k \<Longrightarrow> k < p \<Longrightarrow> name < ns ! k"
proof (induction p)
  case (Suc p)
  then show ?case by (cases "k = p") (auto simp: strcmp_pos split: if_splits)
qed simp

lemma insert_pos_below: "0 < insert_pos ns name p \<Longrightarrow> ns ! (insert_pos ns name p - 1) \<le> name"
  by (induction p) (auto simp: strcmp_pos not_less split: if_splits)

lemma insert_at_props [simp]:
  "p \<le> length xs \<Longrightarrow> length (insert_at p x xs) = Suc (length xs)"
  "p \<le> length xs \<Longrightarrow> mset (insert_at p x xs) = add_mset x (mset xs)"
  "p \<le> length xs \<Longrightarrow> set (insert_at p x xs) = insert x (set xs)"
proof -
  show l: "length (insert_at p x xs) = Suc (length xs)" if "p \<le> length xs" using that by (simp add: insert_at_def)
  have "mset xs = mset (take p xs) + mset (drop p xs)" by (metis append_take_drop_id mset_append)
  then show "mset (insert_at p x xs) = add_mset x (mset xs)" by (simp add: insert_at_def)
  then show "set (insert_at p x xs) = insert x (set xs)" by (metis set_mset_add_mset_insert set_mset_mset)
qed

lemma sorted_insert:
  assumes "sorted ns" "p = insert_pos ns name (length ns)"
  shows "sorted (insert_at p name ns)"
proof -
  have le: "p \<le> length ns" using assms(2) insert_pos_le by simp
  have up: "name \<le> y" if y: "y \<in> set (drop p ns)" for y
  proof -
    obtain k where "k < length ns - p" "y = ns ! (p + k)" using y by (auto simp: in_set_conv_nth)
    then have "name < y" using insert_pos_above [of ns name "length ns" "p + k"] assms(2) le by simp
    then show ?thesis by (rule less_imp_le)
  qed
  have down: "x \<le> name" if x: "x \<in> set (take p ns)" for x
  proof -
    obtain k where k: "k < p" "x = ns ! k" using x le by (auto simp: in_set_conv_nth)
    then have "ns ! k \<le> ns ! (p - 1)" using assms(1) le by (intro sorted_nth_mono) auto
    moreover have "ns ! (p - 1) \<le> name" using insert_pos_below [of ns name "length ns"] k(1) assms(2) by auto
    ultimately show ?thesis using k(2) by simp
  qed
  have "x \<le> y" if "x \<in> set (take p ns)" "y \<in> set (drop p ns)" for x y
    using up [OF that(2)] down [OF that(1)] by simp
  then show ?thesis
    using up down assms(1) by (auto simp: insert_at_def sorted_append sorted_wrt_take sorted_wrt_drop)
qed

lemma remove_at_props:
  assumes "p < length xs"
  shows "length (remove_at p xs) = length xs - 1" "add_mset (xs ! p) (mset (remove_at p xs)) = mset xs"
    "set (remove_at p xs) \<subseteq> set xs"
proof -
  show "length (remove_at p xs) = length xs - 1" using assms by (simp add: remove_at_def)
  have "mset xs = mset (take p xs @ xs ! p # drop (Suc p) xs)" using id_take_nth_drop [OF assms] by simp
  then show m: "add_mset (xs ! p) (mset (remove_at p xs)) = mset xs" by (simp add: remove_at_def)
  show "set (remove_at p xs) \<subseteq> set xs" by (auto simp: remove_at_def dest: in_set_takeD in_set_dropD)
qed

lemma sorted_remove: "sorted xs \<Longrightarrow> sorted (remove_at p (xs :: 'a::linorder list))"
  by (auto simp: remove_at_def sorted_append sorted_wrt_take sorted_wrt_drop
      intro: sorted_nth_mono)
    (metis append_take_drop_id set_drop_subset_set_drop sorted_append subsetD le_SucI order_refl)

lemma zip_insert_at:
  "length ys = length xs \<Longrightarrow> p \<le> length xs \<Longrightarrow> zip (insert_at p x xs) (insert_at p y ys) = insert_at p (x, y) (zip xs ys)"
  by (simp add: insert_at_def zip_append take_zip drop_zip)

lemma zip_remove_at:
  "length ys = length xs \<Longrightarrow> zip (remove_at p xs) (remove_at p ys) = remove_at p (zip xs ys)"
  by (simp add: remove_at_def zip_append take_zip drop_zip)

section \<open>The catalogue invariant\<close>

definition sd_ok :: "('c, 'h) sd \<Rightarrow> bool" where
  "sd_ok s \<longleftrightarrow> sorted (names s) \<and> length (origin_names s) = length (names s) \<and> length (names s) \<le> pattern_max_count
     \<and> (\<forall>n\<in>set (names s) \<union> set (origin_names s). length n < pattern_name_byte_count)"

lemma sd_ok_cong: "names s' = names s \<Longrightarrow> origin_names s' = origin_names s \<Longrightarrow> sd_ok s' = sd_ok s"
  by (simp add: sd_ok_def)

lemma insertSorted_ok:
  assumes "sd_ok s" "length name < pattern_name_byte_count" "length origin < pattern_name_byte_count"
  shows "sd_ok (insertSorted name origin s)"
proof (cases "pattern_max_count \<le> pattern_count s")
  case False
  let ?p = "insert_pos (names s) name (length (names s))"
  have p: "?p \<le> length (names s)" by (rule insert_pos_le)
  with False show ?thesis
    using assms sorted_insert [of "names s" ?p name]
    by (auto simp: insertSorted_def sd_ok_def pattern_count_def Let_def)
qed (use assms in \<open>simp add: insertSorted_def\<close>)

lemma removeAt_ok: "sd_ok s \<Longrightarrow> sd_ok (removeAt p s)"
proof (cases "p < length (names s)")
  case True
  assume ok: "sd_ok s"
  then have l: "p < length (origin_names s)" using True by (simp add: sd_ok_def)
  note n = remove_at_props [OF True] and o = remove_at_props [OF l]
  have "length m < pattern_name_byte_count" if "m \<in> set (remove_at p (names s)) \<union> set (remove_at p (origin_names s))" for m
    using that ok n(3) o(3) by (auto simp: sd_ok_def dest: subsetD)
  then show ?thesis
    using ok True n(1) o(1) by (auto simp: removeAt_def sd_ok_def pattern_count_def sorted_remove)
qed (simp add: removeAt_def pattern_count_def)

lemma scan_entry_cases:
  "scan_entry e ns = ns \<or> (length (fst e) < pattern_name_byte_count \<and> length ns < pattern_max_count
     \<and> scan_entry e ns = insert_at (insert_pos ns (fst e) (length ns)) (fst e) ns)"
  by (simp add: scan_entry_def split: prod.splits)

lemma scan_entry_ok:
  assumes "sorted ns" "length ns \<le> pattern_max_count" "\<forall>n\<in>set ns. length n < pattern_name_byte_count"
  shows "sorted (scan_entry e ns) \<and> length (scan_entry e ns) \<le> pattern_max_count
    \<and> (\<forall>n\<in>set (scan_entry e ns). length n < pattern_name_byte_count)"
  using scan_entry_cases [of e ns]
proof (elim disjE conjE)
  assume e: "length (fst e) < pattern_name_byte_count" "length ns < pattern_max_count"
    "scan_entry e ns = insert_at (insert_pos ns (fst e) (length ns)) (fst e) ns"
  let ?p = "insert_pos ns (fst e) (length ns)"
  have p: "?p \<le> length ns" by (rule insert_pos_le)
  show ?thesis
    unfolding e(3) insert_at_props(1) [OF p] insert_at_props(3) [OF p]
    using sorted_insert [OF assms(1) refl, of "fst e"] e(1) Suc_leI [OF e(2)] assms(3) by blast
qed (use assms in simp)

lemma scan_ok:
  assumes "sorted ns" "length ns \<le> pattern_max_count" "\<forall>n\<in>set ns. length n < pattern_name_byte_count"
  shows "sorted (fold scan_entry es ns) \<and> length (fold scan_entry es ns) \<le> pattern_max_count
    \<and> (\<forall>n\<in>set (fold scan_entry es ns). length n < pattern_name_byte_count)"
  using assms
proof (induction es arbitrary: ns)
  case (Cons e es)
  have "fold scan_entry (e # es) ns = fold scan_entry es (scan_entry e ns)" by simp
  with Cons.IH scan_entry_ok [OF Cons.prems, of e] show ?case by metis
qed simp

text \<open>What the manifests and the handle operations leave alone.\<close>

lemma writeManifest_frame [simp]:
  "names (fst (writeManifest L s)) = names s" "origin_names (fst (writeManifest L s)) = origin_names s"
  "mounted (fst (writeManifest L s)) = mounted s" "file_h (fst (writeManifest L s)) = file_h s"
  "file_open (fst (writeManifest L s)) = file_open s" "open_id (fst (writeManifest L s)) = open_id s"
  "info (fst (writeManifest L s)) = info s"
  by (simp_all add: writeManifest_def writeManifest_bin_def writeManifest_txt_def Let_def split: prod.splits option.splits)

lemma close_file_frame [simp]:
  "names (close_file L s) = names s" "origin_names (close_file L s) = origin_names s"
  "mounted (close_file L s) = mounted s"
  by (simp_all add: close_file_def)

lemma scanPatterns_ok:
  "names s = [] \<Longrightarrow> sd_ok ((scanPatterns L s)\<lparr>origin_names := names (scanPatterns L s)\<rparr>)"
  using scan_ok [of "[]"] by (auto simp: scanPatterns_def sd_ok_def split: option.splits)

lemma sd_ok_empty: "names s = [] \<Longrightarrow> origin_names s = [] \<Longrightarrow> sd_ok s"
  by (simp add: sd_ok_def)

lemma sd_ok_updates [simp]:
  "sd_ok (s\<lparr>card := c\<rparr>) = sd_ok s" "sd_ok (s\<lparr>mounted := m\<rparr>) = sd_ok s" "sd_ok (s\<lparr>file_h := h\<rparr>) = sd_ok s"
  "sd_ok (s\<lparr>file_open := f\<rparr>) = sd_ok s" "sd_ok (s\<lparr>contiguous := f\<rparr>) = sd_ok s"
  "sd_ok (s\<lparr>legacy_seek := f\<rparr>) = sd_ok s" "sd_ok (s\<lparr>applied_legacy_seek := f\<rparr>) = sd_ok s"
  "sd_ok (s\<lparr>open_id := i\<rparr>) = sd_ok s" "sd_ok (s\<lparr>info := x\<rparr>) = sd_ok s"
  "sd_ok (close_file L s) = sd_ok s" "sd_ok (fst (writeManifest L s)) = sd_ok s"
  by (simp_all add: sd_ok_def)

lemma delete_finish_ok: "sd_ok s \<Longrightarrow> sd_ok (fst (delete_finish L i path s))"
  by (simp add: delete_finish_def Let_def case_prod_beta removeAt_ok)

lemma deletePattern_ok: "sd_ok s \<Longrightarrow> sd_ok (fst (deletePattern L i s))"
  by (simp add: deletePattern_def Let_def delete_finish_ok)

lemma purge_ok: "sd_ok s \<Longrightarrow> sd_ok (fst (purgeMemory L s))"
  by (simp add: purgeMemory_def Let_def case_prod_beta sd_ok_empty)

lemma free_name_len: "length cand < 64 \<Longrightarrow> length (free_name L nm c n tries cand) < 64"
  by (induction tries arbitrary: n cand) (auto simp: prefixed_name_def Let_def)

lemma rename_finish_ok:
  assumes "sd_ok s" "length orig < pattern_name_byte_count"
  shows "sd_ok (fst (rename_finish L i old orig nm s))"
proof -
  let ?c = "free_name L nm (card s) 1 999 (take 63 nm)"
  have c: "length ?c < pattern_name_byte_count"
    by (simp add: pattern_name_byte_count_def free_name_len)
  let ?t = "s\<lparr>card := fst (sd_rename L old (pattern_path ?c) (card s))\<rparr>"
  let ?u = "if 0 < i then removeAt (i - 1) ?t else ?t"
  have u: "sd_ok ?u" using assms(1) by (simp add: removeAt_ok)
  then have "sd_ok (insertSorted ?c (if i = 0 then ?c else orig) ?u)"
    using insertSorted_ok [of ?u ?c "if i = 0 then ?c else orig"] c assms(2) by (simp split: if_splits)
  then show ?thesis using u assms(1)
    by (simp only: rename_finish_def Let_def case_prod_beta fst_conv if_split sd_ok_updates) simp
qed

lemma renamePattern_ok:
  assumes "sd_ok s"
  shows "sd_ok (fst (renamePattern L i nm s))"
proof -
  have "length (origin_names s ! (i - 1)) < pattern_name_byte_count" if "0 < i" "i \<le> length (names s)"
  proof -
    have "origin_names s ! (i - 1) \<in> set (origin_names s)" using assms that by (auto simp: sd_ok_def)
    then show ?thesis using assms by (simp add: sd_ok_def)
  qed
  moreover have "length [] < pattern_name_byte_count" by (simp add: pattern_name_byte_count_def)
  ultimately show ?thesis
    using assms by (simp add: renamePattern_def Let_def pattern_count_def rename_finish_ok)
qed

lemma begin_ok: "sd_ok s \<Longrightarrow> sd_ok (fst (sd_begin L s))"
  by (simp add: sd_begin_def Let_def case_prod_beta sd_ok_empty scanPatterns_ok)

lemma rescan_ok: "sd_ok (rescan L s)"
  by (auto simp: rescan_def Let_def sd_ok_empty intro!: scanPatterns_ok)

lemma validateHeader_frame:
  "names (fst (validateHeader b hdr s)) = names s" "origin_names (fst (validateHeader b hdr s)) = origin_names s"
  by (simp_all add: validateHeader_def Let_def)

lemma open_read_header_frame:
  "names (fst (open_read_header L b i h s)) = names s \<and> origin_names (fst (open_read_header L b i h s)) = origin_names s"
proof -
  obtain t e where v: "validateHeader b (snd (sd_read L pattern_header_byte_count h (card s))) s = (t, e)" by fastforce
  then have "names t = names s" "origin_names t = origin_names s"
    using validateHeader_frame [of b _ s] by (metis fst_conv)+
  then show ?thesis using v by (auto simp: open_read_header_def Let_def split: prod.splits)
qed

lemma open_frame:
  "names (fst (openPattern L b i s)) = names s" "origin_names (fst (openPattern L b i s)) = origin_names s"
  by (simp_all add: openPattern_def open_read_header_frame Let_def split: option.splits)

lemma readFrame_frame:
  "names (fst (readFrame L i d s)) = names s" "origin_names (fst (readFrame L i d s)) = origin_names s"
  "info (fst (readFrame L i d s)) = info s"
  by (auto simp: readFrame_def Let_def split: prod.splits option.splits)

lemma meta_frame:
  "names (fst (readPatternInfo L i s)) = names s" "origin_names (fst (readPatternInfo L i s)) = origin_names s"
  by (auto simp: readPatternInfo_def split: prod.splits option.splits)

datatype sd_op =
    Mount
  | Rescan
  | Delete nat
  | Purge
  | RenameTo nat "byte list"
  | OpenPat nat
  | ReadFrame nat "byte list"
  | Meta nat
  | LegacySeek bool

fun sd_step :: "('c, 'h) sdlib \<Rightarrow> arena_hw \<Rightarrow> sd_op \<Rightarrow> ('c, 'h) sd \<Rightarrow> ('c, 'h) sd" where
  "sd_step L b Mount s = fst (sd_begin L s)"
| "sd_step L b Rescan s = rescan L s"
| "sd_step L b (Delete i) s = fst (deletePattern L i s)"
| "sd_step L b Purge s = fst (purgeMemory L s)"
| "sd_step L b (RenameTo i nm) s = fst (renamePattern L i nm s)"
| "sd_step L b (OpenPat i) s = fst (openPattern L b i s)"
| "sd_step L b (ReadFrame i d) s = fst (readFrame L i d s)"
| "sd_step L b (Meta i) s = fst (readPatternInfo L i s)"
| "sd_step L b (LegacySeek v) s = setLegacySeek v s"

lemma sd_step_ok: "sd_ok s \<Longrightarrow> sd_ok (sd_step L b a s)"
  by (cases a) (simp_all add: begin_ok rescan_ok deletePattern_ok purge_ok renamePattern_ok setLegacySeek_def
      sd_ok_cong [OF open_frame] sd_ok_cong [OF readFrame_frame(1,2)] sd_ok_cong [OF meta_frame])

interpretation sd: invariant_machine "sd_step L b" sd_ok for L b
  by unfold_locales (rule sd_step_ok)


section \<open>The open pattern fits this arena\<close>

definition wf_info :: "arena_hw \<Rightarrow> pattern_info \<Rightarrow> bool" where
  "wf_info b x \<longleftrightarrow> (gs_val x = 1 \<and> block_size x = 53 \<or> gs_val x = 2 \<and> block_size x = 203)
     \<and> num_panels x = panel_count_per_frame b \<and> frame_size x = 4 + num_panels x * block_size x + 2
     \<and> 0 < frame_count x \<and> frame_count x < 65536"

lemma CE_distinct [simp]:
  "CE_NONE \<noteq> CE_HEADER_CRC" "CE_NONE \<noteq> CE_ARENA_MISMATCH" "CE_NONE \<noteq> CE_SD_FILE_ERROR" "CE_NONE \<noteq> CE_BAD_PARAM"
  "CE_NONE \<noteq> CE_SD_NOT_PRESENT" "CE_NONE \<noteq> CE_FRAME_CRC" "CE_NONE \<noteq> CE_MANIFEST_WRITE_ERROR"
  "CE_HEADER_CRC \<noteq> CE_NONE" "CE_ARENA_MISMATCH \<noteq> CE_NONE" "CE_SD_FILE_ERROR \<noteq> CE_NONE" "CE_BAD_PARAM \<noteq> CE_NONE"
  "CE_SD_NOT_PRESENT \<noteq> CE_NONE" "CE_FRAME_CRC \<noteq> CE_NONE" "CE_MANIFEST_WRITE_ERROR \<noteq> CE_NONE"
  by (simp_all add: CE_defs)

lemma header_bytes_ok:
  "validateHeaderBytes hdr = CE_NONE \<Longrightarrow> le16 hdr 6 \<noteq> 0 \<and> (hdr ! 10 = 1 \<or> hdr ! 10 = 2)"
  by (auto simp: validateHeaderBytes_def split: if_splits)

lemma validateHeader_ok:
  assumes "snd (validateHeader b hdr s) = CE_NONE"
  shows "wf_info b (info (fst (validateHeader b hdr s)))"
proof -
  have hb: "validateHeaderBytes hdr = CE_NONE" using assms by (auto simp: validateHeader_def Let_def split: if_splits)
  have rc: "unat (hdr ! 8) = panel_count_per_frame_row b" "unat (hdr ! 9) = panel_count_per_frame_col b"
    and i: "info (fst (validateHeader b hdr s)) = header_info hdr"
    using assms hb by (auto simp: validateHeader_def Let_def split: if_splits)
  have "le16 hdr 6 < 65536" by (simp add: le16_def)
  then show ?thesis
    unfolding i using header_bytes_ok [OF hb] rc
    by (auto simp: wf_info_def header_info_def Let_def panel_count_per_frame_def panel_block_byte_count_gs2_def
        panel_block_byte_count_gs16_def pattern_frame_prefix_byte_count_def pattern_frame_crc_byte_count_def)
qed

definition fits :: "arena_hw \<Rightarrow> ('c, 'h) sd \<Rightarrow> bool" where
  "fits b s \<longleftrightarrow> (file_open s \<longrightarrow> file_h s \<noteq> None \<and> wf_info b (info s))"

lemma fits_updates [simp]:
  "fits b (s\<lparr>card := c\<rparr>) = fits b s" "fits b (s\<lparr>names := n\<rparr>) = fits b s" "fits b (s\<lparr>origin_names := n\<rparr>) = fits b s"
  "fits b (s\<lparr>mounted := m\<rparr>) = fits b s" "fits b (s\<lparr>legacy_seek := v\<rparr>) = fits b s"
  "fits b (close_file L s)" "fits b (fst (writeManifest L s)) = fits b s"
  "fits b (removeAt p s) = fits b s" "fits b (insertSorted nm orig s) = fits b s"
  "fits b s \<Longrightarrow> fits b (s\<lparr>file_h := Some h\<rparr>)"
  by (auto simp: fits_def close_file_def removeAt_def insertSorted_def Let_def)

lemma validateHeader_open: "file_open (fst (validateHeader b hdr s)) = file_open s"
  by (simp add: validateHeader_def Let_def)

lemma open_read_header_fits:
  assumes "\<not> file_open s"
  shows "fits b (fst (open_read_header L b i h s))"
proof -
  obtain h' hdr where r: "sd_read L pattern_header_byte_count h (card s) = (h', hdr)" by fastforce
  obtain t e where v: "validateHeader b hdr s = (t, e)" by fastforce
  have "\<not> file_open t" using validateHeader_open [of b hdr s] v assms by simp
  moreover have "e = CE_NONE \<Longrightarrow> wf_info b (info t)" using validateHeader_ok [of b hdr s] v by simp
  ultimately show ?thesis using assms by (auto simp: open_read_header_def r v Let_def fits_def split: prod.splits)
qed

lemma close_file_closed [simp]: "\<not> file_open (close_file L s)"
  by (simp add: close_file_def)

lemma open_fits: "fits b s \<Longrightarrow> fits b (fst (openPattern L b i s))"
proof -
  assume f: "fits b s"
  let ?s = "(if file_open s then close_file L s else s)\<lparr>contiguous := False\<rparr>"
  have c: "\<not> file_open ?s" by simp
  then have "fits b (?s\<lparr>file_h := None\<rparr>)" by (simp add: fits_def)
  with f open_read_header_fits [OF c] show ?thesis
    by (auto simp: openPattern_def Let_def split: option.splits)
qed

lemma scanPatterns_fits [simp]: "fits b (scanPatterns L s) = fits b s"
  by (simp add: scanPatterns_def split: option.splits)

lemma delete_fits: "fits b s \<Longrightarrow> fits b (fst (delete_finish L i path s))"
  by (simp add: delete_finish_def Let_def case_prod_beta)

lemma rename_fits: "fits b s \<Longrightarrow> fits b (fst (rename_finish L i old orig nm s))"
  by (simp add: rename_finish_def Let_def case_prod_beta)

lemma readFrame_fits: "fits b s \<Longrightarrow> fits b (fst (readFrame L i d s))"
  by (auto simp: readFrame_def Let_def split: prod.splits option.splits)

lemma sd_step_fits: "fits b s \<Longrightarrow> fits b (sd_step L b a s)"
  by (cases a)
    (simp_all add: sd_begin_def rescan_def deletePattern_def purgeMemory_def renamePattern_def readPatternInfo_def
      setLegacySeek_def Let_def case_prod_beta delete_fits rename_fits open_fits readFrame_fits split: option.splits)

interpretation sd_fit: invariant_machine "sd_step L b" "fits b" for L b
  by unfold_locales (rule sd_step_fits)


section \<open>Properties\<close>

text \<open>C13: whatever the card answers and whatever is called, the catalogue stays sorted by \<open>strcmp\<close>,
  within 256 entries of at most 63 characters, and in step with its origins.\<close>

lemma catalogue_invariant:
  "let s = fold (sd_step L b) ops (sd0 c)
   in sorted (names s) \<and> length (names s) \<le> 256 \<and> length (origin_names s) = length (names s)
    \<and> set (names s) \<union> set (origin_names s) \<subseteq> {n. length n < 64}"
proof -
  have "sd_ok (sd0 c)" by (simp add: sd_ok_def sd0_def)
  from sd.run_invar [OF this, of L b ops] show ?thesis
    by (auto simp: sd_ok_def Let_def pattern_max_count_def pattern_name_byte_count_def)
qed

text \<open>The catalogue as what it stands for: a multiset of (name, origin) pairs.\<close>

definition catalogue :: "('c, 'h) sd \<Rightarrow> (byte list \<times> byte list) multiset" where
  "catalogue s = mset (zip (names s) (origin_names s))"

lemma catalogue_updates [simp]:
  "catalogue (s\<lparr>card := c\<rparr>) = catalogue s" "catalogue (close_file L s) = catalogue s"
  "catalogue (fst (writeManifest L s)) = catalogue s"
  by (simp_all add: catalogue_def)

lemma catalogue_insert:
  assumes "length (origin_names s) = length (names s)" "pattern_count s < pattern_max_count"
  shows "catalogue (insertSorted n orig s) = add_mset (n, orig) (catalogue s)"
  using assms insert_pos_le [of "names s" n "length (names s)"]
  by (simp add: insertSorted_def catalogue_def Let_def zip_insert_at pattern_count_def)

lemma catalogue_remove:
  assumes "length (origin_names s) = length (names s)" "p < pattern_count s"
  shows "add_mset (names s ! p, origin_names s ! p) (catalogue (removeAt p s)) = catalogue s"
  using assms remove_at_props(2) [of p "zip (names s) (origin_names s)"]
  by (simp add: removeAt_def catalogue_def zip_remove_at pattern_count_def)

lemma removeAt_lengths:
  "p < pattern_count s \<Longrightarrow> length (origin_names s) = length (names s) \<Longrightarrow>
    length (names (removeAt p s)) = length (names s) - 1 \<and> length (origin_names (removeAt p s)) = length (names s) - 1"
  by (simp add: removeAt_def pattern_count_def remove_at_props(1))

text \<open>C37: a rename that the card carried out replaces exactly the renamed entry's pair by the new name
  with its origin kept, and a delete that it carried out removes exactly its pair, whether or
  not the manifest could then be written.\<close>

lemma rename_delete_exact:
  assumes "length (origin_names s) = length (names s)" "mounted s" "0 < i" "i \<le> pattern_count s" "pattern_count s \<le> pattern_max_count"
  shows "(let (s', e, idx) = renamePattern L i nm s
          in idx = None \<and> e = CE_SD_FILE_ERROR \<and> catalogue s' = catalogue s
           \<or> (\<exists>new. catalogue s' + {#(names s ! (i - 1), origin_names s ! (i - 1))#} = catalogue s + {#(new, origin_names s ! (i - 1))#}))
    \<and> (let (s', e) = deletePattern L i s
       in e = CE_SD_FILE_ERROR \<and> catalogue s' = catalogue s
        \<or> (e = CE_NONE \<or> e = CE_MANIFEST_WRITE_ERROR) \<and> catalogue s' + {#(names s ! (i - 1), origin_names s ! (i - 1))#} = catalogue s)"
proof -
  let ?n = "names s ! (i - 1)" and ?o = "origin_names s ! (i - 1)"
  have rem: "catalogue (removeAt (i - 1) t) + {#(?n, ?o)#} = catalogue s \<and> pattern_count (removeAt (i - 1) t) < pattern_max_count
      \<and> length (origin_names (removeAt (i - 1) t)) = length (names (removeAt (i - 1) t))"
    if "names t = names s" "origin_names t = origin_names s" for t :: "('a, 'b) sd"
  proof -
    have t: "length (origin_names t) = length (names t)" "i - 1 < pattern_count t" "catalogue t = catalogue s"
      using that assms by (simp_all add: pattern_count_def catalogue_def)
    have m: "pattern_count t \<le> pattern_max_count" using that assms(5) by (simp add: pattern_count_def)
    show ?thesis
      using catalogue_remove [OF t(1,2)] removeAt_lengths [OF t(2,1)] that t m by (simp add: pattern_count_def)
  qed
  let ?s = "if file_open s \<and> open_id s = i then close_file L s else s"
  have del: "let (s', e) = delete_finish L i path ?s
       in e = CE_SD_FILE_ERROR \<and> catalogue s' = catalogue s
        \<or> (e = CE_NONE \<or> e = CE_MANIFEST_WRITE_ERROR) \<and> catalogue s' + {#(?n, ?o)#} = catalogue s" for path
    using assms(3) rem [of "?s\<lparr>card := fst (sd_remove L path (card ?s))\<rparr>"]
    by (simp add: delete_finish_def Let_def case_prod_beta)
  have ren: "let (s', e, idx) = rename_finish L i old ?o nm ?s
       in idx = None \<and> e = CE_SD_FILE_ERROR \<and> catalogue s' = catalogue s
        \<or> (\<exists>new. catalogue s' + {#(?n, ?o)#} = catalogue s + {#(new, ?o)#})" for old
  proof -
    let ?c = "free_name L nm (card ?s) 1 999 (take 63 nm)"
    let ?t = "?s\<lparr>card := fst (sd_rename L old (pattern_path ?c) (card ?s))\<rparr>"
    have r: "catalogue (removeAt (i - 1) ?t) + {#(?n, ?o)#} = catalogue s" "pattern_count (removeAt (i - 1) ?t) < pattern_max_count"
      "length (origin_names (removeAt (i - 1) ?t)) = length (names (removeAt (i - 1) ?t))"
      using rem [of ?t] by simp_all
    have "catalogue (insertSorted ?c ?o (removeAt (i - 1) ?t)) + {#(?n, ?o)#} = catalogue s + {#(?c, ?o)#}"
      unfolding catalogue_insert [OF r(3,2)] r(1) [symmetric] by simp
    then show ?thesis
      using assms(3) unfolding rename_finish_def Let_def case_prod_beta
      by (cases "snd (sd_rename L old (pattern_path ?c) (card ?s))") (auto simp del: One_nat_def)
  qed
  have e1: "renamePattern L i nm s = rename_finish L i (pattern_path ?n) ?o nm ?s"
    using assms(2-4) by (simp add: renamePattern_def Let_def)
  have e2: "deletePattern L i s = delete_finish L i (pattern_path ?n) ?s"
    using assms(2-4) by (simp add: deletePattern_def Let_def)
  show ?thesis unfolding e1 e2 by (intro conjI del ren)
qed

text \<open>A small card to instantiate the library with: one flat file of bytes, handles are positions,
  every write and directory change succeeds.\<close>

definition flat_card :: "(byte list, nat) sdlib" where
  "flat_card = \<lparr>sd_mount = \<lambda>c. (c, True), sd_list = \<lambda>c. None, sd_exists = \<lambda>p c. False, sd_remove = \<lambda>p c. (c, True),
     sd_rename = \<lambda>p q c. (c, True), sd_format = \<lambda>c. ([], True), sd_open = \<lambda>p c. Some 0,
     sd_create = \<lambda>p c. (c, Some 0), sd_write = \<lambda>bs h c. (c, h, length bs), sd_close = \<lambda>h c. c,
     sd_seek = \<lambda>n h c. (n, True), sd_read = \<lambda>n h c. (h + n, take n (drop h c)), sd_size = \<lambda>h c. length c,
     sd_contiguous = \<lambda>h c. True, sd_mkdir = \<lambda>p c. c\<rparr>"

definition three_patterns :: "byte list \<Rightarrow> (byte list, nat) sd" where
  "three_patterns c = (sd0 c)\<lparr>mounted := True, names := [str ''a.pat'', str ''b.pat'', str ''c.pat''],
     origin_names := [str ''a.pat'', str ''b.pat'', str ''c.pat''], file_h := Some 18, file_open := True, open_id := 2,
     info := \<lparr>frame_count = 1, row_count = 1, col_count = 1, gs_val = 1, block_size = 2, num_panels = 1, frame_size = 8\<rparr>\<rparr>"

lemma rename_delete_exact_witness:
  "catalogue (fst (deletePattern flat_card 2 (three_patterns []))) + {#(str ''b.pat'', str ''b.pat'')#}
     = catalogue (three_patterns [])"
proof -
  have h: "length (origin_names (three_patterns [])) = length (names (three_patterns []))" "mounted (three_patterns [])"
    "0 < (2 :: nat)" "2 \<le> pattern_count (three_patterns [])" "pattern_count (three_patterns []) \<le> pattern_max_count"
    by (simp_all add: three_patterns_def pattern_count_def pattern_max_count_def)
  have "snd (deletePattern flat_card 2 (three_patterns [])) \<noteq> CE_SD_FILE_ERROR"
    by (simp add: deletePattern_def delete_finish_def three_patterns_def flat_card_def pattern_count_def Let_def case_prod_beta CE_defs)
  moreover have "names (three_patterns []) ! (2 - 1) = str ''b.pat''" "origin_names (three_patterns []) ! (2 - 1) = str ''b.pat''"
    by (simp_all add: three_patterns_def)
  ultimately show ?thesis
    using rename_delete_exact [OF h, of flat_card "[]"] by (auto simp: case_prod_beta)
qed



text \<open>C36: a frame whose stored body is damaged in up to two adjacent bytes is never shown: the read
  returns the frame-CRC error (or, with the magic itself hit, the same code).\<close>

lemma damaged_frame_rejected:
  assumes "mounted s" "file_open s" "file_h s = Some h" "idx < frame_count (info s)"
    and len: "length good = 4 + num_panels (info s) * block_size (info s)" "length good \<le> length dest"
    and seek: "sd_seek L (18 + idx * frame_size (info s)) h (card s) = (h1, True)"
    and body: "sd_read L (length good) h1 (card s) = (h2, good[i := a, Suc i := b])"
    and crc: "sd_read L 2 h2 (card s) = (h3, put16 (crc16_ccitt_false good))"
    and damage: "Suc i < length good" "(a, b) \<noteq> (good ! i, good ! Suc i)"
  shows "snd (snd (readFrame L idx dest s)) = CE_FRAME_CRC"
proof -
  have "crc16_ccitt_false (good[i := a, Suc i := b]) \<noteq> crc16_ccitt_false good"
    unfolding crc16_ccitt_false_def using damage by (rule crc16.detects_adjacent)
  moreover have "take (length good) (blit dest 0 (good[i := a, Suc i := b])) = good[i := a, Suc i := b]"
    by (simp add: blit_def)
  ultimately show ?thesis
    using assms(1-4) len(2) seek body crc
    by (simp add: readFrame_def Let_def pattern_frame_prefix_byte_count_def pattern_header_byte_count_def
        pattern_frame_crc_byte_count_def len(1) [symmetric] not_le)
qed

definition small_frame :: "byte list" where
  "small_frame = [0x46, 0x52, 0, 0, 1, 2]"

lemma damaged_frame_rejected_witness:
  "snd (snd (readFrame flat_card 0 (replicate 6 0)
     (three_patterns (replicate 18 0 @ small_frame[4 := 9, Suc 4 := 2] @ put16 (crc16_ccitt_false small_frame))))) = CE_FRAME_CRC"
proof -
  define c where "c = replicate 18 0 @ small_frame[4 := 9, Suc 4 := 2] @ put16 (crc16_ccitt_false small_frame)"
  have s: "mounted (three_patterns c)" "file_open (three_patterns c)" "file_h (three_patterns c) = Some 18"
    "0 < frame_count (info (three_patterns c))"
    "length small_frame = 4 + num_panels (info (three_patterns c)) * block_size (info (three_patterns c))"
    "length small_frame \<le> length (replicate 6 (0 :: byte))" "card (three_patterns c) = c"
    by (simp_all add: three_patterns_def small_frame_def sd0_def)
  have r: "take (length small_frame) (drop 18 c) = small_frame[4 := 9, Suc 4 := 2]"
    "take 2 (drop 24 c) = put16 (crc16_ccitt_false small_frame)"
    unfolding c_def by (simp_all add: small_frame_def)
  show ?thesis
    unfolding c_def [symmetric]
    by (rule damaged_frame_rejected [OF s(1-6), where ?h1.0 = 18 and ?h2.0 = 24 and ?h3.0 = 26 and i = 4 and a = 9 and b = 2])
      (simp_all add: s(7) r flat_card_def, simp_all add: small_frame_def)
qed

text \<open>C39: a delete of a lower-sorted pattern while one is open leaves the handle cache on the wrong
  entry: opening the same index afterwards reports success with the old handle, though that
  index now names the next pattern.\<close>

lemma delete_leaves_stale_handle:
  assumes "mounted s" "file_open s" "open_id s = i" "applied_legacy_seek s = legacy_seek s"
    and "0 < j" "j < i" "i < pattern_count s" "snd (sd_remove L (pattern_path (names s ! (j - 1))) (card s))"
  shows "let s' = fst (deletePattern L j s)
         in snd (openPattern L b i s') = CE_NONE \<and> file_h (fst (openPattern L b i s')) = file_h s
          \<and> patternName i s' = Some (names s ! i)"
proof -
  let ?t = "removeAt (j - 1) (s\<lparr>card := fst (sd_remove L (pattern_path (names s ! (j - 1))) (card s))\<rparr>)"
  have d: "fst (deletePattern L j s) = fst (writeManifest L ?t)"
    using assms by (simp add: deletePattern_def delete_finish_def Let_def case_prod_beta)
  have "\<not> pattern_count s \<le> j - 1" using assms by simp
  then have n: "names ?t = remove_at (j - 1) (names s)" by (simp add: removeAt_def pattern_count_def)
  have k: "mounted ?t" "file_open ?t" "open_id ?t = i" "file_h ?t = file_h s"
    using assms by (simp_all add: removeAt_def)
  have leg: "applied_legacy_seek (fst (writeManifest L u)) = applied_legacy_seek u
      \<and> legacy_seek (fst (writeManifest L u)) = legacy_seek u" for u :: "('a, 'b) sd"
    by (simp add: writeManifest_def writeManifest_bin_def writeManifest_txt_def Let_def split: prod.splits option.splits)
  have a: "applied_legacy_seek ?t = legacy_seek ?t" using assms by (simp add: removeAt_def)
  have len: "length (remove_at (j - 1) (names s)) = length (names s) - 1"
    using assms by (intro remove_at_props) (simp add: pattern_count_def)
  have "remove_at (j - 1) (names s) ! (i - 1) = names s ! i"
    using assms by (simp add: remove_at_def nth_append pattern_count_def min_def) (auto simp: not_less)
  then show ?thesis
    using assms k leg a len n by (auto simp: Let_def d openPattern_def patternName_def pattern_count_def)
qed

lemma delete_leaves_stale_handle_witness:
  "snd (openPattern flat_card ARENA_HW_2_10 2 (fst (deletePattern flat_card 1 (three_patterns [])))) = CE_NONE
   \<and> patternName 2 (fst (deletePattern flat_card 1 (three_patterns []))) = Some (str ''c.pat'')"
  using delete_leaves_stale_handle [of "three_patterns []" 2 1 flat_card ARENA_HW_2_10]
  by (simp add: three_patterns_def sd0_def flat_card_def pattern_count_def Let_def)

end
