(* ===== verification/Watchdog.thy ===== *)
theory Watchdog
  imports Health
begin

text \<open>
  The watchdog policy of \<open>src/src/Health.cpp\<close>: programming the RTWDOG with verification and
  one retry, calibrating its timeouts, kicking, enabling, and the nesting long-operation
  window.

  The peripheral is outside src/: its registers are the operations of \<open>rtwdog\<close> on an opaque
  state 'h, and the bit masks of its header are fields. The measured tick rate (a timing
  loop over its counter) is an argument.
\<close>

section \<open>The peripheral\<close>

record 'h rtwdog =
  gate_on :: "'h \<Rightarrow> 'h"
  rd_cs :: "'h \<Rightarrow> u32"
  rd_cnt :: "'h \<Rightarrow> u32"
  rd_toval :: "'h \<Rightarrow> u32"
  wr_cnt :: "u32 \<Rightarrow> 'h \<Rightarrow> 'h"
  wr_toval :: "u32 \<Rightarrow> 'h \<Rightarrow> 'h"
  wr_win :: "u32 \<Rightarrow> 'h \<Rightarrow> 'h"
  wr_cs :: "u32 \<Rightarrow> 'h \<Rightarrow> 'h"
  settle :: "'h \<Rightarrow> 'h \<times> bool"
  cs_en :: u32
  cs_cmd32en :: u32
  cs_fixed :: u32

section \<open>State\<close>

record 'h wd =
  wd_hw :: 'h
  wd_compiled :: bool
  wd_wanted :: bool
  wd_armed :: bool
  wd_starve :: bool
  wd_failed :: bool
  wd_irq_installed :: bool
  wd_suspend :: byte
  wd_cmd32 :: bool
  wd_cs_boot :: u32
  wd_cs_last :: u32
  wd_cs_boot_captured :: bool
  wd_tick_hz :: u32
  wd_toval_normal :: u16
  wd_toval_longop :: u16
  wd_verify :: byte
  wd_cnt_before_max :: u16
  wd_cnt_after_min :: u16
  wd_cnt_after_max :: u16
  wd_kicks :: u32

definition wd0 :: "bool \<Rightarrow> 'h \<Rightarrow> 'h wd" where
  "wd0 compiled h = \<lparr>wd_hw = h, wd_compiled = compiled, wd_wanted = compiled, wd_armed = False, wd_starve = False,
     wd_failed = False, wd_irq_installed = False, wd_suspend = 0, wd_cmd32 = True, wd_cs_boot = 0, wd_cs_last = 0,
     wd_cs_boot_captured = False, wd_tick_hz = 0, wd_toval_normal = 0, wd_toval_longop = 0, wd_verify = 0,
     wd_cnt_before_max = 0, wd_cnt_after_min = 0xFFFF, wd_cnt_after_max = 0, wd_kicks = 0\<rparr>"

definition kTovalProvisional :: u16 where "kTovalProvisional = 0xFFFF"
definition watchdog_timeout_ms :: u64 where "watchdog_timeout_ms = 2000"
definition watchdog_longop_ms :: u64 where "watchdog_longop_ms = 30000"
definition watchdog_offset_ticks :: u64 where "watchdog_offset_ticks = 190"
definition watchdog_tick_hz_fallback :: u32 where "watchdog_tick_hz_fallback = 127"

section \<open>Register sequences\<close>

definition rtwdogGateOn :: "'h rtwdog \<Rightarrow> 'h wd \<Rightarrow> 'h wd" where
  "rtwdogGateOn H s =
     (let s = s\<lparr>wd_hw := gate_on H (wd_hw s)\<rparr>
      in if \<not> wd_cs_boot_captured s
         then s\<lparr>wd_cs_boot := rd_cs H (wd_hw s), wd_cmd32 := (rd_cs H (wd_hw s) AND cs_cmd32en H \<noteq> 0),
                wd_cs_boot_captured := True\<rparr>
         else s)"

definition refresh_hw :: "'h rtwdog \<Rightarrow> bool \<Rightarrow> 'h \<Rightarrow> 'h" where
  "refresh_hw H cmd32 h = (if cmd32 then wr_cnt H 0xB480A602 h else wr_cnt H 0xB480 (wr_cnt H 0xA602 h))"

definition rtwdogRefresh :: "'h rtwdog \<Rightarrow> 'h wd \<Rightarrow> 'h wd" where
  "rtwdogRefresh H s = s\<lparr>wd_hw := refresh_hw H (wd_cmd32 s) (wd_hw s)\<rparr>"

text \<open>Unlock, TOVAL, WIN, CS, then the settle (the bounded spin on RCS and 300 us).\<close>

definition attempt_hw :: "'h rtwdog \<Rightarrow> bool \<Rightarrow> u16 \<Rightarrow> bool \<Rightarrow> 'h \<Rightarrow> 'h \<times> bool" where
  "attempt_hw H enable toval key32 h =
     (let h = (if key32 then wr_cnt H 0xD928C520 h else wr_cnt H 0xD928 (wr_cnt H 0xC520 h));
          h = wr_toval H (ucast toval) h;
          h = wr_win H 0 h;
          h = wr_cs H (cs_fixed H OR (if enable then cs_en H else 0)) h
      in settle H h)"

definition rtwdogAttempt :: "'h rtwdog \<Rightarrow> bool \<Rightarrow> u16 \<Rightarrow> bool \<Rightarrow> 'h wd \<Rightarrow> 'h wd \<times> bool" where
  "rtwdogAttempt H enable toval key32 s =
     (let (h, rcs) = attempt_hw H enable toval key32 (wd_hw s);
          cs = rd_cs H h;
          s = s\<lparr>wd_hw := h, wd_cs_last := cs, wd_cmd32 := (cs AND cs_cmd32en H \<noteq> 0)\<rparr>;
          toval_rb = rd_toval H h AND 0xFFFF;
          en_bad = ((cs AND cs_en H \<noteq> 0) \<noteq> enable);
          to_bad = (toval_rb \<noteq> ucast toval);
          v = (if \<not> rcs then 0x01 else 0) OR (if en_bad then 0x02 else 0) OR (if to_bad then 0x04 else 0);
          s = s\<lparr>wd_verify := (wd_verify s AND 0x18) OR v\<rparr>;
          ok = (\<not> en_bad \<and> \<not> to_bad)
      in (if ok then rtwdogRefresh H s else s, ok))"

definition rtwdogProgram :: "'h rtwdog \<Rightarrow> bool \<Rightarrow> u16 \<Rightarrow> 'h wd \<Rightarrow> 'h wd \<times> bool" where
  "rtwdogProgram H enable toval s =
     (let s = rtwdogGateOn H s;
          s = s\<lparr>wd_verify := wd_verify s AND 0x08\<rparr>;
          key32 = wd_cmd32 s;
          (s, ok) = rtwdogAttempt H enable toval key32 s
      in if ok then (s, True)
         else rtwdogAttempt H enable toval (\<not> key32) (s\<lparr>wd_verify := wd_verify s OR 0x10\<rparr>))"

definition rtwdogApply :: "'h rtwdog \<Rightarrow> bool \<Rightarrow> u16 \<Rightarrow> 'h wd \<Rightarrow> 'h wd \<times> bool" where
  "rtwdogApply H enable toval s =
     (let s = (if enable then s\<lparr>wd_irq_installed := True\<rparr> else s);
          (s, ok) = rtwdogProgram H enable toval s;
          s = s\<lparr>wd_failed := \<not> ok\<rparr>
      in (if ok then s\<lparr>wd_armed := enable\<rparr> else if enable then s\<lparr>wd_armed := True\<rparr> else s, ok))"

definition rtwdogEarlyArm :: "'h rtwdog \<Rightarrow> 'h wd \<Rightarrow> 'h wd" where
  "rtwdogEarlyArm H s =
     (let s = rtwdogGateOn H s;
          s = (if wd_cs_boot s AND cs_en H \<noteq> 0 then rtwdogRefresh H s else s)
      in fst (rtwdogApply H True kTovalProvisional s))"

section \<open>Calibration\<close>

definition toval_ticks :: "u32 \<Rightarrow> u64 \<Rightarrow> u64" where
  "toval_ticks tick_hz ms = (ucast tick_hz * ms + 500) div 1000 + watchdog_offset_ticks"

definition computeTovals :: "u32 \<Rightarrow> 'h wd \<Rightarrow> 'h wd" where
  "computeTovals tick_hz s =
     (let n = toval_ticks tick_hz watchdog_timeout_ms;
          l = toval_ticks tick_hz watchdog_longop_ms
      in s\<lparr>wd_toval_normal := ucast (if 0xFFFF < n then 0xFFFF else if n < 2 then 2 else n),
           wd_toval_longop := ucast (if 0xFFFF < l then 0xFFFF else l)\<rparr>)"

section \<open>The interface\<close>

text \<open>\<open>measured\<close> is what \<open>rtwdogMeasureTickHz\<close> returned (0: not measurable).\<close>

definition watchdogBegin :: "'h rtwdog \<Rightarrow> u32 \<Rightarrow> 'h wd \<Rightarrow> 'h wd" where
  "watchdogBegin H measured s =
     (if \<not> wd_compiled s \<or> \<not> wd_wanted s then s
      else
        let s = (if \<not> wd_armed s then rtwdogEarlyArm H s else s);
            s = (if measured = 0
                 then s\<lparr>wd_tick_hz := watchdog_tick_hz_fallback, wd_verify := wd_verify s OR 0x08\<rparr>
                 else s\<lparr>wd_tick_hz := measured, wd_verify := wd_verify s AND NOT 0x08\<rparr>);
            s = computeTovals (wd_tick_hz s) s
        in fst (rtwdogApply H True (wd_toval_normal s) s))"

definition watchdogKick :: "'h rtwdog \<Rightarrow> 'h wd \<Rightarrow> 'h wd" where
  "watchdogKick H s =
     (if \<not> wd_armed s \<or> wd_starve s then s
      else
        let before = ucast (rd_cnt H (wd_hw s) AND 0xFFFF);
            s = rtwdogRefresh H s;
            after = ucast (rd_cnt H (wd_hw s) AND 0xFFFF);
            s = (if wd_cnt_before_max s < before then s\<lparr>wd_cnt_before_max := before\<rparr> else s);
            s = (if after < wd_cnt_after_min s then s\<lparr>wd_cnt_after_min := after\<rparr> else s);
            s = (if wd_cnt_after_max s < after then s\<lparr>wd_cnt_after_max := after\<rparr> else s)
        in s\<lparr>wd_kicks := wd_kicks s + 1\<rparr>)"

definition watchdogSetEnabled :: "'h rtwdog \<Rightarrow> bool \<Rightarrow> 'h wd \<Rightarrow> 'h wd \<times> bool" where
  "watchdogSetEnabled H on s =
     (if \<not> wd_compiled s then (s, True)
      else
        let s = s\<lparr>wd_wanted := on\<rparr>
        in if 0 < wd_suspend s then (s, True)
           else if on = wd_armed s \<and> \<not> wd_failed s then (s, True)
           else rtwdogApply H on (wd_toval_normal s) s)"

definition watchdogSuspend :: "'h rtwdog \<Rightarrow> 'h wd \<Rightarrow> 'h wd \<times> bool" where
  "watchdogSuspend H s =
     (let nested = (0 < wd_suspend s);
          s = s\<lparr>wd_suspend := wd_suspend s + 1\<rparr>
      in if nested then (s, True)
         else if \<not> wd_armed s then (s, True)
         else rtwdogApply H True (wd_toval_longop s) s)"

definition watchdogResume :: "'h rtwdog \<Rightarrow> 'h wd \<Rightarrow> 'h wd \<times> bool" where
  "watchdogResume H s =
     (if wd_suspend s = 0 then (s, True)
      else
        let s = s\<lparr>wd_suspend := wd_suspend s - 1\<rparr>
        in if 0 < wd_suspend s then (s, True)
           else if \<not> wd_compiled s then (s, True)
           else if \<not> wd_wanted s then (if wd_armed s then rtwdogApply H False (wd_toval_normal s) s else (s, True))
           else rtwdogApply H True (wd_toval_normal s) s)"

definition watchdogStarve :: "bool \<Rightarrow> 'h wd \<Rightarrow> 'h wd" where
  "watchdogStarve on s = s\<lparr>wd_starve := on\<rparr>"

text \<open>\<open>wdog3_mask\<close> is the reset-cause bit of the watchdog.\<close>

definition watchdogFlags :: "u32 \<Rightarrow> hstats \<Rightarrow> 'h wd \<Rightarrow> byte" where
  "watchdogFlags wdog3_mask st s =
     (if wd_armed s then 0x01 else 0)
     OR (if reset_cause st AND wdog3_mask \<noteq> 0 then 0x02 else 0)
     OR (if prev_isr_valid st \<and> prev_wdog_fired st then 0x04 else 0)
     OR (if wd_compiled s then 0x08 else 0)
     OR (if 0 < wd_suspend s then 0x10 else 0)
     OR (if wd_starve s then 0x20 else 0)
     OR (if wd_failed s then 0x40 else 0)"

definition watchdogCntAfterMin :: "'h wd \<Rightarrow> u16" where
  "watchdogCntAfterMin s = (if wd_cnt_after_min s = 0xFFFF then 0 else wd_cnt_after_min s)"

section \<open>What the policy guarantees\<close>

text \<open>What the manual of the part promises of the register sequences: a programming attempt
  takes effect (EN and TOVAL read back as written), and neither a refresh nor opening the
  clock gate changes them.\<close>

definition healthy :: "'h rtwdog \<Rightarrow> bool" where
  "healthy H \<longleftrightarrow>
     (\<forall>e t k h. let h' = fst (attempt_hw H e t k h)
                 in (rd_cs H h' AND cs_en H \<noteq> 0) = e \<and> rd_toval H h' AND 0xFFFF = ucast t)
     \<and> (\<forall>c h. (rd_cs H (refresh_hw H c h) AND cs_en H \<noteq> 0) = (rd_cs H h AND cs_en H \<noteq> 0)
                \<and> rd_toval H (refresh_hw H c h) AND 0xFFFF = rd_toval H h AND 0xFFFF)
     \<and> (\<forall>h. (rd_cs H (gate_on H h) AND cs_en H \<noteq> 0) = (rd_cs H h AND cs_en H \<noteq> 0)
                \<and> rd_toval H (gate_on H h) AND 0xFFFF = rd_toval H h AND 0xFFFF)"

definition running :: "'h rtwdog \<Rightarrow> 'h wd \<Rightarrow> bool" where
  "running H s \<longleftrightarrow> rd_cs H (wd_hw s) AND cs_en H \<noteq> 0"

definition programmed :: "'h rtwdog \<Rightarrow> 'h wd \<Rightarrow> u32" where
  "programmed H s = rd_toval H (wd_hw s) AND 0xFFFF"

text \<open>The parts of the state that programming leaves alone.\<close>

definition same_policy :: "'h wd \<Rightarrow> 'h wd \<Rightarrow> bool" where
  "same_policy s s' \<longleftrightarrow> wd_compiled s' = wd_compiled s \<and> wd_wanted s' = wd_wanted s \<and> wd_suspend s' = wd_suspend s
     \<and> wd_toval_normal s' = wd_toval_normal s \<and> wd_toval_longop s' = wd_toval_longop s \<and> wd_starve s' = wd_starve s"

lemma refresh_healthy:
  assumes "healthy H"
  shows "running H (rtwdogRefresh H s) = running H s" "programmed H (rtwdogRefresh H s) = programmed H s"
    "same_policy s (rtwdogRefresh H s)" "wd_armed (rtwdogRefresh H s) = wd_armed s" "wd_failed (rtwdogRefresh H s) = wd_failed s"
  using assms by (simp_all add: rtwdogRefresh_def running_def programmed_def healthy_def same_policy_def)

lemma attempt_healthy:
  assumes "healthy H"
  shows "snd (rtwdogAttempt H e t k s) \<and> running H (fst (rtwdogAttempt H e t k s)) = e
    \<and> programmed H (fst (rtwdogAttempt H e t k s)) = ucast t \<and> same_policy s (fst (rtwdogAttempt H e t k s))"
proof -
  obtain h rcs where a: "attempt_hw H e t k (wd_hw s) = (h, rcs)" by fastforce
  then have h: "(rd_cs H h AND cs_en H \<noteq> 0) = e" "rd_toval H h AND 0xFFFF = ucast t"
    using assms by (auto simp: healthy_def Let_def) (metis fst_conv)+
  let ?t = "s\<lparr>wd_hw := h, wd_cs_last := rd_cs H h, wd_cmd32 := (rd_cs H h AND cs_cmd32en H \<noteq> 0),
      wd_verify := (wd_verify s AND 0x18) OR ((if \<not> rcs then 0x01 else 0))\<rparr>"
  have "rtwdogAttempt H e t k s = (rtwdogRefresh H ?t, True)"
    using h by (auto simp: rtwdogAttempt_def a Let_def)
  moreover have "running H ?t = e" "programmed H ?t = ucast t" "same_policy s ?t"
    using h by (simp_all add: running_def programmed_def same_policy_def)
  ultimately show ?thesis using refresh_healthy [OF assms, of ?t] by (simp add: same_policy_def)
qed

lemma apply_healthy:
  assumes "healthy H"
  shows "let (s', ok) = rtwdogApply H e t s
         in ok \<and> \<not> wd_failed s' \<and> wd_armed s' = e \<and> running H s' = e \<and> programmed H s' = ucast t \<and> same_policy s s'"
proof -
  let ?s = "(if e then s\<lparr>wd_irq_installed := True\<rparr> else s)"
  let ?g = "(rtwdogGateOn H ?s)\<lparr>wd_verify := wd_verify (rtwdogGateOn H ?s) AND 0x08\<rparr>"
  obtain u ok where a: "rtwdogAttempt H e t (wd_cmd32 ?g) ?g = (u, ok)" by fastforce
  have u: "ok" "running H u = e" "programmed H u = ucast t" "same_policy ?g u"
    using attempt_healthy [OF assms, of e t "wd_cmd32 ?g" ?g] a by auto
  have g: "same_policy s ?g" by (simp add: rtwdogGateOn_def same_policy_def Let_def)
  have "rtwdogProgram H e t ?s = (u, True)" using a u(1) by (simp add: rtwdogProgram_def Let_def)
  then have r: "rtwdogApply H e t s = (u\<lparr>wd_failed := False, wd_armed := e\<rparr>, True)" by (simp add: rtwdogApply_def Let_def)
  show ?thesis using u g by (simp add: r running_def programmed_def same_policy_def)
qed


datatype wd_op = Kick | SetEnabled bool | Suspend | Resume | Starve bool

fun wd_step :: "'h rtwdog \<Rightarrow> wd_op \<Rightarrow> 'h wd \<Rightarrow> 'h wd" where
  "wd_step H Kick s = watchdogKick H s"
| "wd_step H (SetEnabled on) s = fst (watchdogSetEnabled H on s)"
| "wd_step H Suspend s = fst (watchdogSuspend H s)"
| "wd_step H Resume s = fst (watchdogResume H s)"
| "wd_step H (Starve on) s = watchdogStarve on s"

definition policy :: "'h rtwdog \<Rightarrow> u16 \<Rightarrow> u16 \<Rightarrow> 'h wd \<Rightarrow> bool" where
  "policy H normal longop s \<longleftrightarrow> wd_compiled s \<and> \<not> wd_failed s \<and> wd_armed s = running H s
     \<and> wd_toval_normal s = normal \<and> wd_toval_longop s = longop
     \<and> (wd_suspend s = 0 \<longrightarrow> wd_armed s = wd_wanted s \<and> (wd_armed s \<longrightarrow> programmed H s = ucast normal))
     \<and> (wd_suspend s \<noteq> 0 \<and> wd_armed s \<longrightarrow> programmed H s = ucast longop)"

lemma apply_fst:
  assumes "healthy H"
  shows "\<not> wd_failed (fst (rtwdogApply H e t s))" "wd_armed (fst (rtwdogApply H e t s)) = e"
    "running H (fst (rtwdogApply H e t s)) = e" "programmed H (fst (rtwdogApply H e t s)) = ucast t"
    "wd_compiled (fst (rtwdogApply H e t s)) = wd_compiled s" "wd_wanted (fst (rtwdogApply H e t s)) = wd_wanted s"
    "wd_suspend (fst (rtwdogApply H e t s)) = wd_suspend s" "wd_toval_normal (fst (rtwdogApply H e t s)) = wd_toval_normal s"
    "wd_toval_longop (fst (rtwdogApply H e t s)) = wd_toval_longop s"
  using apply_healthy [OF assms, of e t s] by (simp_all add: case_prod_beta same_policy_def)

lemma wd_frame [simp]:
  "running H (s\<lparr>wd_suspend := k\<rparr>) = running H s" "programmed H (s\<lparr>wd_suspend := k\<rparr>) = programmed H s"
  "running H (s\<lparr>wd_wanted := w\<rparr>) = running H s" "programmed H (s\<lparr>wd_wanted := w\<rparr>) = programmed H s"
  "running H (s\<lparr>wd_starve := w\<rparr>) = running H s" "programmed H (s\<lparr>wd_starve := w\<rparr>) = programmed H s"
  by (simp_all add: running_def programmed_def)

lemma kick_policy:
  assumes "healthy H" "policy H n l s"
  shows "policy H n l (watchdogKick H s) \<and> wd_suspend (watchdogKick H s) = wd_suspend s"
proof -
  have "policy H n l (rtwdogRefresh H s)"
    using assms refresh_healthy [OF assms(1), of s] by (auto simp: policy_def same_policy_def)
  moreover have "wd_suspend (rtwdogRefresh H s) = wd_suspend s" by (simp add: rtwdogRefresh_def)
  ultimately show ?thesis
    using assms(2) by (auto simp: watchdogKick_def Let_def policy_def running_def programmed_def)
qed

lemma wd_step_policy:
  assumes h: "healthy H" and p: "policy H n l s" and d: "unat (wd_suspend s) < 255"
  shows "policy H n l (wd_step H a s) \<and> unat (wd_suspend (wd_step H a s)) \<le> Suc (unat (wd_suspend s))"
proof (cases a)
  case Kick
  then show ?thesis using kick_policy [OF h p] by simp
next
  case (SetEnabled on)
  then show ?thesis using p by (auto simp: watchdogSetEnabled_def Let_def policy_def apply_fst [OF h] word_gt_0)
next
  case Suspend
  have "unat (wd_suspend s + 1) = Suc (unat (wd_suspend s))" using d by (simp add: unat_word_ariths)
  then have "wd_suspend s + 1 \<noteq> 0" by (metis nat.simps(3) unsigned_0)
  moreover have "unat (wd_suspend s + 1) \<le> Suc (unat (wd_suspend s))" by (simp add: unat_word_ariths)
  ultimately show ?thesis
    using Suspend p by (auto simp: watchdogSuspend_def Let_def policy_def apply_fst [OF h] word_gt_0)
next
  case Resume
  have "wd_suspend s \<noteq> 0 \<Longrightarrow> unat (wd_suspend s - 1) \<le> unat (wd_suspend s)" by (simp add: unat_minus_one)
  then show ?thesis
    using Resume p by (auto simp: watchdogResume_def Let_def policy_def apply_fst [OF h] word_gt_0)
next
  case (Starve on)
  then show ?thesis using p by (auto simp: watchdogStarve_def policy_def)
qed


lemma wd_run_policy:
  assumes "healthy H" "policy H n l s" "unat (wd_suspend s) + length ops < 256"
  shows "policy H n l (fold (wd_step H) ops s)"
  using assms(2,3)
proof (induction ops arbitrary: s)
  case (Cons a ops)
  have d: "unat (wd_suspend s) < 255" using Cons.prems by simp
  from wd_step_policy [OF assms(1) Cons.prems(1) d, of a] Cons show ?case by simp
qed simp

section \<open>Properties\<close>

text \<open>Calibration never wraps: for every measured rate the normal timeout is at least the offset
  and at most the long-operation one, both fit the 16-bit register, and below its cap they
  are the rounded ticks of 2 and 30 seconds plus the offset (444 and 4000 at 127 Hz).\<close>

lemma watchdog_tovals:
  "let s' = computeTovals hz s; n = (unat hz * 2000 + 500) div 1000 + 190; l = (unat hz * 30000 + 500) div 1000 + 190
   in unat (wd_toval_normal s') = min 65535 n \<and> unat (wd_toval_longop s') = min 65535 l
    \<and> 190 \<le> unat (wd_toval_normal s') \<and> wd_toval_normal s' \<le> wd_toval_longop s'"
proof -
  have t: "unat (toval_ticks hz ms) = (unat hz * unat ms + 500) div 1000 + 190" if "unat ms \<le> 30000" for ms
  proof -
    have hz: "unat hz < 4294967296" by simp
    have p: "unat hz * unat ms \<le> 4294967296 * 30000" using that less_imp_le [OF hz] by (intro mult_mono) simp_all
    have "unat hz < 18446744073709551616" by (rule order_less_trans [OF hz]) simp
    then have u: "unat (ucast hz :: u64) = unat hz" by (simp add: unat_ucast_eq)
    have m: "unat (ucast hz * ms + 500) = unat hz * unat ms + 500"
      using p by (simp add: unat_word_ariths u)
    have "(unat hz * unat ms + 500) div 1000 + 190 < 2 ^ 64" using p by simp
    moreover have "unat ((ucast hz * ms + 500) div 1000) = (unat hz * unat ms + 500) div 1000" by (simp add: unat_div m)
    moreover have "unat watchdog_offset_ticks = 190" by (simp add: watchdog_offset_ticks_def)
    ultimately show ?thesis by (simp add: toval_ticks_def unat_word_ariths(1))
  qed
  define n l where "n = toval_ticks hz watchdog_timeout_ms" and "l = toval_ticks hz watchdog_longop_ms"
  have n: "unat n = (unat hz * 2000 + 500) div 1000 + 190" and l: "unat l = (unat hz * 30000 + 500) div 1000 + 190"
    using t [of watchdog_timeout_ms] t [of watchdog_longop_ms]
    by (simp_all add: n_def l_def watchdog_timeout_ms_def watchdog_longop_ms_def)
  have N: "unat (wd_toval_normal (computeTovals hz s)) = min 65535 (unat n)"
    using n by (simp add: computeTovals_def Let_def n_def [symmetric] unat_ucast_eq word_less_nat_alt)
  have L: "unat (wd_toval_longop (computeTovals hz s)) = min 65535 (unat l)"
    using l by (simp add: computeTovals_def Let_def l_def [symmetric] unat_ucast_eq word_less_nat_alt)
  have "unat n \<le> unat l" unfolding n l by (intro add_mono div_le_mono) simp_all
  then have "wd_toval_normal (computeTovals hz s) \<le> wd_toval_longop (computeTovals hz s)"
    by (simp add: word_le_nat_alt N L)
  then show ?thesis using N L n l by (simp add: Let_def)
qed


text \<open>A register file to instantiate the peripheral with.\<close>

definition reg_file :: "(u32 \<times> u32) rtwdog" where
  "reg_file = \<lparr>gate_on = \<lambda>h. h, rd_cs = \<lambda>h. fst h, rd_cnt = \<lambda>h. 0, rd_toval = \<lambda>h. snd h, wr_cnt = \<lambda>v h. h,
     wr_toval = \<lambda>v h. (fst h, v), wr_win = \<lambda>v h. h, wr_cs = \<lambda>v h. (v, snd h), settle = \<lambda>h. (h, True),
     cs_en = 0x80, cs_cmd32en = 0x2000, cs_fixed = 0x2120\<rparr>"

lemma reg_file_healthy: "healthy reg_file"
proof -
  have "(ucast (t :: u16) :: u32) AND 0xFFFF = ucast t" for t
  proof -
    have "(0xFFFF :: u32) = mask 16" by (simp add: mask_eq_exp_minus_1)
    then have "(ucast t :: u32) AND 0xFFFF = take_bit 16 (ucast t)" by (simp only: take_bit_eq_mask)
    also have "\<dots> = ucast t" by (rule bit_word_eqI) (auto simp: bit_simps dest: bit_imp_le_length)
    finally show ?thesis .
  qed
  then show ?thesis by (simp add: healthy_def reg_file_def attempt_hw_def refresh_hw_def Let_def)
qed


end
