(* ===== verification/Binary32.thy ===== *)
theory Binary32
  imports Prelude "HOL-Library.Log_Nat"
begin

text \<open>
  Single-precision arithmetic as the firmware uses it (the analog input and the mode-4
  accumulator): a float is a rational, an operation is the exact one followed by rounding to a
  24-bit significand, ties to even. The values in the code lie between 2^-40 and 2^40, so neither
  overflow nor subnormals occur and the exponent is left unbounded. Every operation rounds, as
  the source writes them (no fused multiply-add).
\<close>

section \<open>Rounding\<close>

text \<open>The binary exponent: \<open>2^mag x \<le> |x| < 2^(mag x + 1)\<close>.\<close>

definition mag :: "rat \<Rightarrow> int" where
  "mag x = (let (p, q) = quotient_of \<bar>x\<bar>; e = int (floorlog 2 (nat p)) - int (floorlog 2 (nat q))
            in if 2 powi e \<le> \<bar>x\<bar> then e else e - 1)"

definition round_even :: "rat \<Rightarrow> int" where
  "round_even y = (let n = \<lfloor>y\<rfloor>; d = y - of_int n in if d < 1 / 2 \<or> d = 1 / 2 \<and> even n then n else n + 1)"

definition rne :: "rat \<Rightarrow> rat" where
  "rne x = (if x = 0 then 0 else of_int (round_even (x / 2 powi (mag x - 23))) * 2 powi (mag x - 23))"

text \<open>\<open>lroundf\<close>: to the nearest integer, halves away from zero.\<close>

definition lroundf :: "rat \<Rightarrow> int" where
  "lroundf y = (if 0 \<le> y then \<lfloor>y + 1 / 2\<rfloor> else - \<lfloor>1 / 2 - y\<rfloor>)"

lemma int_bits:
  assumes "0 < p"
  defines "a \<equiv> floorlog 2 (nat p)"
  shows "(2 :: rat) powi (int a - 1) \<le> of_int p" "of_int p < (2 :: rat) powi int a"
proof -
  have a: "0 < a" using assms by (simp add: a_def floorlog_def)
  have n: "2 ^ (a - 1) \<le> nat p" "nat p < 2 ^ a" using floorlog_bounds [of "nat p" 2] assms by simp_all
  have "2 ^ (a - 1) \<le> p" "p < 2 ^ a" using n assms(1) 
    by (simp_all add: le_nat_iff nat_less_iff del: One_nat_def)
  then have "of_int (2 ^ (a - 1)) \<le> (of_int p :: rat)" "of_int p < (of_int (2 ^ a) :: rat)"
    by (simp_all only: of_int_le_iff of_int_less_iff)
  moreover have "int a - 1 = int (a - 1)" using a by simp
  ultimately show "(2 :: rat) powi (int a - 1) \<le> of_int p" "of_int p < (2 :: rat) powi int a"
    by (simp_all only: power_int_of_nat of_int_power of_int_numeral)
qed

lemma powi_split: "(2 :: rat) powi (a + b) = 2 powi a * 2 powi b" "(2 :: rat) powi (a - b) = 2 powi a / 2 powi b"
  by (simp_all add: power_int_add power_int_diff)

lemma powi_mono: "a \<le> b \<Longrightarrow> (2 :: rat) powi a \<le> 2 powi b"
  by (simp add: power_int_increasing)

lemma mag_spec:
  assumes "x \<noteq> 0"
  shows "2 powi mag x \<le> \<bar>x\<bar>" "\<bar>x\<bar> < 2 powi (mag x + 1)"
proof -
  obtain p q where pq: "quotient_of \<bar>x\<bar> = (p, q)" by fastforce
  have q: "0 < q" using quotient_of_denom_pos [OF pq] .
  have x: "\<bar>x\<bar> = of_int p / of_int q" using quotient_of_div [OF pq] .
  have "0 < \<bar>x\<bar>" using assms by simp
  then have p: "0 < p" using q by (simp add: x zero_less_divide_iff)
  define a b where "a = int (floorlog 2 (nat p))" and "b = int (floorlog 2 (nat q))"
  note P = int_bits [OF p, folded a_def] and Q = int_bits [OF q, folded b_def]
  have m: "mag x = (if 2 powi (a - b) \<le> \<bar>x\<bar> then a - b else a - b - 1)" by (simp add: mag_def pq Let_def a_def b_def)
  have q': "(0 :: rat) < of_int q" using q by simp
  have "\<bar>x\<bar> < 2 powi a / 2 powi (b - 1)"
    unfolding x using P(2) Q(1) q' p by (intro frac_less) simp_all
  also have "\<dots> = 2 powi (a - b + 1)" by (simp add: powi_split)
  finally have up: "\<bar>x\<bar> < 2 powi (a - b + 1)" .
  have "2 powi (a - 1) / 2 powi b \<le> \<bar>x\<bar>"
    unfolding x using P(1) Q(2) q' p by (intro frac_le) simp_all
  then have low: "2 powi (a - b - 1) \<le> \<bar>x\<bar>" by (simp add: powi_split field_simps)
  show "2 powi mag x \<le> \<bar>x\<bar>" "\<bar>x\<bar> < 2 powi (mag x + 1)" using up low by (simp_all add: m)
qed

lemma round_even_int [simp]: "round_even (of_int n) = n"
  by (simp add: round_even_def Let_def)

lemma round_even_near: "\<bar>of_int (round_even y) - y\<bar> \<le> 1 / 2"
proof -
  define d where "d = y - of_int \<lfloor>y\<rfloor>"
  have "0 \<le> d" "d < 1" unfolding d_def by linarith+
  then show ?thesis unfolding round_even_def Let_def d_def [symmetric] by (auto simp: d_def abs_le_iff)
qed

text \<open>Rounding to even keeps a bound that is an integer.\<close>

lemma round_even_le: "\<bar>y\<bar> \<le> of_int n \<Longrightarrow> \<bar>round_even y\<bar> \<le> n"
proof -
  assume a: "\<bar>y\<bar> \<le> of_int n"
  have "\<bar>of_int (round_even y) - y\<bar> \<le> 1 / 2" by (rule round_even_near)
  then have "\<bar>of_int (round_even y) :: rat\<bar> \<le> of_int n + 1 / 2" using a by linarith
  then have "\<bar>of_int (round_even y) :: rat\<bar> < of_int (n + 1)" by simp
  then have "of_int \<bar>round_even y\<bar> < (of_int (n + 1) :: rat)" by simp
  then show ?thesis by (simp only: of_int_less_iff)
qed

section \<open>Floats\<close>

definition float24 :: "rat \<Rightarrow> bool" where
  "float24 x \<longleftrightarrow> (\<exists>m j. x = of_int m * 2 powi j \<and> \<bar>m\<bar> < 2 ^ 24)"

lemma float24_int: "\<bar>n\<bar> < 2 ^ 24 \<Longrightarrow> float24 (of_int n)"
  unfolding float24_def by (intro exI [of _ n] exI [of _ 0]) simp

lemma scaled_bound:
  assumes "x \<noteq> 0"
  shows "\<bar>x / 2 powi (mag x - 23)\<bar> \<le> of_int (2 ^ 24)"
proof -
  have "\<bar>x\<bar> \<le> 2 powi (24 + (mag x - 23))" using mag_spec(2) [OF assms] by (simp add: add.commute)
  also have "\<dots> = 2 ^ 24 * 2 powi (mag x - 23)" unfolding powi_split(1) by simp
  finally show ?thesis by (simp add: abs_divide divide_le_eq)
qed

lemma rne_form:
  assumes "x \<noteq> 0"
  shows "rne x = of_int (round_even (x / 2 powi (mag x - 23))) * 2 powi (mag x - 23)"
    "\<bar>round_even (x / 2 powi (mag x - 23))\<bar> \<le> 2 ^ 24"
  using assms round_even_le [OF scaled_bound [OF assms]] by (simp_all add: rne_def)

lemma float24_rne: "float24 (rne x)"
proof (cases "x = 0")
  case True
  then show ?thesis using float24_int [of 0] by (simp add: rne_def)
next
  case False
  define m j where "m = round_even (x / 2 powi (mag x - 23))" and "j = mag x - 23"
  have r: "rne x = of_int m * 2 powi j" "\<bar>m\<bar> \<le> 2 ^ 24" using rne_form [OF False] by (simp_all add: m_def j_def)
  show ?thesis
  proof (cases "\<bar>m\<bar> = 2 ^ 24")
    case True
    then have "even m" by (cases "0 \<le> m") (simp_all add: abs_if, presburger)
    then obtain m' where m': "m = 2 * m'" by blast
    with True have l: "\<bar>m'\<bar> < 2 ^ 24" by (simp add: abs_mult)
    have "rne x = of_int m' * 2 powi (j + 1)" unfolding r(1) m' powi_split(1) by simp
    then show ?thesis unfolding float24_def using l by blast
  next
    case False
    then show ?thesis unfolding float24_def using r by (intro exI [of _ m] exI [of _ j]) simp
  qed
qed

lemma rne_exact:
  assumes "float24 x"
  shows "rne x = x"
proof (cases "x = 0")
  case False
  obtain m j where x: "x = of_int m * 2 powi j" and m: "\<bar>m\<bar> < 2 ^ 24" using assms unfolding float24_def by blast
  have "mag x - 23 \<le> j"
  proof (rule ccontr)
    assume "\<not> mag x - 23 \<le> j"
    then have "(2 :: rat) powi (24 + j) \<le> 2 powi mag x" by (intro powi_mono) simp
    also have "\<dots> \<le> \<bar>x\<bar>" by (rule mag_spec(1) [OF False])
    also have "\<dots> = of_int \<bar>m\<bar> * 2 powi j" by (simp add: x abs_mult)
    also have "\<dots> < of_int (2 ^ 24) * 2 powi j" using m by (intro mult_strict_right_mono) (simp_all only: of_int_less_iff, simp)
    also have "\<dots> = 2 powi (24 + j)" unfolding powi_split(1) by simp
    finally show False by simp
  qed
  then obtain n where n: "j = int n + (mag x - 23)" by (metis add.commute le_add_diff_inverse zle_iff_zadd)
  define c where "c = (2 :: rat) powi (mag x - 23)"
  have j: "(2 :: rat) powi j = 2 ^ n * c" unfolding c_def by (subst n) (simp only: powi_split(1) power_int_of_nat)
  have e: "x = of_int (m * 2 ^ n) * c" unfolding x j by simp
  have "c \<noteq> 0" by (simp add: c_def)
  then have "x / c = of_int (m * 2 ^ n)" by (metis e nonzero_mult_div_cancel_right)
  then have "rne x = of_int (round_even (of_int (m * 2 ^ n))) * c" using rne_form(1) [OF False] unfolding c_def [symmetric] by simp
  then show ?thesis unfolding round_even_int e [symmetric] .
qed (simp add: rne_def)

lemma rne_bound:
  assumes "\<bar>x\<bar> \<le> 2 powi p"
  shows "\<bar>rne x\<bar> \<le> 2 powi p"
proof (cases "x = 0 \<or> \<bar>x\<bar> = 2 powi p")
  case True
  then have "float24 x"
  proof
    assume "\<bar>x\<bar> = 2 powi p"
    then have "x = of_int 1 * 2 powi p \<or> x = of_int (- 1) * 2 powi p" by (auto simp: abs_if split: if_splits)
    moreover have "\<bar>1 :: int\<bar> < 2 ^ 24" "\<bar>- 1 :: int\<bar> < 2 ^ 24" by simp_all
    ultimately show ?thesis unfolding float24_def by blast
  qed (use float24_int [of 0] in simp)
  then show ?thesis using assms by (simp add: rne_exact)
next
  case False
  then have "x \<noteq> 0" "2 powi mag x < (2 :: rat) powi p" using mag_spec(1) [of x] assms by auto
  then have "\<not> p \<le> mag x" using powi_mono [of p "mag x"] by linarith
  then have "(2 :: rat) powi (24 + (mag x - 23)) \<le> 2 powi p" by (intro powi_mono) simp
  then have "of_int (2 ^ 24) * 2 powi (mag x - 23) \<le> (2 :: rat) powi p" unfolding powi_split(1) by simp
  moreover have "\<bar>rne x\<bar> \<le> of_int (2 ^ 24) * 2 powi (mag x - 23)"
    unfolding rne_form(1) [OF \<open>x \<noteq> 0\<close>] abs_mult using rne_form(2) [OF \<open>x \<noteq> 0\<close>]
    by (intro mult_mono) (simp_all only: of_int_abs [symmetric] of_int_le_iff, simp_all)
  ultimately show ?thesis by linarith
qed

lemma rne_error: "\<bar>rne x - x\<bar> \<le> \<bar>x\<bar> / 2 ^ 24"
proof (cases "x = 0")
  case False
  define c y where "c = (2 :: rat) powi (mag x - 23)" and "y = x / c"
  have c: "0 < c" by (simp add: c_def)
  have "rne x - x = (of_int (round_even y) - y) * c" using rne_form(1) [OF False] c by (simp add: c_def [symmetric] y_def field_simps)
  then have "\<bar>rne x - x\<bar> = \<bar>of_int (round_even y) - y\<bar> * c" using c by (simp add: abs_mult)
  also have "\<dots> \<le> 1 / 2 * c" using c by (intro mult_right_mono round_even_near) simp
  also have "\<dots> = 2 powi mag x / 2 ^ 24" unfolding c_def powi_split(2) by simp
  also have "\<dots> \<le> \<bar>x\<bar> / 2 ^ 24" using mag_spec(1) [OF False] by (intro divide_right_mono) simp_all
  finally show ?thesis .
qed (simp add: rne_def)

text \<open>Whole numbers are added towards zero without rounding.\<close>

lemma rne_towards_zero:
  assumes "float24 a" "\<bar>a\<bar> < 2 ^ 24" "\<bar>a + of_int n\<bar> \<le> \<bar>a\<bar>"
  shows "float24 (a + of_int n)" "rne (a + of_int n) = a + of_int n"
proof -
  obtain m j where a: "a = of_int m * 2 powi j" and m: "\<bar>m\<bar> < 2 ^ 24" using assms(1) unfolding float24_def by blast
  have "\<exists>m k. a = of_int m / 2 ^ k \<and> \<bar>m\<bar> < 2 ^ 24"
  proof (cases "0 \<le> j")
    case True
    then have a': "a = of_int (m * 2 ^ nat j)" by (simp add: a power_int_nonneg_exp)
    then have "\<bar>of_int (m * 2 ^ nat j) :: rat\<bar> < of_int (2 ^ 24)" using assms(2) by simp
    then have "\<bar>m * 2 ^ nat j\<bar> < 2 ^ 24" by (simp only: of_int_abs [symmetric] of_int_less_iff)
    then show ?thesis using a' by (intro exI [of _ "m * 2 ^ nat j"] exI [of _ 0]) simp
  next
    case False
    then have "(2 :: rat) powi j = 1 / 2 ^ nat (- j)" using power_int_minus_divide [of "2 :: rat" "- j"] by (simp add: power_int_nonneg_exp)
    then show ?thesis using a m by (intro exI [of _ m] exI [of _ "nat (- j)"]) simp
  qed
  then obtain m k where a: "a = of_int m / 2 ^ k" and m: "\<bar>m\<bar> < 2 ^ 24" by blast
  have s: "a + of_int n = of_int (m + n * 2 ^ k) / 2 ^ k" by (simp add: a field_simps)
  have "\<bar>of_int (m + n * 2 ^ k) :: rat\<bar> \<le> \<bar>of_int m\<bar>"
    using assms(3) unfolding s unfolding a abs_divide by (simp add: divide_le_cancel del: of_int_add)
  then have "\<bar>m + n * 2 ^ k\<bar> < 2 ^ 24" using m by (simp only: of_int_abs [symmetric] of_int_le_iff)
  then show f: "float24 (a + of_int n)" unfolding float24_def s
    by (intro exI [of _ "m + n * 2 ^ k"] exI [of _ "- int k"]) (simp add: power_int_minus_divide)
  show "rne (a + of_int n) = a + of_int n" by (rule rne_exact [OF f])
qed

end
