(* ===== verification/CpState.thy ===== *)
theory CpState
  imports Telemetry ErrorGlyph Spi Transport Sd Watchdog Binary32
begin

text \<open>
  \<open>src/src/CommandProcessor.h\<close>: the state of the command processor, with the components it
  drives as substates (SPI driver, SD manager, telemetry ring, breadcrumb, the two message
  sources), and the small calls every handler makes: breadcrumb marks, telemetry records and
  replies.

  What the firmware reads from the outside is the record \<open>env\<close>: the board of the build, the SD
  library, and streams of hardware readings. The \<open>n\<close>-th reading of a run is taken at index
  \<open>n\<close> of its stream; \<open>tick\<close> counts the readings, so every \<open>micros()\<close>, \<open>millis()\<close>, I2C or timer
  call may answer differently. \<open>adc\<close> is the 10-bit reading of an analog input.

  \<open>arrivals\<close> are the bytes that have come in on the pipe of a source since it was last looked at;
  the unread rest of a pipe is part of the state. \<open>raw_result\<close> is the outcome of a paced raw
  write (did the queued reply leave first, how many bytes were accepted, how often the watchdog
  was kicked meanwhile), \<open>miso\<close> the bytes a panel drove back during a transaction. \<open>wait_fuel\<close> bounds
  the iterations of a blocking wait; a wait that runs out of it, like the reset command, never
  comes back, and the state says so with \<open>halted\<close>.
\<close>

section \<open>Environment\<close>

record ('c, 'h, 'w) env =
  board :: arena_hw
  rtw :: "'w rtwdog"
  lib :: "('c, 'h) sdlib"
  us :: "nat \<Rightarrow> u32"
  ms :: "nat \<Rightarrow> u32"
  pit_free :: "nat \<Rightarrow> bool"
  nvic_on :: "nat \<Rightarrow> bool"
  i2c_ok :: "nat \<Rightarrow> bool"
  card_err :: "nat \<Rightarrow> byte"
  card_err_data :: "nat \<Rightarrow> u32"
  sd_phases :: "nat \<Rightarrow> u32 \<times> u32 \<times> u32"
  sectors_per_cluster :: "nat \<Rightarrow> u32"
  fat_type :: "nat \<Rightarrow> nat"
  pin_level :: "nat \<Rightarrow> nat \<Rightarrow> bool"
  adc :: "nat \<Rightarrow> nat"
  arrivals :: "nat \<Rightarrow> byte list"
  tcp_up :: "nat \<Rightarrow> bool"
  new_client :: "nat \<Rightarrow> byte list option"
  raw_result :: "nat \<Rightarrow> bool \<times> nat \<times> nat"
  usb_room :: "nat \<Rightarrow> int"
  miso :: "nat \<Rightarrow> byte list"
  i2c_bytes :: "nat \<Rightarrow> byte list"
  cid :: "nat \<Rightarrow> (byte list) option"
  csd_sectors :: "nat \<Rightarrow> u32 option"
  card_kind :: "nat \<Rightarrow> byte option"
  bytes_per_cluster :: "nat \<Rightarrow> u32"
  crash_memory :: "nat \<Rightarrow> byte list"
  wdog3_mask :: u32
  mac_bytes :: "byte list"
  ip_string :: "byte list"
  build_sha :: "byte list"
  build_date :: "byte list"
  build_branch :: "byte list"
  build_dirty :: bool
  wait_fuel :: nat

section \<open>State\<close>

datatype arena_state =
  ALL_OFF | ALL_ON | STREAMING_FRAME | OPEN_LOOP | SHOW_FRAME | CLOSED_LOOP | PSRAM_PLAY | ERROR_DISPLAY

fun state_code :: "arena_state \<Rightarrow> byte" where
  "state_code ALL_OFF = 0"
| "state_code ALL_ON = 1"
| "state_code STREAMING_FRAME = 2"
| "state_code OPEN_LOOP = 3"
| "state_code SHOW_FRAME = 4"
| "state_code CLOSED_LOOP = 5"
| "state_code PSRAM_PLAY = 6"
| "state_code ERROR_DISPLAY = 7"

datatype dio_role = kOff | kInTrigger | kOutProgrammable | kOutFramescan

datatype source_id = Net | Ser

datatype pin_ev = PinOut nat | PinIn nat | PinSet nat bool | DacWrite byte byte bool

datatype upload_phase = kWriting | kDraining

datatype archive_phase = kLocalHeader | kFileData | kDataDescriptor | kCentralDir | kEocd

record zip_entry =
  zip_name :: "byte list"
  sd_path :: "byte list"
  zfile_size :: u32
  zcrc32 :: u32
  lhf_offset :: u32

record 'h transfer =
  dl_h :: "'h option"
  dl_source :: source_id
  dl_idx :: nat
  dl_remaining :: u32
  dl_deadline :: u32
  dl_active :: bool
  ul_h :: "'h option"
  ul_source :: source_id
  ul_idx :: nat
  ul_remaining :: u32
  ul_total :: u32
  ul_deadline :: u32
  ul_drain_deadline :: u32
  ul_active :: bool
  ul_phase :: upload_phase
  ul_fail_status :: byte
  ul_fail_msg :: "byte list"
  ul_path :: "byte list"
  ar_entries :: "zip_entry list"
  ar_entry_idx :: nat
  ar_phase :: archive_phase
  ar_h :: "'h option"
  ar_file_remaining :: u32
  ar_crc :: u32
  ar_cd_offset :: u32
  ar_cd_size :: u32
  ar_source :: source_id
  ar_deadline :: u32
  ar_active :: bool

record analog_out =
  ao_mv :: u16
  ao_mode :: byte
  ao_lut :: "u16 list"
  ao_lut_len :: nat
  ao_lut_mode :: byte
  ao_lut_step_hz :: u16
  ao_lut_idx :: nat
  ao_lut_last_us :: u32

text \<open>\<open>frame_buf\<close> is the buffer of its full capacity; the 16-bit counters are naturals below
  \<open>2 ^ 16\<close>; \<open>pat_frames\<close> is \<open>frame_count_\<close>.\<close>

record ('c, 'h, 'w) cp =
  cstate :: arena_state
  blk :: nat
  refresh_rate_hz :: u32
  refresh_rate_explicit :: bool
  panel_disp_mode :: byte
  frame_buf :: "byte list"
  frame_byte_count :: nat
  pattern_id :: nat
  pat_frames :: nat
  cur_frame :: nat
  frame_rate_hz :: int
  gain :: int
  frame_accum :: rat
  trial_duty :: byte
  last_advance_us :: u32
  last_sample_us :: u32
  trial_end_ms :: u32
  tel_last_frame :: nat
  tel_last_pattern :: nat
  frame_buf_is_frame :: bool
  sd_cache_ok :: bool
  sd_skip_same_index :: bool
  last_cmd_rx_us :: u32
  pending_req_us :: u32
  pending_req_valid :: bool
  frame_req_us :: u32
  frame_src_flags :: byte
  buf_presented :: bool
  superseded_pending :: byte
  open_reads :: u32
  dio_roles :: "dio_role list"
  error_until_ms :: u32
  psram_start :: u16
  psram_count :: u16
  psram_offset :: u16
  late_boot_blank_pending :: bool
  ao :: analog_out
  xf :: "'h transfer"
  spi_st :: spi
  sd_st :: "('c, 'h) sd"
  tel_st :: tel
  wd_st :: "'w wd"
  crumb :: breadcrumb
  hs :: hstats
  net :: source
  ser :: source
  current_source :: source_id
  net_pipe :: "byte list"
  ser_pipe :: "byte list"
  dbg_on :: bool
  session_nonce :: "byte list"
  halted :: bool
  isr :: isr_record
  pins :: "pin_ev list"
  tick :: nat

section \<open>Constants\<close>

definition OP_CMD_DISARM :: byte where "OP_CMD_DISARM = 6"
definition OP_CMD_PRELOAD :: byte where "OP_CMD_PRELOAD = 7"
definition OP_CMD_ARM :: byte where "OP_CMD_ARM = 8"
definition OP_CMD_RESPOND :: byte where "OP_CMD_RESPOND = 9"
definition ST_SD_LAYOUT :: byte where "ST_SD_LAYOUT = 11"
definition ST_SD_SLOW_CTX :: byte where "ST_SD_SLOW_CTX = 12"
definition ST_SD_READS :: byte where "ST_SD_READS = 13"
definition ST_SD_READS_CKPT :: byte where "ST_SD_READS_CKPT = 14"
definition kSdSlowPhaseSeek :: byte where "kSdSlowPhaseSeek = 1"
definition kSdSlowPhaseBody :: byte where "kSdSlowPhaseBody = 2"
definition kSdSlowPhaseTail :: byte where "kSdSlowPhaseTail = 3"
definition kSdSlowErrorFlag :: byte where "kSdSlowErrorFlag = 0x80"
definition kFrameFlagSdRead :: byte where "kFrameFlagSdRead = 0x01"
definition kFrameFlagContiguous :: byte where "kFrameFlagContiguous = 0x02"
definition kSdSlowThresholdUs :: u32 where "kSdSlowThresholdUs = 10000"
definition kSdReadsCheckpoint :: u32 where "kSdReadsCheckpoint = 30000"
definition error_display_hold_ms :: u32 where "error_display_hold_ms = 750"
definition duration_tick_ms :: u32 where "duration_tick_ms = 10"
definition panel_late_boot_blank_ms :: u32 where "panel_late_boot_blank_ms = 3500"
definition kAoLutMaxLen :: nat where "kAoLutMaxLen = 4096"
definition do1_data_pin :: nat where "do1_data_pin = 37"
definition do1_dir_pin :: nat where "do1_dir_pin = 36"
definition do2_data_pin :: nat where "do2_data_pin = 35"
definition do2_dir_pin :: nat where "do2_dir_pin = 34"
definition display_mode_open_loop :: byte where "display_mode_open_loop = 2"
definition display_mode_show_frame :: byte where "display_mode_show_frame = 3"
definition display_mode_closed_loop :: byte where "display_mode_closed_loop = 4"

section \<open>The calls every handler makes\<close>

definition hmark :: "('c, 'h, 'w) env \<Rightarrow> byte \<Rightarrow> byte \<Rightarrow> ('c, 'h, 'w) cp \<Rightarrow> ('c, 'h, 'w) cp" where
  "hmark E op arg s = s\<lparr>crumb := mark (us E (tick s)) op arg (crumb s), tick := tick s + 1\<rparr>"

definition hclear :: "('c, 'h, 'w) env \<Rightarrow> ('c, 'h, 'w) cp \<Rightarrow> ('c, 'h, 'w) cp" where
  "hclear E s = s\<lparr>crumb := clear (us E (tick s)) (crumb s), tick := tick s + 1\<rparr>"

text \<open>Two readings: the record's stamp and the one of the eviction bookkeeping.\<close>

definition tstate :: "('c, 'h, 'w) env \<Rightarrow> byte \<Rightarrow> byte \<Rightarrow> u16 \<Rightarrow> ('c, 'h, 'w) cp \<Rightarrow> ('c, 'h, 'w) cp" where
  "tstate E kind code arg s =
     s\<lparr>tel_st := state (us E (tick s)) (us E (tick s + 1)) kind code arg (tel_st s), tick := tick s + 2\<rparr>"

text \<open>\<open>current_source_->sendResponse\<close>; a text reply carries the characters of the string.\<close>

definition on_source :: "source_id \<Rightarrow> (source \<Rightarrow> source) \<Rightarrow> ('c, 'h, 'w) cp \<Rightarrow> ('c, 'h, 'w) cp" where
  "on_source i f s = (case i of Net \<Rightarrow> s\<lparr>net := f (net s)\<rparr> | Ser \<Rightarrow> s\<lparr>ser := f (ser s)\<rparr>)"

definition the_source :: "source_id \<Rightarrow> ('c, 'h, 'w) cp \<Rightarrow> source" where
  "the_source i s = (case i of Net \<Rightarrow> net s | Ser \<Rightarrow> ser s)"

definition reply :: "byte \<Rightarrow> byte \<Rightarrow> byte list \<Rightarrow> ('c, 'h, 'w) cp \<Rightarrow> ('c, 'h, 'w) cp" where
  "reply cmd_byte status payload s =
     on_source (current_source s) (sendResponse cmd_byte status payload) s"

definition busy :: "('c, 'h, 'w) cp \<Rightarrow> bool" where
  "busy s \<longleftrightarrow> dl_active (xf s) \<or> ul_active (xf s) \<or> ar_active (xf s)"

definition patternBusy :: "nat \<Rightarrow> ('c, 'h, 'w) cp \<Rightarrow> bool" where
  "patternBusy i s \<longleftrightarrow> dl_active (xf s) \<and> dl_idx (xf s) = i \<or> ul_active (xf s) \<and> ul_idx (xf s) = i"

end
