(* ===== verification/Display.thy ===== *)
theory Display
  imports CpState
begin

text \<open>
  \<open>src/src/CommandProcessor.cpp\<close>, the display engine: building and patching the frame buffer,
  the state transitions, loading frames from the SD card, and the display service of the main
  loop with its trial timer and its frame-advance clocks.
\<close>

section \<open>Calls into the SPI driver\<close>

definition disarm :: "('c, 'h, 'w) env \<Rightarrow> ('c, 'h, 'w) cp \<Rightarrow> ('c, 'h, 'w) cp" where
  "disarm E s = s\<lparr>spi_st := disarmRefreshTimer (nvic_on E (tick s)) (spi_st s), tick := tick s + 1\<rparr>"

text \<open>A failed \<open>IntervalTimer::begin\<close> leaves the telemetry record of the driver.\<close>

definition arm :: "('c, 'h, 'w) env \<Rightarrow> u32 \<Rightarrow> ('c, 'h, 'w) cp \<Rightarrow> ('c, 'h, 'w) cp \<times> bool" where
  "arm E hz s =
     (let (sp, ok) = armRefreshTimer (pit_free E (tick s)) hz (spi_st s);
          s = s\<lparr>spi_st := sp, tick := tick s + 1\<rparr>
      in (if ok \<or> hz = 0 then s
          else tstate E ST_TIMER_FAIL 0 (ucast (if 0xFFFF < hz then 0xFFFF else hz)) s, ok))"

definition send_frame :: "('c, 'h, 'w) env \<Rightarrow> ('c, 'h, 'w) cp \<Rightarrow> ('c, 'h, 'w) cp" where
  "send_frame E s =
     (let s' = s\<lparr>spi_st := transferFrame (board E) (Some (frame_buf s)) (blk s) (spi_st s)\<rparr>
      in if valid_block_size (blk s) then hclear E (hmark E OP_SPI_FRAME 0 s') else s')"

section \<open>Presentation accounting\<close>

definition invalidateFrameBuf :: "('c, 'h, 'w) env \<Rightarrow> ('c, 'h, 'w) cp \<Rightarrow> ('c, 'h, 'w) cp" where
  "invalidateFrameBuf E s =
     s\<lparr>superseded_pending :=
         (if frame_buf_is_frame s \<and> \<not> buf_presented s \<and> superseded_pending s < 0xFF
          then superseded_pending s + 1 else superseded_pending s),
       frame_buf_is_frame := False, sd_cache_ok := False, frame_src_flags := 0,
       frame_req_us := us E (tick s), buf_presented := False, tick := tick s + 1\<rparr>"

definition dropFrameCache :: "('c, 'h, 'w) cp \<Rightarrow> ('c, 'h, 'w) cp" where
  "dropFrameCache s = s\<lparr>sd_cache_ok := False\<rparr>"

text \<open>The shift loop of \<open>flushOpenReads\<close>: 16 halvings bring any 32-bit count below \<open>2 ^ 16\<close>.\<close>

fun shift_down :: "nat \<Rightarrow> u32 \<Rightarrow> byte \<Rightarrow> u32 \<times> byte" where
  "shift_down 0 v shift = (v, shift)"
| "shift_down (Suc fuel) v shift =
     (if 0xFFFF < v then shift_down fuel (drop_bit 1 v) (shift + 1) else (v, shift))"

definition flushOpenReads :: "('c, 'h, 'w) env \<Rightarrow> ('c, 'h, 'w) cp \<Rightarrow> ('c, 'h, 'w) cp" where
  "flushOpenReads E s =
     (if open_reads s = 0 then s
      else let (v, shift) = shift_down 16 (open_reads s) 0
           in (tstate E ST_SD_READS shift (ucast v) s)\<lparr>open_reads := 0\<rparr>)"

section \<open>Frame buffer contents\<close>

definition dispOpcodeFor :: "byte \<Rightarrow> bool \<Rightarrow> byte" where
  "dispOpcodeFor mode gs16 =
     disp_opcode_with_mode (if gs16 then cmd_disp_16lvl_oneshot else cmd_disp_2lvl_oneshot) mode"

definition defaultRefreshFor :: "arena_hw \<Rightarrow> nat \<Rightarrow> u32" where
  "defaultRefreshFor b n = (if n = block_byte_count_gs2 then refresh_rate_gs2_default b else refresh_rate_gs16_default b)"

text \<open>The zeroed buffer with prefix \<open>pre\<close> and the same block for each of \<open>n\<close> panels.\<close>

definition frame_image :: "nat \<Rightarrow> byte list \<Rightarrow> nat \<Rightarrow> nat \<Rightarrow> byte list \<Rightarrow> byte list" where
  "frame_image capacity pre n bsize block =
     fold (\<lambda>p buf. blit buf (stream_frame_prefix_byte_count + p * bsize) block) [0..<n]
       (blit (replicate capacity 0) 0 pre)"

definition all_on_block :: "byte \<Rightarrow> nat \<Rightarrow> byte list" where
  "all_on_block mode bsize =
     stamp_header_parity ([header_version_v1, dispOpcodeFor mode (bsize = block_byte_count_gs16)] @ replicate (bsize - 2) 0xFF)"

definition fillFrameBufferAllOn :: "('c, 'h, 'w) env \<Rightarrow> nat \<Rightarrow> ('c, 'h, 'w) cp \<Rightarrow> ('c, 'h, 'w) cp" where
  "fillFrameBufferAllOn E bsize s =
     (let n = panel_count_per_frame (board E); s = invalidateFrameBuf E s
      in s\<lparr>frame_buf := frame_image (length (frame_buf s)) [0x46, 0x52, 0, 0] n bsize
                         (all_on_block (panel_disp_mode s) bsize),
           frame_byte_count := (stream_frame_prefix_byte_count + n * bsize) mod 65536\<rparr>)"

definition dark_block :: "byte list" where
  "dark_block = stamp_header_parity ([header_version_v1, cmd_disp_2lvl_persist] @ replicate (block_byte_count_gs2 - 2) 0)"

definition fillFrameBufferDark :: "('c, 'h, 'w) env \<Rightarrow> ('c, 'h, 'w) cp \<Rightarrow> ('c, 'h, 'w) cp" where
  "fillFrameBufferDark E s =
     (let n = panel_count_per_frame (board E); s = invalidateFrameBuf E s
      in s\<lparr>frame_buf := frame_image (length (frame_buf s)) [0x46, 0x52] n block_byte_count_gs2 dark_block,
           blk := block_byte_count_gs2,
           frame_byte_count := (stream_frame_prefix_byte_count + n * block_byte_count_gs2) mod 65536\<rparr>)"

definition psram_block :: "u16 \<Rightarrow> byte \<Rightarrow> byte list" where
  "psram_block index cmd_id = take 4 (fst (build_psram_index_block (replicate 5 0) index cmd_id 0))"

definition buildPsramFrame :: "('c, 'h, 'w) env \<Rightarrow> u16 \<Rightarrow> ('c, 'h, 'w) cp \<Rightarrow> ('c, 'h, 'w) cp" where
  "buildPsramFrame E index s =
     (let n = panel_count_per_frame (board E);
          s = invalidateFrameBuf E s;
          cmd_id = disp_opcode_with_mode cmd_disp_psram_oneshot (panel_disp_mode s)
      in s\<lparr>frame_buf := frame_image (length (frame_buf s)) (0x46 # 0x52 # put16 index) n block_byte_count_psram
                         (psram_block index cmd_id),
           blk := block_byte_count_psram,
           frame_byte_count := (stream_frame_prefix_byte_count + n * block_byte_count_psram) mod 65536\<rparr>)"

text \<open>Rewriting every block of the buffered frame in place.\<close>

definition patch_blocks :: "(byte list \<Rightarrow> byte list) \<Rightarrow> nat \<Rightarrow> nat \<Rightarrow> byte list \<Rightarrow> byte list" where
  "patch_blocks f bsize n buf =
     fold (\<lambda>p buf. let off = stream_frame_prefix_byte_count + p * bsize
                   in blit buf off (f (slice buf off bsize))) [0..<n] buf"

definition set_mode :: "byte \<Rightarrow> byte list \<Rightarrow> byte list" where
  "set_mode mode block =
     stamp_header_parity (block[1 := disp_opcode_with_mode (block ! 1 AND 0xFC) mode])"

definition patchDispMode :: "('c, 'h, 'w) cp \<Rightarrow> ('c, 'h, 'w) cp" where
  "patchDispMode s =
     (if blk s = 0 \<or> frame_byte_count s \<le> stream_frame_prefix_byte_count then s
      else s\<lparr>frame_buf := patch_blocks (set_mode (panel_disp_mode s)) (blk s)
                            ((frame_byte_count s - stream_frame_prefix_byte_count) div blk s) (frame_buf s)\<rparr>)"

definition set_duty :: "byte \<Rightarrow> byte list \<Rightarrow> byte list" where
  "set_duty duty block = stamp_header_parity (block[length block - 1 := duty])"

definition patchTrialDuty :: "('c, 'h, 'w) cp \<Rightarrow> ('c, 'h, 'w) cp" where
  "patchTrialDuty s =
     (if trial_duty s = 0 then s
      else if blk s \<noteq> block_byte_count_gs2 \<and> blk s \<noteq> block_byte_count_gs16 then s
      else if frame_byte_count s \<le> stream_frame_prefix_byte_count then s
      else s\<lparr>frame_buf := patch_blocks (set_duty (trial_duty s)) (blk s)
                            ((frame_byte_count s - stream_frame_prefix_byte_count) div blk s) (frame_buf s)\<rparr>)"

section \<open>Analog output\<close>

text \<open>The two bytes on the bus and whether the chip acknowledged them.\<close>

definition writeDacMv :: "('c, 'h, 'w) env \<Rightarrow> u16 \<Rightarrow> ('c, 'h, 'w) cp \<Rightarrow> ('c, 'h, 'w) cp \<times> bool" where
  "writeDacMv E mv s =
     (let dac_code = ucast ((ucast mv :: u32) * 4095 div 5000) :: u16;
          ok = i2c_ok E (tick s);
          s = s\<lparr>pins := pins s @ [DacWrite (ucast (drop_bit 8 dac_code) AND 0x0F) (ucast (dac_code AND 0xFF)) ok],
                tick := tick s + 1\<rparr>
      in if ok then (s\<lparr>ao := (ao s)\<lparr>ao_mv := mv\<rparr>\<rparr>, True) else (s, False))"

definition applyAoLut :: "('c, 'h, 'w) env \<Rightarrow> nat \<Rightarrow> ('c, 'h, 'w) cp \<Rightarrow> ('c, 'h, 'w) cp \<times> bool" where
  "applyAoLut E i s =
     (if ao_lut_len (ao s) = 0 then (s, True)
      else writeDacMv E (ao_lut (ao s) ! (i mod ao_lut_len (ao s))) s)"

text \<open>The \<open>frame_number\<close> level: 0 mV at frame 0, 5000 mV at the last frame.\<close>

definition frame_mv :: "nat \<Rightarrow> nat \<Rightarrow> u16" where
  "frame_mv i n = (if 1 < n then ucast ((of_nat i * 5000 :: u32) div of_nat (n - 1)) else 0)"

section \<open>Digital IO roles\<close>

definition applyDioRole :: "nat \<Rightarrow> dio_role \<Rightarrow> ('c, 'h, 'w) cp \<Rightarrow> ('c, 'h, 'w) cp" where
  "applyDioRole port role s =
     (let data = (if port = 1 then do1_data_pin else do2_data_pin);
          dir = (if port = 1 then do1_dir_pin else do2_dir_pin);
          evs = PinOut dir #
                (if role = kOutProgrammable \<or> role = kOutFramescan
                 then [PinSet dir True, PinOut data, PinSet data False]
                 else [PinIn data, PinSet dir False]);
          roles = (dio_roles s)[port - 1 := role]
      in s\<lparr>pins := pins s @ evs, dio_roles := roles,
           spi_st := setFramescanGatePins
             (if roles ! 0 = kOutFramescan then int do1_data_pin else -1)
             (if roles ! 1 = kOutFramescan then int do2_data_pin else -1) (spi_st s)\<rparr>)"

definition cp_begin :: "('c, 'h, 'w) cp \<Rightarrow> ('c, 'h, 'w) cp" where
  "cp_begin s = applyDioRole 2 kInTrigger (applyDioRole 1 kOutProgrammable s)"

section \<open>State transitions\<close>

definition blank_once :: "('c, 'h, 'w) env \<Rightarrow> nat \<Rightarrow> ('c, 'h, 'w) cp \<Rightarrow> ('c, 'h, 'w) cp" where
  "blank_once E i s =
     send_frame E (if i = 0 then s else s\<lparr>spi_st := emit [DelayNs 2000000] (spi_st s)\<rparr>)"

definition enterAllOff :: "('c, 'h, 'w) env \<Rightarrow> ('c, 'h, 'w) cp \<Rightarrow> ('c, 'h, 'w) cp" where
  "enterAllOff E s =
     (let s = hclear E (disarm E (hmark E OP_CMD_DISARM 0 s));
          s = fillFrameBufferDark E s;
          s = fold (blank_once E) [0..<3] s;
          s = s\<lparr>cstate := ALL_OFF, frame_byte_count := 0\<rparr>;
          s = tstate E ST_STATE_CHANGE (state_code ALL_OFF) (of_nat (pattern_id s)) s;
          s = flushOpenReads E s
      in s\<lparr>trial_duty := 0\<rparr>)"

definition enterAllOn :: "('c, 'h, 'w) env \<Rightarrow> ('c, 'h, 'w) cp \<Rightarrow> ('c, 'h, 'w) cp" where
  "enterAllOn E s =
     (let s = (disarm E s)\<lparr>blk := block_byte_count_gs16\<rparr>;
          s = (if refresh_rate_explicit s then s else s\<lparr>refresh_rate_hz := refresh_rate_gs16_default (board E)\<rparr>);
          s = (fillFrameBufferAllOn E (blk s) s)\<lparr>cstate := ALL_ON\<rparr>;
          s = fst (arm E (refresh_rate_hz s) s)
      in tstate E ST_STATE_CHANGE (state_code ALL_ON) 0 s)"

definition enterStreamingFrame :: "('c, 'h, 'w) env \<Rightarrow> nat \<Rightarrow> ('c, 'h, 'w) cp \<Rightarrow> ('c, 'h, 'w) cp" where
  "enterStreamingFrame E bsize s =
     (let s = (disarm E s)\<lparr>blk := bsize, cstate := STREAMING_FRAME\<rparr>;
          s = fst (arm E (refresh_rate_hz s) s)
      in tstate E ST_STATE_CHANGE (state_code STREAMING_FRAME) 0 s)"

definition showError :: "('c, 'h, 'w) env \<Rightarrow> byte \<Rightarrow> ('c, 'h, 'w) cp \<Rightarrow> ('c, 'h, 'w) cp" where
  "showError E code s =
     (let s = invalidateFrameBuf E ((disarm E s)\<lparr>blk := block_byte_count_gs16\<rparr>);
          (buf, n) = buildErrorFrame (frame_buf s) (unat code) (panel_count_per_frame (board E));
          s = s\<lparr>frame_buf := buf, frame_byte_count := n, cstate := ERROR_DISPLAY,
                error_until_ms := ms E (tick s) + error_display_hold_ms, tick := tick s + 1\<rparr>;
          s = tstate E ST_ERROR_GLYPH code 0 s
      in fst (arm E (if refresh_rate_explicit s then refresh_rate_hz s else defaultRefreshFor (board E) (blk s)) s))"

section \<open>Loading a frame\<close>

definition sd_slow_records :: "('c, 'h, 'w) env \<Rightarrow> u32 \<Rightarrow> byte \<Rightarrow> ('c, 'h, 'w) cp \<Rightarrow> ('c, 'h, 'w) cp" where
  "sd_slow_records E t_sd err s =
     (if t_sd \<le> kSdSlowThresholdUs then s
      else
        let hundreds = t_sd div 100;
            (sk, bd, tl) = sd_phases E (tick s);
            phase = (if bd \<le> sk \<and> tl \<le> sk then kSdSlowPhaseSeek
                     else if tl \<le> bd then kSdSlowPhaseBody else kSdSlowPhaseTail);
            phase = (if err \<noteq> CE_NONE then phase OR kSdSlowErrorFlag else phase);
            s = tstate E ST_SD_SLOW phase (if 0xFFFF < hundreds then 0xFFFF else ucast hundreds) s
        in tstate E ST_SD_SLOW_CTX (card_err E (tick s)) (ucast (drop_bit 16 (card_err_data E (tick s)))) s)"

text \<open>The read itself with its timing, counters and telemetry; \<open>err\<close> is the code of \<open>readFrame\<close>.\<close>

definition timed_read :: "('c, 'h, 'w) env \<Rightarrow> nat \<Rightarrow> ('c, 'h, 'w) cp \<Rightarrow> ('c, 'h, 'w) cp \<times> byte" where
  "timed_read E frame_index s =
     (let s = hmark E OP_SD_READ 0 s;
          t0 = us E (tick s);
          (sd, buf, err) = readFrame (lib E) frame_index (frame_buf s) (sd_st s);
          t_sd = us E (tick s + 1) - t0;
          s = hclear E (s\<lparr>sd_st := sd, frame_buf := buf, tick := tick s + 2\<rparr>);
          s = s\<lparr>hs := (hs s)\<lparr>sd_reads := sd_reads (hs s) + 1\<rparr>, open_reads := open_reads s + 1\<rparr>;
          s = (if open_reads s mod kSdReadsCheckpoint = 0 then
                 (let (v, shift) = shift_down 16 (open_reads s) 0 in tstate E ST_SD_READS_CKPT shift (ucast v) s)
               else s);
          s = s\<lparr>hs := (hs s)\<lparr>sd_read_max_us := max (sd_read_max_us (hs s)) t_sd, last_sd_read_us := t_sd\<rparr>\<rparr>
      in (sd_slow_records E t_sd err s, err))"

definition apply_outputs :: "('c, 'h, 'w) env \<Rightarrow> nat \<Rightarrow> ('c, 'h, 'w) cp \<Rightarrow> ('c, 'h, 'w) cp \<times> bool" where
  "apply_outputs E frame_index s =
     (if ao_mode (ao s) = 1 then writeDacMv E (frame_mv frame_index (pat_frames s)) s
      else if 0 < ao_lut_len (ao s) \<and> ao_lut_mode (ao s) = 0 then
        let s = s\<lparr>ao := (ao s)\<lparr>ao_lut_idx := frame_index mod ao_lut_len (ao s)\<rparr>\<rparr>
        in applyAoLut E (ao_lut_idx (ao s)) s
      else (s, True))"

definition frame_loaded :: "('c, 'h, 'w) env \<Rightarrow> nat \<Rightarrow> ('c, 'h, 'w) cp \<Rightarrow> ('c, 'h, 'w) cp" where
  "frame_loaded E frame_index s =
     (let s = s\<lparr>frame_byte_count := (stream_frame_prefix_byte_count + num_panels (info (sd_st s)) * blk s) mod 65536,
                frame_buf_is_frame := True,
                frame_src_flags := kFrameFlagSdRead OR (if contiguous (sd_st s) then kFrameFlagContiguous else 0)\<rparr>;
          s = patchTrialDuty (patchDispMode s);
          (s, ok) = apply_outputs E frame_index s
      in s\<lparr>sd_cache_ok := ok\<rparr>)"

definition begin_load :: "('c, 'h, 'w) env \<Rightarrow> ('c, 'h, 'w) cp \<Rightarrow> ('c, 'h, 'w) cp" where
  "begin_load E s =
     s\<lparr>superseded_pending :=
         (if frame_buf_is_frame s \<and> \<not> buf_presented s \<and> superseded_pending s < 0xFF
          then superseded_pending s + 1 else superseded_pending s),
       frame_req_us := (if pending_req_valid s then pending_req_us s else us E (tick s)),
       pending_req_valid := False, frame_buf_is_frame := False, frame_src_flags := 0,
       buf_presented := False, tick := tick s + 1\<rparr>"

definition loadFrame :: "('c, 'h, 'w) env \<Rightarrow> nat \<Rightarrow> ('c, 'h, 'w) cp \<Rightarrow> ('c, 'h, 'w) cp \<times> bool" where
  "loadFrame E frame_index s =
     (let (s, err) = timed_read E frame_index (begin_load E s)
      in if err \<noteq> CE_NONE then (showError E err s, False)
         else (frame_loaded E frame_index s, True))"

section \<open>Starting a pattern\<close>

definition layout_code :: "('c, 'h, 'w) env \<Rightarrow> ('c, 'h, 'w) cp \<Rightarrow> byte" where
  "layout_code E s =
     (if contiguous (sd_st s) then 1 else 0) OR (if fat_type E (tick s) = 64 then 2 else 0)
     OR (if applied_legacy_seek (sd_st s) then 4 else 0) OR (if sd_skip_same_index s then 0 else 8)"

definition sd_layout_record :: "('c, 'h, 'w) env \<Rightarrow> ('c, 'h, 'w) cp \<Rightarrow> ('c, 'h, 'w) cp" where
  "sd_layout_record E s =
     (let spc = sectors_per_cluster E (tick s)
      in tstate E ST_SD_LAYOUT (layout_code E s) (if 0xFFFF < spc then 0xFFFF else ucast spc) s)"

definition set_playback :: "nat \<Rightarrow> int \<Rightarrow> int \<Rightarrow> nat \<Rightarrow> ('c, 'h, 'w) cp \<Rightarrow> ('c, 'h, 'w) cp" where
  "set_playback pid rate g init_frame s =
     (let n = frame_count (info (sd_st s))
      in s\<lparr>pattern_id := pid, pat_frames := n, blk := block_size (info (sd_st s)), frame_rate_hz := rate,
           gain := g, cur_frame := (if 0 < n then init_frame mod n else 0), frame_accum := 0\<rparr>)"

definition default_rate :: "('c, 'h, 'w) env \<Rightarrow> ('c, 'h, 'w) cp \<Rightarrow> ('c, 'h, 'w) cp" where
  "default_rate E s =
     (if refresh_rate_explicit s then s else s\<lparr>refresh_rate_hz := defaultRefreshFor (board E) (blk s)\<rparr>)"

definition open_step :: "('c, 'h, 'w) env \<Rightarrow> nat \<Rightarrow> ('c, 'h, 'w) cp \<Rightarrow> ('c, 'h, 'w) cp \<times> byte" where
  "open_step E pid s =
     (let s = invalidateFrameBuf E (flushOpenReads E (disarm E s));
          s = hmark E OP_SD_OPEN 0 s;
          (sd, err) = openPattern (lib E) (board E) pid (sd_st s);
          s = hclear E (s\<lparr>sd_st := sd\<rparr>)
      in (tstate E ST_SD_OPEN err (of_nat pid) s, err))"

definition start_clocks :: "('c, 'h, 'w) env \<Rightarrow> arena_state \<Rightarrow> nat \<Rightarrow> ('c, 'h, 'w) cp \<Rightarrow> ('c, 'h, 'w) cp" where
  "start_clocks E mode duration_ticks s =
     s\<lparr>last_advance_us := us E (tick s), last_sample_us := us E (tick s),
       trial_end_ms := (if duration_ticks \<noteq> 0 then ms E (tick s + 1) + of_nat duration_ticks * duration_tick_ms else 0),
       cstate := mode, tick := tick s + 2\<rparr>"

definition enterPatternMode :: "('c, 'h, 'w) env \<Rightarrow> arena_state \<Rightarrow> nat \<Rightarrow> int \<Rightarrow> int \<Rightarrow> nat \<Rightarrow> nat
    \<Rightarrow> ('c, 'h, 'w) cp \<Rightarrow> ('c, 'h, 'w) cp \<times> bool" where
  "enterPatternMode E mode pid rate g init_frame duration_ticks s =
     (let (s, err) = open_step E pid s
      in if err \<noteq> CE_NONE then (showError E err s, False)
         else
           let s = set_playback pid rate g init_frame (sd_layout_record E s);
               (s, loaded) = loadFrame E (cur_frame s) s
           in if \<not> loaded then (s, False)
              else
                let s = start_clocks E mode duration_ticks (default_rate E s);
                    (s, armed) = arm E (refresh_rate_hz s) s
                in if \<not> armed then (enterAllOff E s, False)
                   else
                     let s = tstate E ST_STATE_CHANGE (state_code mode) (of_nat (pattern_id s)) s
                     in (s\<lparr>tel_last_frame := 0xFFFF, tel_last_pattern := 0xFFFF\<rparr>, True))"

section \<open>Service\<close>

definition frame_telemetry :: "('c, 'h, 'w) env \<Rightarrow> u32 \<Rightarrow> ('c, 'h, 'w) cp \<Rightarrow> ('c, 'h, 'w) cp" where
  "frame_telemetry E t0 s =
     (if cur_frame s = tel_last_frame s \<and> pattern_id s = tel_last_pattern s then s
      else s\<lparr>tel_last_frame := cur_frame s, tel_last_pattern := pattern_id s, superseded_pending := 0,
             tel_st := frame (us E (tick s + 1)) t0 (of_nat (cur_frame s)) (of_nat (pattern_id s))
                         (last_sd_read_us (hs s)) (us E (tick s) - t0) (t0 - frame_req_us s)
                         (superseded_pending s) (frame_src_flags s) (tel_st s),
             tick := tick s + 2\<rparr>)"

definition transmitOnRefresh :: "('c, 'h, 'w) env \<Rightarrow> ('c, 'h, 'w) cp \<Rightarrow> ('c, 'h, 'w) cp" where
  "transmitOnRefresh E s =
     (if \<not> refreshFlag (spi_st s) then s
      else
        let t0 = us E (tick s);
            s = s\<lparr>spi_st := (spi_st s)\<lparr>refreshFlag := False\<rparr>, tick := tick s + 1\<rparr>;
            s = (send_frame E s)\<lparr>buf_presented := True\<rparr>
        in frame_telemetry E t0 s)"

text \<open>
  The catch-up loop shared by \<open>serviceOpenLoop\<close> and \<open>servicePsramPlay\<close>: \<open>left\<close> is how many
  steps remain until \<open>++steps >= limit\<close> breaks out of it.
\<close>

fun catch_up :: "nat \<Rightarrow> u32 \<Rightarrow> u32 \<Rightarrow> u32 \<Rightarrow> nat \<Rightarrow> u32 \<times> nat" where
  "catch_up 0 now period last_us steps = (last_us, steps)"
| "catch_up (Suc left) now period last_us steps =
     (if period \<le> now - last_us then catch_up left now period (last_us + period) (steps + 1)
      else (last_us, steps))"

definition advance_index :: "nat \<Rightarrow> int \<Rightarrow> nat \<Rightarrow> nat \<Rightarrow> nat" where
  "advance_index cur rate steps n = nat ((int cur + (if 0 < rate then int steps else - int steps)) mod int n)"

definition serviceOpenLoop :: "('c, 'h, 'w) env \<Rightarrow> ('c, 'h, 'w) cp \<Rightarrow> ('c, 'h, 'w) cp" where
  "serviceOpenLoop E s =
     (if frame_rate_hz s = 0 \<or> pat_frames s \<le> 1 then s
      else
        let period_us = microseconds_per_second div of_int \<bar>frame_rate_hz s\<bar>;
            now = us E (tick s);
            s = s\<lparr>tick := tick s + 1\<rparr>
        in if now - last_advance_us s < period_us then s
           else
             let (t, steps) = catch_up (pat_frames s) now period_us (last_advance_us s) 0;
                 s = s\<lparr>last_advance_us := t, cur_frame := advance_index (cur_frame s) (frame_rate_hz s) steps (pat_frames s)\<rparr>
             in fst (loadFrame E (cur_frame s) s))"

definition servicePsramPlay :: "('c, 'h, 'w) env \<Rightarrow> ('c, 'h, 'w) cp \<Rightarrow> ('c, 'h, 'w) cp" where
  "servicePsramPlay E s =
     (if frame_rate_hz s \<le> 0 \<or> psram_count s \<le> 1 then s
      else
        let period_us = microseconds_per_second div of_int (frame_rate_hz s);
            now = us E (tick s);
            s = s\<lparr>tick := tick s + 1\<rparr>
        in if now - last_advance_us s < period_us then s
           else
             let (t, steps) = catch_up (unat (psram_count s)) now period_us (last_advance_us s) 0;
                 s = s\<lparr>last_advance_us := t,
                       psram_offset := of_nat ((unat (psram_offset s) + steps) mod unat (psram_count s))\<rparr>
             in buildPsramFrame E (psram_start s + psram_offset s) s)"

text \<open>Mode 4. The input voltage of the BNC from the 10-bit reading: +/-10 V span the ADC range.\<close>

definition bnc_volts :: "nat \<Rightarrow> rat" where
  "bnc_volts raw = (let adc_frac = rne (of_nat raw / 1023) in rne (rne (rne (adc_frac - 1 / 2) * 2) * 10))"

text \<open>The frames (a fraction, signed) that one sample adds: volts times \<open>gain/10\<close> times seconds.\<close>

definition sample_frames :: "nat \<Rightarrow> int \<Rightarrow> u32 \<Rightarrow> rat" where
  "sample_frames raw g dt_us =
     (let fps = rne (bnc_volts raw * rne (of_int g / 10))
      in rne (fps * rne (rne (of_nat (unat dt_us)) / 1000000)))"

text \<open>The two loops that turn whole frames into index steps; float subtraction does not have to make
  progress, so a loop that does not end is \<open>None\<close>.\<close>

partial_function (option) frames_up :: "nat \<Rightarrow> rat \<Rightarrow> nat \<Rightarrow> bool \<Rightarrow> (rat \<times> nat \<times> bool) option" where
  "frames_up n a cur changed =
     (if 1 \<le> a then frames_up n (rne (a - 1)) ((cur + 1) mod n) True else Some (a, cur, changed))"

partial_function (option) frames_down :: "nat \<Rightarrow> rat \<Rightarrow> nat \<Rightarrow> bool \<Rightarrow> (rat \<times> nat \<times> bool) option" where
  "frames_down n a cur changed =
     (if a \<le> - 1 then frames_down n (rne (a + 1)) ((cur + n - 1) mod n) True else Some (a, cur, changed))"

definition whole_frames :: "nat \<Rightarrow> rat \<Rightarrow> nat \<Rightarrow> (rat \<times> nat \<times> bool) option" where
  "whole_frames n a cur =
     (case frames_up n a cur False of None \<Rightarrow> None | Some (a, cur, changed) \<Rightarrow> frames_down n a cur changed)"

text \<open>The sample clock of 500 Hz (2000 us).\<close>

definition serviceClosedLoop :: "('c, 'h, 'w) env \<Rightarrow> ('c, 'h, 'w) cp \<Rightarrow> ('c, 'h, 'w) cp" where
  "serviceClosedLoop E s =
     (if pat_frames s = 0 then s
      else
        let now = us E (tick s); s = s\<lparr>tick := tick s + 1\<rparr>
        in if now - last_sample_us s < microseconds_per_second div 500 then s
           else
             let dt_us = now - last_sample_us s;
                 a = rne (frame_accum s + sample_frames (adc E (tick s)) (gain s) dt_us);
                 s = s\<lparr>last_sample_us := now, tick := tick s + 1\<rparr>
             in case whole_frames (pat_frames s) a (cur_frame s) of
                  None \<Rightarrow> s\<lparr>halted := True\<rparr>
                | Some (a, cur, changed) \<Rightarrow>
                    let s = s\<lparr>frame_accum := a, cur_frame := cur\<rparr>
                    in if changed then fst (loadFrame E cur s) else s)"

definition serviceTrialTimer :: "('c, 'h, 'w) env \<Rightarrow> ('c, 'h, 'w) cp \<Rightarrow> ('c, 'h, 'w) cp" where
  "serviceTrialTimer E s =
     (if trial_end_ms s = 0 then s
      else
        let now = ms E (tick s); s = s\<lparr>tick := tick s + 1\<rparr>
        in if \<not> expired now (trial_end_ms s) then s
           else enterAllOff E (s\<lparr>trial_end_ms := 0\<rparr>))"

definition serviceAoLut :: "('c, 'h, 'w) env \<Rightarrow> ('c, 'h, 'w) cp \<Rightarrow> ('c, 'h, 'w) cp" where
  "serviceAoLut E s =
     (if 0 < ao_lut_len (ao s) \<and> ao_lut_mode (ao s) = 1 \<and> 0 < ao_lut_step_hz (ao s) then
        let now = us E (tick s);
            s = s\<lparr>tick := tick s + 1\<rparr>;
            period_us = 1000000 div ucast (ao_lut_step_hz (ao s)) :: u32
        in if now - ao_lut_last_us (ao s) < period_us then s
           else
             let s = s\<lparr>ao := (ao s)\<lparr>ao_lut_last_us := ao_lut_last_us (ao s) + period_us,
                                  ao_lut_idx := (ao_lut_idx (ao s) + 1) mod ao_lut_len (ao s)\<rparr>\<rparr>
             in fst (applyAoLut E (ao_lut_idx (ao s)) s)
      else s)"

definition serviceDisplay :: "('c, 'h, 'w) env \<Rightarrow> ('c, 'h, 'w) cp \<Rightarrow> ('c, 'h, 'w) cp" where
  "serviceDisplay E s =
     (let s = serviceTrialTimer E (serviceAoLut E s)
      in case cstate s of
           ALL_OFF \<Rightarrow> s
         | ALL_ON \<Rightarrow> transmitOnRefresh E s
         | STREAMING_FRAME \<Rightarrow> transmitOnRefresh E s
         | SHOW_FRAME \<Rightarrow> transmitOnRefresh E s
         | OPEN_LOOP \<Rightarrow> transmitOnRefresh E (serviceOpenLoop E s)
         | CLOSED_LOOP \<Rightarrow> (let s = serviceClosedLoop E s in if halted s then s else transmitOnRefresh E s)
         | PSRAM_PLAY \<Rightarrow> transmitOnRefresh E (servicePsramPlay E s)
         | ERROR_DISPLAY \<Rightarrow>
             let s = transmitOnRefresh E s;
                 now = ms E (tick s);
                 s = s\<lparr>tick := tick s + 1\<rparr>
             in if expired now (error_until_ms s) then enterAllOff E s else s)"

definition serviceLateBootBlank :: "('c, 'h, 'w) env \<Rightarrow> ('c, 'h, 'w) cp \<Rightarrow> ('c, 'h, 'w) cp" where
  "serviceLateBootBlank E s =
     (if \<not> late_boot_blank_pending s then s
      else
        let now = ms E (tick s); s = s\<lparr>tick := tick s + 1\<rparr>
        in if \<not> expired now panel_late_boot_blank_ms then s
           else
             let s = s\<lparr>late_boot_blank_pending := False\<rparr>
             in if cstate s = ALL_OFF \<and> \<not> busy s then enterAllOff E s else s)"

end
