(* ===== verification/Handlers.thy ===== *)
theory Handlers
  imports Display
begin

text \<open>
  \<open>src/src/CommandProcessor.cpp\<close>, the display commands: trial-params, set-frame-position, the
  PSRAM commands and streamed frames, and the analog/digital output and telemetry commands with
  state of their own. \<open>d\<close> is \<open>cmd.data\<close> (\<open>[len, opcode, parameters ...]\<close>), a buffer of
  its full capacity; \<open>t_rx_us\<close> and the replies are as in the dispatcher.
\<close>

section \<open>Opcodes\<close>

definition ALL_OFF_CMD :: byte where "ALL_OFF_CMD = 0x00"
definition SYSTEM_RESET_CMD :: byte where "SYSTEM_RESET_CMD = 0x01"
definition SET_PATTERN_ID_CMD :: byte where "SET_PATTERN_ID_CMD = 0x03"
definition SWITCH_GRAYSCALE_CMD :: byte where "SWITCH_GRAYSCALE_CMD = 0x06"
definition TRIAL_PARAMS_CMD :: byte where "TRIAL_PARAMS_CMD = 0x08"
definition SET_REFRESH_RATE_CMD :: byte where "SET_REFRESH_RATE_CMD = 0x16"
definition GET_REFRESH_RATE_CMD :: byte where "GET_REFRESH_RATE_CMD = 0x17"
definition SET_PANEL_DISPLAY_MODE_CMD :: byte where "SET_PANEL_DISPLAY_MODE_CMD = 0x1B"
definition GET_PANEL_DISPLAY_MODE_CMD :: byte where "GET_PANEL_DISPLAY_MODE_CMD = 0x1C"
definition STOP_DISPLAY_CMD :: byte where "STOP_DISPLAY_CMD = 0x30"
definition GET_FRAMES_SENT_CMD :: byte where "GET_FRAMES_SENT_CMD = 0x33"
definition RESET_FRAMES_SENT_CMD :: byte where "RESET_FRAMES_SENT_CMD = 0x34"
definition DISPLAY_PSRAM_INDEX_CMD :: byte where "DISPLAY_PSRAM_INDEX_CMD = 0x3A"
definition PSRAM_PLAY_CMD :: byte where "PSRAM_PLAY_CMD = 0x3B"
definition SET_FRAME_POSITION_CMD :: byte where "SET_FRAME_POSITION_CMD = 0x70"
definition GET_FRAME_POSITION_CMD :: byte where "GET_FRAME_POSITION_CMD = 0x72"
definition GET_FILE_COUNT_CMD :: byte where "GET_FILE_COUNT_CMD = 0x80"
definition GET_PATTERN_FILENAME_CMD :: byte where "GET_PATTERN_FILENAME_CMD = 0x82"
definition GET_PATTERN_FILE_CMD :: byte where "GET_PATTERN_FILE_CMD = 0x84"
definition DELETE_PATTERN_FILE_CMD :: byte where "DELETE_PATTERN_FILE_CMD = 0x86"
definition GET_PATTERN_INFO_CMD :: byte where "GET_PATTERN_INFO_CMD = 0x88"
definition GET_SD_ARCHIVE_CMD :: byte where "GET_SD_ARCHIVE_CMD = 0x8A"
definition PURGE_MEMORY_CMD :: byte where "PURGE_MEMORY_CMD = 0x8F"
definition SET_AO_VOLTAGE_CMD :: byte where "SET_AO_VOLTAGE_CMD = 0xA0"
definition SET_AO_LUT_CMD :: byte where "SET_AO_LUT_CMD = 0xA2"
definition SET_AO_MODE_CMD :: byte where "SET_AO_MODE_CMD = 0xA3"
definition SET_TELEMETRY_CMD :: byte where "SET_TELEMETRY_CMD = 0xA8"
definition GET_TELEMETRY_BLOCK_CMD :: byte where "GET_TELEMETRY_BLOCK_CMD = 0xA9"
definition SET_DIGITAL_OUT_CMD :: byte where "SET_DIGITAL_OUT_CMD = 0xAA"
definition GET_DIGITAL_OUT_CMD :: byte where "GET_DIGITAL_OUT_CMD = 0xAB"
definition SET_DIO_ROLE_CMD :: byte where "SET_DIO_ROLE_CMD = 0xAC"
definition GET_DIO_ROLE_CMD :: byte where "GET_DIO_ROLE_CMD = 0xAD"
definition SET_SPI_CLOCK_CMD :: byte where "SET_SPI_CLOCK_CMD = 0xC5"
definition GET_SPI_CLOCK_CMD :: byte where "GET_SPI_CLOCK_CMD = 0xC6"
definition SET_SD_DIAG_CMD :: byte where "SET_SD_DIAG_CMD = 0xCE"
definition ALL_ON_CMD :: byte where "ALL_ON_CMD = 0xFF"

section \<open>Trial start\<close>

definition word16 :: "byte list \<Rightarrow> nat \<Rightarrow> u16" where
  "word16 d i = get16 (d ! i) (d ! (i + 1))"

text \<open>The parameter length of a framed command, \<open>uint8_t(data[0] - 1)\<close>.\<close>

definition param_len :: "byte list \<Rightarrow> byte" where
  "param_len d = d ! 0 - 1"

fun trial_target :: "byte \<Rightarrow> arena_state option" where
  "trial_target mode =
     (if mode = display_mode_open_loop then Some OPEN_LOOP
      else if mode = display_mode_show_frame then Some SHOW_FRAME
      else if mode = display_mode_closed_loop then Some CLOSED_LOOP
      else None)"

definition handleTrialParams :: "('c, 'h, 'w) env \<Rightarrow> byte list \<Rightarrow> ('c, 'h, 'w) cp \<Rightarrow> ('c, 'h, 'w) cp" where
  "handleTrialParams E d s =
     (if busy s then reply TRIAL_PARAMS_CMD 1 (str ''SD transfer in progress'') s
      else if param_len d < 11 then
        reply TRIAL_PARAMS_CMD 1 (str ''TRIAL_PARAMS too short'') (showError E CE_BAD_PAYLOAD_LEN s)
      else
        case trial_target (d ! 2) of
          None \<Rightarrow> reply TRIAL_PARAMS_CMD 1 (str ''TRIAL_PARAMS: mode must be 2/3/4'') (showError E CE_BAD_PARAM s)
        | Some target \<Rightarrow>
            let duty = (if 12 \<le> param_len d then d ! 13 else 0);
                (s, ok) = enterPatternMode E target (unat (word16 d 3)) (sint (word16 d 5)) (sint (word16 d 9))
                            (unat (word16 d 7)) (unat (word16 d 11)) (s\<lparr>trial_duty := duty\<rparr>)
            in if ok then reply TRIAL_PARAMS_CMD 0 [] s
               else reply TRIAL_PARAMS_CMD 1 (str ''TRIAL_PARAMS: load failed'') (s\<lparr>trial_duty := 0\<rparr>))"

section \<open>Set frame position\<close>

definition same_index_hit :: "nat \<Rightarrow> ('c, 'h, 'w) cp \<Rightarrow> bool" where
  "same_index_hit index s \<longleftrightarrow>
     sd_skip_same_index s \<and> cstate s = SHOW_FRAME \<and> frame_buf_is_frame s \<and> sd_cache_ok s
     \<and> index = cur_frame s \<and> refreshArmedAt (refresh_rate_hz s) (spi_st s)"

definition respond70 :: "('c, 'h, 'w) env \<Rightarrow> byte \<Rightarrow> string \<Rightarrow> ('c, 'h, 'w) cp \<Rightarrow> ('c, 'h, 'w) cp" where
  "respond70 E status msg s =
     reply SET_FRAME_POSITION_CMD status (str msg) (hmark E OP_CMD_RESPOND SET_FRAME_POSITION_CMD s)"

definition show_position :: "('c, 'h, 'w) env \<Rightarrow> ('c, 'h, 'w) cp \<Rightarrow> ('c, 'h, 'w) cp" where
  "show_position E s =
     (let s = (if cstate s \<noteq> SHOW_FRAME
               then tstate E ST_STATE_CHANGE (state_code SHOW_FRAME) (of_nat (pattern_id s)) s else s);
          s = default_rate E (s\<lparr>cstate := SHOW_FRAME\<rparr>)
      in if refreshArmedAt (refresh_rate_hz s) (spi_st s) then respond70 E 0 '''' s
         else
           let (s, ok) = arm E (refresh_rate_hz s) (hmark E OP_CMD_ARM SET_FRAME_POSITION_CMD s)
           in if ok then respond70 E 0 '''' s
              else respond70 E 1 ''SET_FRAME_POSITION: refresh timer unavailable'' s)"

definition handleSetFramePosition :: "('c, 'h, 'w) env \<Rightarrow> byte list \<Rightarrow> ('c, 'h, 'w) cp \<Rightarrow> ('c, 'h, 'w) cp" where
  "handleSetFramePosition E d s =
     (let s = s\<lparr>hs := (hs s)\<lparr>cmd70_count := cmd70_count (hs s) + 1\<rparr>\<rparr>;
          index = unat (word16 d 2)
      in if param_len d < 2 then
           reply SET_FRAME_POSITION_CMD 1 (str ''SET_FRAME_POSITION too short'') (showError E CE_BAD_PAYLOAD_LEN s)
         else if \<not> file_open (sd_st s) then
           reply SET_FRAME_POSITION_CMD 1
             (str ''SET_FRAME_POSITION: no pattern selected (send trial-params first)'') (showError E CE_BAD_PARAM s)
         else if pat_frames s \<le> index then
           reply SET_FRAME_POSITION_CMD 1 (str ''SET_FRAME_POSITION: index out of range'') (showError E CE_BAD_PARAM s)
         else
           let s = hmark E OP_CMD_PRELOAD SET_FRAME_POSITION_CMD s
           in if same_index_hit index s then
                respond70 E 0 '''' (s\<lparr>hs := (hs s)\<lparr>cmd70_same_index := cmd70_same_index (hs s) + 1\<rparr>\<rparr>)
              else
                let (s, ok) = loadFrame E index
                      (s\<lparr>cur_frame := index, pending_req_us := last_cmd_rx_us s, pending_req_valid := True\<rparr>)
                in if ok then show_position E s
                   else respond70 E 1 ''SET_FRAME_POSITION: frame read failed'' s)"

section \<open>PSRAM display\<close>

definition enter_psram :: "('c, 'h, 'w) env \<Rightarrow> ('c, 'h, 'w) cp \<Rightarrow> ('c, 'h, 'w) cp" where
  "enter_psram E s =
     (let s = (if cstate s \<noteq> PSRAM_PLAY then tstate E ST_STATE_CHANGE (state_code PSRAM_PLAY) 0 s else s)
      in s\<lparr>cstate := PSRAM_PLAY\<rparr>)"

definition handleDisplayPsramIndex :: "('c, 'h, 'w) env \<Rightarrow> byte list \<Rightarrow> ('c, 'h, 'w) cp \<Rightarrow> ('c, 'h, 'w) cp" where
  "handleDisplayPsramIndex E d s =
     (if param_len d < 2 then
        reply DISPLAY_PSRAM_INDEX_CMD 1 (str ''DISPLAY_PSRAM too short'') (showError E CE_BAD_PAYLOAD_LEN s)
      else
        let index = word16 d 2;
            s = buildPsramFrame E index (s\<lparr>psram_start := index, psram_count := 1, psram_offset := 0\<rparr>);
            s = default_rate E (enter_psram E s);
            s = fst (arm E (refresh_rate_hz s) s)
        in reply DISPLAY_PSRAM_INDEX_CMD 0 [] s)"

definition handlePsramPlay :: "('c, 'h, 'w) env \<Rightarrow> byte list \<Rightarrow> ('c, 'h, 'w) cp \<Rightarrow> ('c, 'h, 'w) cp" where
  "handlePsramPlay E d s =
     (if param_len d < 6 then
        reply PSRAM_PLAY_CMD 1 (str ''PSRAM_PLAY too short'') (showError E CE_BAD_PAYLOAD_LEN s)
      else
        let start = word16 d 2; n = word16 d 4; fps = word16 d 6;
            n = (if n = 0 then 1 else n);
            s = s\<lparr>psram_start := start, psram_count := n, psram_offset := 0, frame_rate_hz := sint fps\<rparr>;
            s = enter_psram E (buildPsramFrame E start s);
            s = s\<lparr>last_advance_us := us E (tick s), tick := tick s + 1\<rparr>;
            r = (if refresh_rate_explicit s then refresh_rate_hz s else defaultRefreshFor (board E) (blk s));
            s = fst (arm E r s)
        in reply PSRAM_PLAY_CMD 0 [] s)"

section \<open>Streaming\<close>

text \<open>\<open>n\<close> is \<open>cmd.data_len\<close>.\<close>

definition stream_block_size :: "arena_hw \<Rightarrow> nat \<Rightarrow> nat option" where
  "stream_block_size b n =
     (if n = stream_frame_byte_count_gs2 b then Some block_byte_count_gs2
      else if n = stream_frame_byte_count_gs16 b then Some block_byte_count_gs16
      else None)"

definition handleStreamCommand :: "('c, 'h, 'w) env \<Rightarrow> byte list \<Rightarrow> nat \<Rightarrow> ('c, 'h, 'w) cp \<Rightarrow> ('c, 'h, 'w) cp" where
  "handleStreamCommand E d n s =
     (let bytes = n - stream_header_byte_count
      in case stream_block_size (board E) bytes of
           None \<Rightarrow> reply STREAM_FRAME_CMD 1 (str ''Bad stream-frame size'') (enterAllOff E s)
         | Some bsize \<Rightarrow>
             let s = invalidateFrameBuf E s;
                 s = patchDispMode (s\<lparr>frame_buf := blit (frame_buf s) 0 (slice d stream_header_byte_count bytes),
                                    frame_byte_count := bytes, blk := bsize\<rparr>);
                 want = defaultRefreshFor (board E) bsize;
                 change = (\<not> refresh_rate_explicit s \<and> want \<noteq> refresh_rate_hz s);
                 rearm = (cstate s \<noteq> STREAMING_FRAME \<or> change);
                 s = (if change then s\<lparr>refresh_rate_hz := want\<rparr> else s);
                 s = (if rearm then enterStreamingFrame E bsize s else s)
             in reply STREAM_FRAME_CMD 0 [] s)"

end
