(* ===== verification/FrameProps.thy ===== *)
theory FrameProps
  imports Handlers SpiProps SdProps
begin

text \<open>
  What the frame buffer holds: the synthesised frames give every panel a valid block, and the
  in-place patches change the opcode's mode bits or the duty byte and nothing else.
\<close>

section \<open>Synthesised frames\<close>

lemma frame_image_blocks:
  assumes "length block = bs" "4 + n * bs \<le> cap" "length pre \<le> 4"
  shows "length (frame_image cap pre n bs block) = cap
       \<and> (\<forall>p<n. panel_block (frame_image cap pre n bs block) bs p = block)
       \<and> take (length pre) (frame_image cap pre n bs block) = pre"
proof -
  have l: "length (blit (replicate cap 0) 0 pre) = cap" using assms by simp
  have f: "4 + n * bs \<le> length (blit (replicate cap (0::byte)) 0 pre)" using assms l by simp
  note fb = fold_blit_blocks [OF assms(1) f]
  have "take (length pre) (frame_image cap pre n bs block)
      = take (length pre) (take 4 (frame_image cap pre n bs block))" using assms(3) by simp
  also have "take 4 (frame_image cap pre n bs block) = take 4 (blit (replicate cap 0) 0 pre)"
    using fb by (simp add: frame_image_def stream_frame_prefix_byte_count_def)
  also have "take (length pre) \<dots> = pre" using assms by (simp add: blit_def)
  finally show ?thesis
    using fb l by (simp add: frame_image_def panel_block_def stream_frame_prefix_byte_count_def)
qed

lemma stamp_payload: "2 \<le> length m \<Longrightarrow> drop 2 (stamp_header_parity m) = drop 2 m"
  by (cases m; cases "tl m") (auto simp: stamp_Cons2 numeral_2_eq_2)

lemma length_dark_block [simp]: "length dark_block = 53"
  by (simp add: dark_block_def panel_consts)

lemma dark_block_blank:
  "validate_parity dark_block \<and> dark_block ! 0 AND 0x7F = 1 \<and> dark_block ! 1 = cmd_disp_2lvl_persist
   \<and> drop 2 dark_block = replicate 51 0"
  by (simp add: dark_block_def validate_stamp_iff stamp_low_bits stamp_payload panel_consts)

lemma length_all_on_block [simp]: "2 \<le> bs \<Longrightarrow> length (all_on_block m bs) = bs"
  by (simp add: all_on_block_def)

lemma length_psram_block [simp]: "length (psram_block i c) = 4"
  by (simp add: psram_block_def build_psram_index_block_def Let_def panel_consts)

section \<open>Patching in place\<close>

lemma patch_blocks_spec:
  assumes f: "\<And>x. length (f x) = length x" and fit: "4 + n * bs \<le> length buf"
  shows "length (patch_blocks f bs n buf) = length buf
       \<and> take 4 (patch_blocks f bs n buf) = take 4 buf
       \<and> drop (4 + n * bs) (patch_blocks f bs n buf) = drop (4 + n * bs) buf
       \<and> (\<forall>p<n. panel_block (patch_blocks f bs n buf) bs p = f (panel_block buf bs p))"
  using fit
proof (induction n)
  case 0
  then show ?case by (simp add: patch_blocks_def)
next
  case (Suc n)
  let ?r = "patch_blocks f bs n buf"
  have IH: "length ?r = length buf" "take 4 ?r = take 4 buf" "drop (4 + n * bs) ?r = drop (4 + n * bs) buf"
      "\<forall>p<n. panel_block ?r bs p = f (panel_block buf bs p)"
    using Suc by simp_all
  let ?new = "f (slice ?r (4 + n * bs) bs)"
  have here: "slice ?r (4 + n * bs) bs = panel_block buf bs n"
    using IH(3) by (simp add: slice_def panel_block_def stream_frame_prefix_byte_count_def)
  have len: "length ?new = bs" using Suc.prems IH(1) by (simp add: f)
  have fits: "4 + n * bs + length ?new \<le> length ?r" using Suc.prems IH(1) len by simp
  have step: "patch_blocks f bs (Suc n) buf = blit ?r (4 + n * bs) ?new"
    by (simp add: patch_blocks_def Let_def stream_frame_prefix_byte_count_def)
  have blocks: "panel_block (blit ?r (4 + n * bs) ?new) bs p = f (panel_block buf bs p)" if "p < Suc n" for p
  proof (cases "p = n")
    case True
    then show ?thesis using fits len here by (simp add: panel_block_def stream_frame_prefix_byte_count_def)
  next
    case False
    with that have "p < n" by simp
    then have "Suc p * bs \<le> n * bs" by (intro mult_le_mono1) simp
    then have "4 + p * bs + bs \<le> 4 + n * bs" by simp
    then have "slice (blit ?r (4 + n * bs) ?new) (4 + p * bs) bs = slice ?r (4 + p * bs) bs"
      using slice_blit_disjoint [OF fits, of "4 + p * bs" bs] fits len by simp
    then show ?thesis using IH(4) \<open>p < n\<close> by (simp add: panel_block_def stream_frame_prefix_byte_count_def)
  qed
  have t: "take 4 (blit ?r (4 + n * bs) ?new) = take 4 buf"
    using IH(2) fits by (simp add: blit_def min_def)
  have "drop (4 + Suc n * bs) (blit ?r (4 + n * bs) ?new) = drop bs (drop (4 + n * bs) ?r)"
    using fits len by (simp add: blit_def min_def add.commute add.left_commute)
  also have "\<dots> = drop (4 + Suc n * bs) buf" by (simp only: IH(3)) (simp add: ac_simps)
  finally have d: "drop (4 + Suc n * bs) (blit ?r (4 + n * bs) ?new) = drop (4 + Suc n * bs) buf" .
  show ?case unfolding step using blocks t d fits IH(1) by simp
qed

lemma length_set_mode [simp]: "length (set_mode m block) = length block"
  by (simp add: set_mode_def)

lemma length_set_duty [simp]: "length (set_duty m block) = length block"
  by (simp add: set_duty_def)

lemma mask_FC_low: "(x AND 0xFC) AND 3 = (0 :: byte)"
  by (rule bit_word_eqI) (auto simp: bit_simps)

lemma set_mode_block:
  assumes "2 \<le> length block" "m < 4"
  shows "validate_parity (set_mode m block) \<and> set_mode m block ! 1 AND 0xFC = block ! 1 AND 0xFC
       \<and> set_mode m block ! 1 AND 3 = m \<and> drop 2 (set_mode m block) = drop 2 block
       \<and> set_mode m block ! 0 AND 0x7F = block ! 0 AND 0x7F"
proof -
  let ?op = "disp_opcode_with_mode (block ! 1 AND 0xFC) m"
  obtain h c p where b: "block = h # c # p"
    using assms(1) by (metis Suc_le_length_iff numeral_2_eq_2)
  have "?op AND 0xFC = block ! 1 AND 0xFC \<and> ?op AND 3 = (if m < 4 then m else 1)"
    using opcode_family_and_mode [OF mask_FC_low] .
  then show ?thesis using assms(2)
    by (simp add: set_mode_def b validate_stamp_iff stamp_low_bits stamp_payload)
qed

lemma set_duty_block:
  assumes "3 \<le> length block"
  shows "validate_parity (set_duty d block) \<and> last (set_duty d block) = d
       \<and> butlast (drop 1 (set_duty d block)) = butlast (drop 1 block)
       \<and> set_duty d block ! 0 AND 0x7F = block ! 0 AND 0x7F"
proof -
  obtain h c p where b: "block = h # c # p"
    using assms by (metis Suc_le_length_iff numeral_3_eq_3 Suc_leD)
  have p: "p \<noteq> []" using assms b by auto
  then have u: "block[length block - 1 := d] = h # c # p[length p - 1 := d]"
    by (cases "length p") (simp_all add: b)
  have bl: "butlast (p[length p - 1 := d]) = butlast p" "last (p[length p - 1 := d]) = d"
    using p by (simp_all add: butlast_list_update last_list_update)
  have ne: "p[length p - 1 := d] \<noteq> []" using p by simp
  have t: "drop 1 (stamp_header_parity (h # c # q)) = c # q" for q by (simp add: stamp_Cons2)
  have l: "last (stamp_header_parity (h # c # q)) = last q" if "q \<noteq> []" for q
    using that by (simp add: stamp_Cons2)
  show ?thesis
    unfolding set_duty_def u t l [OF ne] validate_stamp_iff stamp_low_bits using p ne bl by (simp add: b)
qed

lemma low2: "m < 4 \<Longrightarrow> take_bit 2 m = (m :: byte)"
  by (simp add: word_unat_eq_iff unsigned_take_bit_eq take_bit_nat_eq_self_iff word_less_nat_alt)

section \<open>Properties\<close>

lemma cap_fits:
  "4 + panel_count_per_frame b * 203 \<le> frame_buf_byte_count_max b"
  "4 + panel_count_per_frame b * 53 \<le> frame_buf_byte_count_max b"
  "4 + panel_count_per_frame b * 4 \<le> frame_buf_byte_count_max b"
  "4 + panel_count_per_frame b * 203 < 65536"
  using panel_count_bounds [of b]
  by (simp_all add: frame_buf_byte_count_max_def stream_frame_byte_count_gs16_def stream_frame_prefix_byte_count_def
      panel_block_byte_count_gs16_def)

lemma invalidate_simps [simp]:
  "frame_buf (invalidateFrameBuf E s) = frame_buf s" "panel_disp_mode (invalidateFrameBuf E s) = panel_disp_mode s"
  by (simp_all add: invalidateFrameBuf_def)

lemma dark_image:
  assumes "length buf = frame_buf_byte_count_max b"
  defines "img \<equiv> frame_image (length buf) [0x46, 0x52] (panel_count_per_frame b) 53 dark_block"
  shows "length img = frame_buf_byte_count_max b \<and> (\<forall>p<panel_count_per_frame b. panel_block img 53 p = dark_block)"
  using frame_image_blocks [OF length_dark_block, of "panel_count_per_frame b" "length buf" "[0x46, 0x52]"]
    cap_fits [of b] assms(1) by (simp add: img_def)

text \<open>C19: every synthesised frame is one whole stream frame of this arena, valid for every panel: the
  dark frame blanks (GS2, always Persistent, all pixels and the duty 0), the all-on frame lights
  every pixel with the opcode of the display mode, and the PSRAM frame is the same 4-byte
  parity-valid index block for each panel.\<close>

lemma synthesised_frames_valid:
  assumes "length (frame_buf s) = frame_buf_byte_count_max (board E)" "p < panel_count_per_frame (board E)"
  shows "(let s' = fillFrameBufferDark E s; x = panel_block (frame_buf s') 53 p in
            blk s' = 53 \<and> frame_byte_count s' = stream_frame_byte_count_gs2 (board E)
            \<and> validate_parity x \<and> x ! 0 AND 0x7F = 1 \<and> x ! 1 = 0x11 \<and> drop 2 x = replicate 51 0)
       \<and> (let s' = fillFrameBufferAllOn E 203 s; x = panel_block (frame_buf s') 203 p in
            frame_byte_count s' = stream_frame_byte_count_gs16 (board E)
            \<and> validate_parity x \<and> x ! 0 AND 0x7F = 1 \<and> x ! 1 = dispOpcodeFor (panel_disp_mode s) True
            \<and> drop 2 x = replicate 201 0xFF)
       \<and> (let s' = buildPsramFrame E i s; x = panel_block (frame_buf s') 4 p in
            blk s' = 4 \<and> validate_parity x \<and> x ! 0 AND 0x7F = 2
            \<and> x ! 1 = disp_opcode_with_mode 0x50 (panel_disp_mode s) \<and> get16 (x ! 2) (x ! 3) = i)"
proof (intro conjI)
  let ?b = "board E"
  note img = frame_image_blocks [of _ _ "panel_count_per_frame ?b" "frame_buf_byte_count_max ?b"]
  note fit = cap_fits [of ?b]
  show "let s' = fillFrameBufferDark E s; x = panel_block (frame_buf s') 53 p in
            blk s' = 53 \<and> frame_byte_count s' = stream_frame_byte_count_gs2 ?b
            \<and> validate_parity x \<and> x ! 0 AND 0x7F = 1 \<and> x ! 1 = 0x11 \<and> drop 2 x = replicate 51 0"
    using img [OF length_dark_block fit(2), of "[0x46, 0x52]"] assms dark_block_blank fit
    by (simp add: fillFrameBufferDark_def Let_def block_byte_count_gs2_def stream_frame_byte_count_gs2_def
        stream_frame_prefix_byte_count_def panel_block_byte_count_gs2_def cmd_disp_2lvl_persist_def)
  have on: "validate_parity (all_on_block m 203) \<and> all_on_block m 203 ! 0 AND 0x7F = 1
      \<and> all_on_block m 203 ! 1 = dispOpcodeFor m True \<and> drop 2 (all_on_block m 203) = replicate 201 0xFF" for m
    by (simp add: all_on_block_def validate_stamp_iff stamp_low_bits stamp_payload panel_consts)
  show "let s' = fillFrameBufferAllOn E 203 s; x = panel_block (frame_buf s') 203 p in
            frame_byte_count s' = stream_frame_byte_count_gs16 ?b
            \<and> validate_parity x \<and> x ! 0 AND 0x7F = 1 \<and> x ! 1 = dispOpcodeFor (panel_disp_mode s) True
            \<and> drop 2 x = replicate 201 0xFF"
    using img [of "all_on_block (panel_disp_mode s) 203" 203 "[0x46, 0x52, 0, 0]"] assms on fit
    by (simp add: fillFrameBufferAllOn_def Let_def stream_frame_byte_count_gs16_def
        stream_frame_prefix_byte_count_def panel_block_byte_count_gs16_def)
  let ?op = "disp_opcode_with_mode 0x50 (panel_disp_mode s)"
  have op: "?op AND 0xF0 \<noteq> 0x60"
  proof
    assume "?op AND 0xF0 = 0x60"
    then have "bit (?op AND 0xF0) 5" by simp
    then have "bit (if panel_disp_mode s < 4 then panel_disp_mode s else 1) 5"
      by (simp add: disp_opcode_with_mode_def bit_simps)
    then have "bit (panel_disp_mode s) 5" "panel_disp_mode s < 4" by (auto split: if_splits)
    then have "bit (take_bit 2 (panel_disp_mode s)) 5" by (simp only: low2)
    then show False by (simp add: bit_take_bit_iff)
  qed
  have blk: "validate_parity (psram_block i ?op) \<and> psram_block i ?op ! 0 AND 0x7F = 2 \<and> psram_block i ?op ! 1 = ?op
      \<and> get16 (psram_block i ?op ! 2) (psram_block i ?op ! 3) = i"
    using psram_decodes [of "replicate 5 0" i ?op 0] op
    by (auto simp: psram_block_def Let_def split: prod.splits)
  show "let s' = buildPsramFrame E i s; x = panel_block (frame_buf s') 4 p in
            blk s' = 4 \<and> validate_parity x \<and> x ! 0 AND 0x7F = 2
            \<and> x ! 1 = ?op \<and> get16 (x ! 2) (x ! 3) = i"
    using img [OF length_psram_block fit(3), of "0x46 # 0x52 # put16 i" i ?op] assms blk
    by (simp add: buildPsramFrame_def Let_def block_byte_count_psram_def cmd_disp_psram_oneshot_def)
qed

lemma synthesised_frames_valid_witness:
  "let buf = frame_image 4064 [0x46, 0x52] 20 53 dark_block
   in validate_parity (panel_block buf 53 19) \<and> drop 2 (panel_block buf 53 19) = replicate 51 0"
proof -
  define E :: "(unit, unit, unit) env" where "E = undefined\<lparr>board := ARENA_HW_2_10\<rparr>"
  define s :: "(unit, unit, unit) cp" where "s = undefined\<lparr>frame_buf := replicate 4064 0\<rparr>"
  have b: "board E = ARENA_HW_2_10" by (simp add: E_def)
  have n: "panel_count_per_frame ARENA_HW_2_10 = 20" "frame_buf_byte_count_max ARENA_HW_2_10 = 4064"
    by (simp_all add: panel_count_per_frame_def frame_buf_byte_count_max_def stream_frame_byte_count_gs16_def
        stream_frame_prefix_byte_count_def panel_block_byte_count_gs16_def)
  have "length (frame_buf s) = frame_buf_byte_count_max (board E)" "19 < panel_count_per_frame (board E)"
    by (simp_all add: b n s_def)
  from conjunct1 [OF synthesised_frames_valid [OF this, of 0]] show ?thesis
    by (simp add: fillFrameBufferDark_def Let_def b n s_def block_byte_count_gs2_def)
qed

text \<open>C20: patching a loaded frame for the live display mode and the trial's duty rewrites, in every
  panel block, the mode bits of the opcode, the duty byte when the trial declares one, and
  the parity; the opcode family, the version, every pixel and everything outside the blocks stay
  what the card delivered.\<close>

lemma loaded_frame_patched:
  assumes "blk s = 53 \<or> blk s = 203" "frame_byte_count s = 4 + n * blk s" "frame_byte_count s \<le> length (frame_buf s)"
    and "panel_disp_mode s < 4" "p < n"
  shows "let s' = patchTrialDuty (patchDispMode s); x = panel_block (frame_buf s) (blk s) p;
             y = panel_block (frame_buf s') (blk s) p
         in validate_parity y \<and> y ! 0 AND 0x7F = x ! 0 AND 0x7F
          \<and> y ! 1 AND 0xFC = x ! 1 AND 0xFC \<and> y ! 1 AND 3 = panel_disp_mode s
          \<and> butlast (drop 2 y) = butlast (drop 2 x)
          \<and> last y = (if trial_duty s = 0 then last x else trial_duty s)
          \<and> take 4 (frame_buf s') = take 4 (frame_buf s)
          \<and> drop (frame_byte_count s) (frame_buf s') = drop (frame_byte_count s) (frame_buf s)
          \<and> s' = s\<lparr>frame_buf := frame_buf s'\<rparr>"
proof -
  let ?f = "set_mode (panel_disp_mode s)" and ?g = "set_duty (trial_duty s)"
  let ?b1 = "patch_blocks ?f (blk s) n (frame_buf s)"
  have k: "(frame_byte_count s - stream_frame_prefix_byte_count) div blk s = n" "blk s \<noteq> 0"
      "\<not> frame_byte_count s \<le> stream_frame_prefix_byte_count"
    using assms by (auto simp: stream_frame_prefix_byte_count_def)
  have m: "patchDispMode s = s\<lparr>frame_buf := ?b1\<rparr>"
    using k by (simp add: patchDispMode_def)
  have d: "patchTrialDuty (s\<lparr>frame_buf := ?b1\<rparr>)
      = s\<lparr>frame_buf := (if trial_duty s = 0 then ?b1 else patch_blocks ?g (blk s) n ?b1)\<rparr>"
    using k assms(1) by (auto simp: patchTrialDuty_def block_byte_count_gs2_def block_byte_count_gs16_def)
  have fit: "4 + n * blk s \<le> length (frame_buf s)" using assms(2,3) by simp
  note P = patch_blocks_spec [of ?f, OF length_set_mode fit]
  have fit1: "4 + n * blk s \<le> length ?b1" using P fit by simp
  note Q = patch_blocks_spec [of ?g, OF length_set_duty fit1]
  let ?x = "panel_block (frame_buf s) (blk s) p"
  have "Suc p * blk s \<le> n * blk s" using assms(5) by (intro mult_le_mono1) simp
  then have lx: "length ?x = blk s"
    using fit by (simp add: panel_block_def stream_frame_prefix_byte_count_def)
  then have l: "2 \<le> length ?x" "3 \<le> length (?f ?x)" using assms(1) by auto
  note M = set_mode_block [OF l(1) assms(4)]
  note D = set_duty_block [OF l(2), of "trial_duty s"]
  have pay: "drop 2 y = drop 1 (drop 1 y)" for y :: "byte list" by (simp add: numeral_2_eq_2 drop_Suc)
  have lastx: "last (?f ?x) = last ?x"
  proof -
    have "last (?f ?x) = last (drop 2 (?f ?x))" using l(2) by (simp add: last_drop)
    also have "\<dots> = last (drop 2 ?x)" using M by simp
    also have "\<dots> = last ?x" using l(2) by (simp add: last_drop)
    finally show ?thesis .
  qed
  have op: "?g (?f ?x) ! 1 = ?f ?x ! 1"
    using l(2) by (simp add: set_duty_def)
  have bl: "butlast (drop 2 (?g (?f ?x))) = butlast (drop 2 ?x)"
  proof -
    have "butlast (drop 2 (?g (?f ?x))) = drop 1 (butlast (drop 1 (?g (?f ?x))))" by (simp only: pay drop_butlast)
    also have "\<dots> = drop 1 (butlast (drop 1 (?f ?x)))" using D by simp
    also have "\<dots> = butlast (drop 2 (?f ?x))" by (simp only: pay drop_butlast)
    also have "\<dots> = butlast (drop 2 ?x)" using M by simp
    finally show ?thesis .
  qed
  have p1: "panel_block ?b1 (blk s) p = ?f ?x" using P assms(5) by blast
  have p2: "panel_block (patch_blocks ?g (blk s) n ?b1) (blk s) p = ?g (?f ?x)" using Q p1 assms(5) by metis
  have o1: "take 4 ?b1 = take 4 (frame_buf s)" "drop (4 + n * blk s) ?b1 = drop (4 + n * blk s) (frame_buf s)"
    using P by blast+
  have o2: "take 4 (patch_blocks ?g (blk s) n ?b1) = take 4 (frame_buf s)"
      "drop (4 + n * blk s) (patch_blocks ?g (blk s) n ?b1) = drop (4 + n * blk s) (frame_buf s)"
    using Q o1 by simp_all
  show ?thesis
  proof (cases "trial_duty s = 0")
    case True
    have eq: "patchTrialDuty (patchDispMode s) = s\<lparr>frame_buf := ?b1\<rparr>" using m d True by simp
    show ?thesis unfolding eq Let_def using M True lastx by (simp add: p1 o1 assms(2))
  next
    case False
    have eq: "patchTrialDuty (patchDispMode s) = s\<lparr>frame_buf := patch_blocks ?g (blk s) n ?b1\<rparr>"
      using m d False by simp
    show ?thesis unfolding eq Let_def using M D False bl op by (simp add: p2 o2 assms(2))
  qed
qed

lemma loaded_frame_patched_witness:
  "let s = (undefined :: (unit, unit, unit) cp)\<lparr>blk := 53, frame_byte_count := 57, frame_buf := replicate 57 0x30,
             panel_disp_mode := 2, trial_duty := 9\<rparr>;
       y = panel_block (frame_buf (patchTrialDuty (patchDispMode s))) 53 0
   in validate_parity y \<and> y ! 1 AND 3 = 2 \<and> last y = 9"
proof -
  define s :: "(unit, unit, unit) cp" where
    "s = undefined\<lparr>blk := 53, frame_byte_count := 57, frame_buf := replicate 57 0x30, panel_disp_mode := 2, trial_duty := 9\<rparr>"
  have "blk s = 53 \<or> blk s = 203" "frame_byte_count s = 4 + 1 * blk s" "frame_byte_count s \<le> length (frame_buf s)"
      "panel_disp_mode s < 4" "(0 :: nat) < 1"
    by (simp_all add: s_def)
  from loaded_frame_patched [OF this] show ?thesis unfolding s_def [symmetric] by (simp add: Let_def) (simp add: s_def)
qed

end
