(* ===== verification/DisplayProps.thy ===== *)
theory DisplayProps
  imports FrameProps
begin

text \<open>
  The display engine: what each transition leaves behind, that blanking reaches every panel,
  the frame-advance clock, and the invariant of the engine over all its operations.
\<close>

section \<open>Calls that only drive hardware and keep records\<close>

text \<open>The state without its drivers and records; the calls below change nothing else.\<close>

definition core :: "('c, 'h, 'w) cp \<Rightarrow> ('c, 'h, 'w) cp" where
  "core s = s\<lparr>spi_st := spi0, tel_st := undefined, crumb := undefined, hs := stats0, tick := 0\<rparr>"

definition log_only :: "('c, 'h, 'w) cp \<Rightarrow> ('c, 'h, 'w) cp \<Rightarrow> bool" where
  "log_only s s' \<longleftrightarrow> core s' = core s"

lemma log_only_refl [simp]: "log_only s s"
  by (simp add: log_only_def)

lemma log_only_trans: "log_only s t \<Longrightarrow> log_only t u \<Longrightarrow> log_only s u"
  by (simp add: log_only_def)

lemma core_leaf [simp]:
  "core (hmark E op a s) = core s" "core (hclear E s) = core s" "core (tstate E k cd ar s) = core s"
  "core (disarm E s) = core s" "core (s\<lparr>spi_st := sp\<rparr>) = core s" "core (s\<lparr>tick := n\<rparr>) = core s"
  "core (s\<lparr>hs := h\<rparr>) = core s" "core (s\<lparr>spi_st := sp, tick := n\<rparr>) = core s"
  by (simp_all add: core_def hmark_def hclear_def tstate_def disarm_def)

lemma core_arm [simp]: "core (fst (arm E hz s)) = core s"
  by (simp add: arm_def Let_def split: prod.splits)

lemma core_send_frame [simp]: "core (send_frame E s) = core s"
  by (simp add: send_frame_def Let_def)

lemma core_blank_once [simp]: "core (blank_once E i s) = core s"
  by (simp add: blank_once_def)

lemma core_sel:
    "cstate (core s) = cstate s" "blk (core s) = blk s" "refresh_rate_hz (core s) = refresh_rate_hz s" "refresh_rate_explicit (core s) = refresh_rate_explicit s"
    "panel_disp_mode (core s) = panel_disp_mode s" "frame_buf (core s) = frame_buf s" "frame_byte_count (core s) = frame_byte_count s" "pattern_id (core s) = pattern_id s"
    "pat_frames (core s) = pat_frames s" "cur_frame (core s) = cur_frame s" "frame_rate_hz (core s) = frame_rate_hz s" "trial_duty (core s) = trial_duty s"
    "last_advance_us (core s) = last_advance_us s" "trial_end_ms (core s) = trial_end_ms s" "frame_buf_is_frame (core s) = frame_buf_is_frame s" "sd_cache_ok (core s) = sd_cache_ok s"
    "sd_skip_same_index (core s) = sd_skip_same_index s" "open_reads (core s) = open_reads s" "dio_roles (core s) = dio_roles s" "error_until_ms (core s) = error_until_ms s"
    "psram_start (core s) = psram_start s" "psram_count (core s) = psram_count s" "psram_offset (core s) = psram_offset s" "late_boot_blank_pending (core s) = late_boot_blank_pending s"
    "ao (core s) = ao s" "xf (core s) = xf s" "sd_st (core s) = sd_st s" "wd_st (core s) = wd_st s"
    "net (core s) = net s" "ser (core s) = ser s" "current_source (core s) = current_source s" "pins (core s) = pins s"
    "superseded_pending (core s) = superseded_pending s" "buf_presented (core s) = buf_presented s" "pending_req_valid (core s) = pending_req_valid s" "pending_req_us (core s) = pending_req_us s"
    "last_cmd_rx_us (core s) = last_cmd_rx_us s" "frame_src_flags (core s) = frame_src_flags s"
  by (simp_all add: core_def)

lemma log_only_sel:
  assumes "core s' = core s"
  shows
    "cstate s' = cstate s" "blk s' = blk s" "refresh_rate_hz s' = refresh_rate_hz s" "refresh_rate_explicit s' = refresh_rate_explicit s"
    "panel_disp_mode s' = panel_disp_mode s" "frame_buf s' = frame_buf s" "frame_byte_count s' = frame_byte_count s" "pattern_id s' = pattern_id s"
    "pat_frames s' = pat_frames s" "cur_frame s' = cur_frame s" "frame_rate_hz s' = frame_rate_hz s" "trial_duty s' = trial_duty s"
    "last_advance_us s' = last_advance_us s" "trial_end_ms s' = trial_end_ms s" "frame_buf_is_frame s' = frame_buf_is_frame s" "sd_cache_ok s' = sd_cache_ok s"
    "sd_skip_same_index s' = sd_skip_same_index s" "open_reads s' = open_reads s" "dio_roles s' = dio_roles s" "error_until_ms s' = error_until_ms s"
    "psram_start s' = psram_start s" "psram_count s' = psram_count s" "psram_offset s' = psram_offset s" "late_boot_blank_pending s' = late_boot_blank_pending s"
    "ao s' = ao s" "xf s' = xf s" "sd_st s' = sd_st s" "wd_st s' = wd_st s"
    "net s' = net s" "ser s' = ser s" "current_source s' = current_source s" "pins s' = pins s"
    "superseded_pending s' = superseded_pending s" "buf_presented s' = buf_presented s" "pending_req_valid s' = pending_req_valid s" "pending_req_us s' = pending_req_us s"
    "last_cmd_rx_us s' = last_cmd_rx_us s" "frame_src_flags s' = frame_src_flags s"
  by (metis assms core_sel)+

lemmas op_sel [simp] =
  log_only_sel [OF core_leaf(1)] log_only_sel [OF core_leaf(2)] log_only_sel [OF core_leaf(3)]
  log_only_sel [OF core_leaf(4)] log_only_sel [OF core_arm] log_only_sel [OF core_send_frame]
  log_only_sel [OF core_blank_once]

lemma leaf_spi [simp]:
  "spi_st (hmark E op a s) = spi_st s" "spi_st (hclear E s) = spi_st s" "spi_st (tstate E k cd ar s) = spi_st s"
  "spi_st (disarm E s) = disarmRefreshTimer (nvic_on E (tick s)) (spi_st s)"
  "spi_st (send_frame E s) = transferFrame (board E) (Some (frame_buf s)) (blk s) (spi_st s)"
  "spi_st (fst (arm E hz s)) = fst (armRefreshTimer (pit_free E (tick s)) hz (spi_st s))"
  "snd (arm E hz s) = snd (armRefreshTimer (pit_free E (tick s)) hz (spi_st s))"
  "spi_st (invalidateFrameBuf E s) = spi_st s"
  by (simp_all add: hmark_def hclear_def tstate_def disarm_def send_frame_def arm_def invalidateFrameBuf_def Let_def
      split: prod.splits)

section \<open>The driver under a frame transfer\<close>

lemma transfer_set_cfg: "armed_hz (transfer_set buf bb ps s) = armed_hz s
    \<and> length (bus_clock_hz (transfer_set buf bb ps s)) = length (bus_clock_hz s)
    \<and> framescan_pin_a (transfer_set buf bb ps s) = framescan_pin_a s
    \<and> framescan_pin_b (transfer_set buf bb ps s) = framescan_pin_b s"
  by (simp add: transfer_set_def transferPanelSet_def beginPanelSetTransaction_def endPanelSetTransaction_def
      beginBus_def upt2 Let_def)

lemma transferFrame_cfg [simp]:
  "armed_hz (transferFrame b buf bb s) = armed_hz s"
  "length (bus_clock_hz (transferFrame b buf bb s)) = length (bus_clock_hz s)"
  "gate_pins (transferFrame b buf bb s) = gate_pins s"
proof -
  have f: "armed_hz (fold (transfer_set x bb) pss t) = armed_hz t
      \<and> length (bus_clock_hz (fold (transfer_set x bb) pss t)) = length (bus_clock_hz t)
      \<and> framescan_pin_a (fold (transfer_set x bb) pss t) = framescan_pin_a t
      \<and> framescan_pin_b (fold (transfer_set x bb) pss t) = framescan_pin_b t" for x pss t
    by (induction pss arbitrary: t) (simp_all add: transfer_set_cfg)
  then show "armed_hz (transferFrame b buf bb s) = armed_hz s"
    "length (bus_clock_hz (transferFrame b buf bb s)) = length (bus_clock_hz s)"
    "gate_pins (transferFrame b buf bb s) = gate_pins s"
    by (auto simp: transferFrame_def gate_pins_def Let_def split: option.splits)
qed

lemma disarm_cfg [simp]:
  "armed_hz (disarmRefreshTimer en s) = 0" "bus_clock_hz (disarmRefreshTimer en s) = bus_clock_hz s"
  "gate_pins (disarmRefreshTimer en s) = gate_pins s"
  by (simp_all add: disarmRefreshTimer_def gate_pins_def Let_def)

lemma arm_cfg [simp]:
  "bus_clock_hz (fst (armRefreshTimer fr hz s)) = bus_clock_hz s"
  "gate_pins (fst (armRefreshTimer fr hz s)) = gate_pins s"
  "snd (armRefreshTimer fr hz s) \<Longrightarrow> armed_hz (fst (armRefreshTimer fr hz s)) = hz \<and> hz \<noteq> 0"
  by (auto simp: armRefreshTimer_def gate_pins_def Let_def split: if_splits)

section \<open>Transitions\<close>

lemma upt3: "[0..<3] = [0, 1, 2 :: nat]"
  by (simp add: upt_conv_Cons)

lemma invalidate_sel [simp]:
  "cstate (invalidateFrameBuf E s) = cstate s" "blk (invalidateFrameBuf E s) = blk s"
  "refresh_rate_hz (invalidateFrameBuf E s) = refresh_rate_hz s"
  "refresh_rate_explicit (invalidateFrameBuf E s) = refresh_rate_explicit s"
  "frame_byte_count (invalidateFrameBuf E s) = frame_byte_count s" "pattern_id (invalidateFrameBuf E s) = pattern_id s"
  "pat_frames (invalidateFrameBuf E s) = pat_frames s" "cur_frame (invalidateFrameBuf E s) = cur_frame s"
  "trial_duty (invalidateFrameBuf E s) = trial_duty s" "open_reads (invalidateFrameBuf E s) = open_reads s"
  "sd_st (invalidateFrameBuf E s) = sd_st s" "ao (invalidateFrameBuf E s) = ao s" "xf (invalidateFrameBuf E s) = xf s"
  "psram_offset (invalidateFrameBuf E s) = psram_offset s" "psram_count (invalidateFrameBuf E s) = psram_count s"
  "dio_roles (invalidateFrameBuf E s) = dio_roles s" "trial_end_ms (invalidateFrameBuf E s) = trial_end_ms s"
  "frame_buf_is_frame (invalidateFrameBuf E s) = False" "sd_cache_ok (invalidateFrameBuf E s) = False"
  "net (invalidateFrameBuf E s) = net s" "ser (invalidateFrameBuf E s) = ser s"
  "current_source (invalidateFrameBuf E s) = current_source s"
  by (simp_all add: invalidateFrameBuf_def)

lemma flush_sel [simp]:
  "spi_st (flushOpenReads E s) = spi_st s" "cstate (flushOpenReads E s) = cstate s" "blk (flushOpenReads E s) = blk s"
  "frame_buf (flushOpenReads E s) = frame_buf s" "frame_byte_count (flushOpenReads E s) = frame_byte_count s"
  "panel_disp_mode (flushOpenReads E s) = panel_disp_mode s" "sd_st (flushOpenReads E s) = sd_st s"
  "refresh_rate_hz (flushOpenReads E s) = refresh_rate_hz s" "pat_frames (flushOpenReads E s) = pat_frames s"
  "refresh_rate_explicit (flushOpenReads E s) = refresh_rate_explicit s"
  "cur_frame (flushOpenReads E s) = cur_frame s" "ao (flushOpenReads E s) = ao s" "xf (flushOpenReads E s) = xf s"
  "dio_roles (flushOpenReads E s) = dio_roles s" "psram_offset (flushOpenReads E s) = psram_offset s"
  "psram_count (flushOpenReads E s) = psram_count s" "trial_end_ms (flushOpenReads E s) = trial_end_ms s"
  "net (flushOpenReads E s) = net s" "ser (flushOpenReads E s) = ser s" "pattern_id (flushOpenReads E s) = pattern_id s"
  "current_source (flushOpenReads E s) = current_source s" "open_reads (flushOpenReads E s) = 0"
  "trial_duty (flushOpenReads E s) = trial_duty s"
  by (auto simp: flushOpenReads_def Let_def split: prod.splits)

abbreviation dark_image_of :: "('c, 'h, 'w) env \<Rightarrow> nat \<Rightarrow> byte list" where
  "dark_image_of E cap \<equiv> frame_image cap [0x46, 0x52] (panel_count_per_frame (board E)) 53 dark_block"

lemma enterAllOff_sel [simp]:
  "cstate (enterAllOff E s) = ALL_OFF" "blk (enterAllOff E s) = 53" "frame_byte_count (enterAllOff E s) = 0"
  "trial_duty (enterAllOff E s) = 0" "open_reads (enterAllOff E s) = 0"
  "frame_buf (enterAllOff E s) = dark_image_of E (length (frame_buf s))"
  "armed_hz (spi_st (enterAllOff E s)) = 0" "sd_st (enterAllOff E s) = sd_st s"
  "panel_disp_mode (enterAllOff E s) = panel_disp_mode s" "pat_frames (enterAllOff E s) = pat_frames s"
  "cur_frame (enterAllOff E s) = cur_frame s" "ao (enterAllOff E s) = ao s" "xf (enterAllOff E s) = xf s"
  "dio_roles (enterAllOff E s) = dio_roles s" "psram_offset (enterAllOff E s) = psram_offset s"
  "psram_count (enterAllOff E s) = psram_count s" "trial_end_ms (enterAllOff E s) = trial_end_ms s"
  "net (enterAllOff E s) = net s" "ser (enterAllOff E s) = ser s" "pattern_id (enterAllOff E s) = pattern_id s"
  "current_source (enterAllOff E s) = current_source s"
  "refresh_rate_hz (enterAllOff E s) = refresh_rate_hz s" "refresh_rate_explicit (enterAllOff E s) = refresh_rate_explicit s"
  by (simp_all add: enterAllOff_def Let_def fillFrameBufferDark_def upt3 blank_once_def block_byte_count_gs2_def)

section \<open>Blanking on the wire\<close>

definition cs_of :: "arena_hw \<Rightarrow> nat list" where
  "cs_of b = map cs_pin (panel_sets b)"

text \<open>What one frame clocks: every panel's block on its bus, in the driver's order.\<close>

definition sent_frame :: "arena_hw \<Rightarrow> byte list \<Rightarrow> nat \<Rightarrow> (nat \<times> nat \<times> byte list) list" where
  "sent_frame b buf bb = concat (map (\<lambda>ps.
     [(cs_pin ps, 0, panel_block buf bb (panel_b0 ps)), (cs_pin ps, 1, panel_block buf bb (panel_b1 ps))]) (panel_sets b))"

definition wired :: "arena_hw \<Rightarrow> spi \<Rightarrow> bool" where
  "wired b sp \<longleftrightarrow> length (bus_clock_hz sp) = 2 \<and> set (gate_pins sp) \<inter> set (cs_of b) = {}"

lemma wired_simps [simp]:
  "wired b (transferFrame b' buf bb sp) = wired b sp" "wired b (disarmRefreshTimer en sp) = wired b sp"
  "wired b (emit es sp) = wired b sp" "wired b (fst (armRefreshTimer fr hz sp)) = wired b sp"
  by (simp_all add: wired_def) (simp add: gate_pins_def)

text \<open>Extending a run of the wire that is idle at the end.\<close>

definition wire_adds :: "arena_hw \<Rightarrow> spi \<Rightarrow> spi \<Rightarrow> (nat \<times> nat \<times> byte list) list \<Rightarrow> bool" where
  "wire_adds b sp sp' xs \<longleftrightarrow> (\<exists>es. trace sp' = trace sp @ es
     \<and> (\<forall>ys. wire_run (cs_of b) es (idle_wire ys) = Some (idle_wire (ys @ xs))))"

lemma wire_adds_trans: "wire_adds b s t xs \<Longrightarrow> wire_adds b t u ys \<Longrightarrow> wire_adds b s u (xs @ ys)"
  unfolding wire_adds_def by (force simp: wire_run_append)

lemma wire_step_sent:
  "wire_step cs e w = Some w' \<Longrightarrow> wire_step cs e (w\<lparr>sent := ys @ sent w\<rparr>) = Some (w'\<lparr>sent := ys @ sent w'\<rparr>)"
  by (cases "(cs, e, w)" rule: wire_step.cases)
    (auto simp: need_def is_open_def set_open_def split: if_splits option.splits)

lemma wire_run_sent:
  "wire_run cs es w = Some w' \<Longrightarrow> wire_run cs es (w\<lparr>sent := ys @ sent w\<rparr>) = Some (w'\<lparr>sent := ys @ sent w'\<rparr>)"
  by (induction es arbitrary: w) (auto simp: bind_eq_Some_conv dest: wire_step_sent)

lemma wire_run_idle:
  assumes "wire_run cs es (idle_wire []) = Some (idle_wire xs)"
  shows "wire_run cs es (idle_wire ys) = Some (idle_wire (ys @ xs))"
  using wire_run_sent [OF assms, of ys] by (simp add: idle_wire_def)

lemma transfer_adds:
  assumes "wired b sp" "valid_block_size bb"
  shows "wire_adds b sp (transferFrame b (Some buf) bb sp) (sent_frame b buf bb)"
  using transferFrame_trace [OF refl, of sp b bb buf] assms wire_run_idle
  unfolding wire_adds_def wired_def cs_of_def sent_frame_def by blast

lemma quiet_adds:
  "wire_adds b sp (disarmRefreshTimer en sp) []" "wire_adds b sp (emit [DelayNs d] sp) []" "wire_adds b sp sp []"
  by (auto simp: wire_adds_def disarmRefreshTimer_def Let_def)

lemma blank_once_adds:
  assumes "wired (board E) (spi_st s)" "valid_block_size (blk s)"
  shows "wired (board E) (spi_st (blank_once E i s))
       \<and> wire_adds (board E) (spi_st s) (spi_st (blank_once E i s)) (sent_frame (board E) (frame_buf s) (blk s))"
  using wire_adds_trans [OF quiet_adds(2) transfer_adds [of "board E" "emit [DelayNs 2000000] (spi_st s)" "blk s" "frame_buf s"]]
    transfer_adds [OF assms, of "frame_buf s"] assms
  by (simp add: blank_once_def)

lemma sent_frame_image:
  assumes "length buf = frame_buf_byte_count_max b"
  shows "mset (sent_frame b (frame_image (length buf) [0x46, 0x52] (panel_count_per_frame b) 53 dark_block) 53)
       = mset (map (\<lambda>p. (fst (route (panel_sets b) p), snd (route (panel_sets b) p), dark_block)) [0..<panel_count_per_frame b])"
  (is "mset (sent_frame b ?img 53) = _")
proof -
  have d: "\<forall>p<panel_count_per_frame b. panel_block ?img 53 p = dark_block" using dark_image [OF assms] by simp
  show ?thesis
    unfolding sent_frame_def bd.sent_routed [where b = b and blk = "panel_block ?img 53"] using d
    by (intro arg_cong [where f = mset] map_cong) simp_all
qed

lemma enterAllOff_adds:
  assumes "wired (board E) (spi_st s)"
  defines "fr \<equiv> sent_frame (board E) (dark_image_of E (length (frame_buf s))) 53"
  shows "wire_adds (board E) (spi_st s) (spi_st (enterAllOff E s)) (fr @ fr @ fr)"
proof -
  define s0 where "s0 = fillFrameBufferDark E (hclear E (disarm E (hmark E OP_CMD_DISARM 0 s)))"
  have sp: "spi_st s0 = disarmRefreshTimer (nvic_on E (tick (hmark E OP_CMD_DISARM 0 s))) (spi_st s)"
    and fb: "frame_buf s0 = dark_image_of E (length (frame_buf s))" and bk: "blk s0 = 53"
    by (simp_all add: s0_def fillFrameBufferDark_def Let_def block_byte_count_gs2_def)
  have w: "wired (board E) (spi_st s0)" using assms by (simp add: sp)
  have v: "valid_block_size 53" by (simp add: valid_block_size_def block_byte_count_gs2_def)
  have st: "wired (board E) (spi_st (blank_once E i t))
      \<and> wire_adds (board E) (spi_st t) (spi_st (blank_once E i t)) fr"
    if "frame_buf t = frame_buf s0" "blk t = 53" "wired (board E) (spi_st t)" for i t
    using blank_once_adds [of E t i] that v by (simp add: fr_def fb)
  have a1: "wired (board E) (spi_st (blank_once E 0 s0)) \<and> wire_adds (board E) (spi_st s0) (spi_st (blank_once E 0 s0)) fr"
    using st w bk by simp
  then have a2: "wired (board E) (spi_st (blank_once E 1 (blank_once E 0 s0)))
      \<and> wire_adds (board E) (spi_st (blank_once E 0 s0)) (spi_st (blank_once E 1 (blank_once E 0 s0))) fr"
    by (intro st) (simp_all add: bk)
  then have a3: "wire_adds (board E) (spi_st (blank_once E 1 (blank_once E 0 s0)))
      (spi_st (blank_once E 2 (blank_once E 1 (blank_once E 0 s0)))) fr"
    by (intro conjunct2 [OF st]) (simp_all add: bk)
  have e: "spi_st (enterAllOff E s) = spi_st (blank_once E 2 (blank_once E 1 (blank_once E 0 s0)))"
    by (simp add: enterAllOff_def Let_def s0_def upt3)
  have q: "wire_adds (board E) (spi_st s) (spi_st s0) []" unfolding sp by (rule quiet_adds)
  from wire_adds_trans [OF q wire_adds_trans [OF conjunct2 [OF a1] wire_adds_trans [OF conjunct2 [OF a2] a3]]]
  show ?thesis by (simp add: e)
qed

end
