(* ===== verification/EngineProps.thy ===== *)
theory EngineProps
  imports DisplayProps
begin

text \<open>
  The invariant of the display engine over every command and service call, and the behaviour of
  loading, starting and timing a pattern.
\<close>

section \<open>Loading a frame\<close>

text \<open>What \<open>File::read(buf, n)\<close> promises: never more than \<open>n\<close> bytes.\<close>

definition reads_bounded :: "('c, 'h) sdlib \<Rightarrow> bool" where
  "reads_bounded L \<longleftrightarrow> (\<forall>n h c. length (snd (sd_read L n h c)) \<le> n)"

lemma readFrame_dest:
  assumes "reads_bounded L"
  shows "length (fst (snd (readFrame L i dest s))) = length dest"
proof -
  have b: "length (blit dest 0 (snd (sd_read L n h c))) = length dest" if "n \<le> length dest" for n h c
  proof -
    have "length (snd (sd_read L n h c)) \<le> length dest"
      using assms that unfolding reads_bounded_def by (meson le_trans)
    then show ?thesis by simp
  qed
  show ?thesis
    by (simp add: readFrame_def Let_def case_prod_beta b not_less split: option.splits)
qed

lemma readFrame_ok:
  "snd (snd (readFrame L i dest s)) = CE_NONE \<Longrightarrow>
     file_open s \<and> mounted s \<and> i < frame_count (info s) \<and> file_open (fst (readFrame L i dest s))"
  by (auto simp: readFrame_def Let_def split: prod.splits option.splits if_splits)

lemma readFrame_open [simp]: "file_open (fst (readFrame L i dest s)) = file_open s"
  by (auto simp: readFrame_def Let_def split: prod.splits option.splits)

lemma openPattern_ok:
  "snd (openPattern L b i s) = CE_NONE \<Longrightarrow> file_open (fst (openPattern L b i s))"
  by (auto simp: openPattern_def open_read_header_def Let_def split: option.splits if_splits prod.splits)

lemma error_frame_length:
  assumes "length buf = frame_buf_byte_count_max b"
  shows "length (fst (buildErrorFrame buf code (panel_count_per_frame b))) = length buf"
    "snd (buildErrorFrame buf code (panel_count_per_frame b)) = 4 + panel_count_per_frame b * 203"
proof -
  let ?blk = "error_block (pack_pixels (render_error code))"
  let ?buf = "blit buf 0 [0x46, 0x52, 0, 0]"
  have p: "length (pack_pixels img) = 200" for img
    using pack_pixels_all [of img] by simp
  have l: "length ?blk = 203" by (rule length_error_block) (rule p)
  have "4 + panel_count_per_frame b * 203 \<le> length ?buf" using assms cap_fits [of b] by simp
  from fold_blit_blocks [OF l this] show "length (fst (buildErrorFrame buf code (panel_count_per_frame b))) = length buf"
    using assms cap_fits [of b]
    by (simp add: buildErrorFrame_def Let_def stream_frame_prefix_byte_count_def block_byte_count_gs16_def)
  show "snd (buildErrorFrame buf code (panel_count_per_frame b)) = 4 + panel_count_per_frame b * 203"
    by (simp add: buildErrorFrame_def Let_def stream_frame_prefix_byte_count_def block_byte_count_gs16_def)
qed

section \<open>What each operation leaves alone\<close>

lemma showError_sel [simp]:
  "cstate (showError E code s) = ERROR_DISPLAY" "blk (showError E code s) = 203"
  "sd_st (showError E code s) = sd_st s"
  "panel_disp_mode (showError E code s) = panel_disp_mode s" "pat_frames (showError E code s) = pat_frames s" "cur_frame (showError E code s) = cur_frame s"
  "ao (showError E code s) = ao s" "xf (showError E code s) = xf s" "dio_roles (showError E code s) = dio_roles s"
  "psram_offset (showError E code s) = psram_offset s" "psram_count (showError E code s) = psram_count s" "trial_end_ms (showError E code s) = trial_end_ms s"
  "net (showError E code s) = net s" "ser (showError E code s) = ser s" "pattern_id (showError E code s) = pattern_id s"
  "current_source (showError E code s) = current_source s" "refresh_rate_hz (showError E code s) = refresh_rate_hz s" "refresh_rate_explicit (showError E code s) = refresh_rate_explicit s"
  "trial_duty (showError E code s) = trial_duty s" "frame_rate_hz (showError E code s) = frame_rate_hz s" "last_advance_us (showError E code s) = last_advance_us s"
  by (auto simp: showError_def Let_def invalidateFrameBuf_def block_byte_count_gs16_def split: prod.splits)

lemma showError_frame:
  assumes "length (frame_buf s) = frame_buf_byte_count_max (board E)"
  shows "length (frame_buf (showError E code s)) = frame_buf_byte_count_max (board E)"
    "frame_byte_count (showError E code s) = 4 + panel_count_per_frame (board E) * 203"
  using error_frame_length [OF assms, of "unat code"] assms
  by (auto simp: showError_def Let_def split: prod.splits)

lemma showError_wired [simp]:
  "wired b (spi_st (showError E code s)) = wired b (spi_st s)"
  by (auto simp: showError_def Let_def split: prod.splits)

lemma sd_slow_core [simp]: "core (sd_slow_records E t err s) = core s"
  by (simp add: sd_slow_records_def Let_def split: prod.splits)

lemma sd_slow_spi [simp]: "spi_st (sd_slow_records E t err s) = spi_st s"
  by (simp add: sd_slow_records_def Let_def split: prod.splits)

lemmas sd_slow_sel [simp] = log_only_sel [OF sd_slow_core]

lemma timed_read_core:
  "core (fst (timed_read E i s)) = core (s\<lparr>sd_st := fst (readFrame (lib E) i (frame_buf s) (sd_st s)),
      frame_buf := fst (snd (readFrame (lib E) i (frame_buf s) (sd_st s))), open_reads := open_reads s + 1\<rparr>)"
proof -
  have upd: "core (t\<lparr>sd_st := x, frame_buf := y\<rparr>) = (core t)\<lparr>sd_st := x, frame_buf := y\<rparr>"
    "core (t\<lparr>sd_st := x, frame_buf := y, tick := n\<rparr>) = (core t)\<lparr>sd_st := x, frame_buf := y\<rparr>"
    "core (t\<lparr>hs := h, open_reads := m\<rparr>) = (core t)\<lparr>open_reads := m\<rparr>"
    "core (t\<lparr>sd_st := x, frame_buf := y, open_reads := m\<rparr>) = (core t)\<lparr>sd_st := x, frame_buf := y, open_reads := m\<rparr>"
    for t :: "('a, 'b, 'c) cp" and x y n h m
    by (simp_all add: core_def)
  show ?thesis
    by (simp add: timed_read_def Let_def case_prod_beta upd if_distrib [of core] cong: if_cong)
qed

lemma timed_read_spi [simp]: "spi_st (fst (timed_read E i s)) = spi_st s"
  by (simp add: timed_read_def Let_def case_prod_beta)

lemma timed_read_code [simp]: "snd (timed_read E i s) = snd (snd (readFrame (lib E) i (frame_buf s) (sd_st s)))"
  by (simp add: timed_read_def Let_def case_prod_beta)

lemma timed_read_sel [simp]:
  "cstate (fst (timed_read E i s)) = cstate s" "blk (fst (timed_read E i s)) = blk s"
  "frame_byte_count (fst (timed_read E i s)) = frame_byte_count s"
  "frame_buf (fst (timed_read E i s)) = fst (snd (readFrame (lib E) i (frame_buf s) (sd_st s)))"
  "sd_st (fst (timed_read E i s)) = fst (readFrame (lib E) i (frame_buf s) (sd_st s))"
  "panel_disp_mode (fst (timed_read E i s)) = panel_disp_mode s" "pat_frames (fst (timed_read E i s)) = pat_frames s"
  "cur_frame (fst (timed_read E i s)) = cur_frame s" "ao (fst (timed_read E i s)) = ao s"
  "xf (fst (timed_read E i s)) = xf s" "dio_roles (fst (timed_read E i s)) = dio_roles s"
  "psram_offset (fst (timed_read E i s)) = psram_offset s" "psram_count (fst (timed_read E i s)) = psram_count s"
  "trial_end_ms (fst (timed_read E i s)) = trial_end_ms s" "net (fst (timed_read E i s)) = net s"
  "ser (fst (timed_read E i s)) = ser s" "pattern_id (fst (timed_read E i s)) = pattern_id s"
  "current_source (fst (timed_read E i s)) = current_source s" "refresh_rate_hz (fst (timed_read E i s)) = refresh_rate_hz s"
  "refresh_rate_explicit (fst (timed_read E i s)) = refresh_rate_explicit s" "trial_duty (fst (timed_read E i s)) = trial_duty s"
  "frame_rate_hz (fst (timed_read E i s)) = frame_rate_hz s" "last_advance_us (fst (timed_read E i s)) = last_advance_us s"
  by (simp_all add: log_only_sel [OF timed_read_core])

lemma begin_load_sel [simp]:
  "cstate (begin_load E s) = cstate s" "blk (begin_load E s) = blk s" "spi_st (begin_load E s) = spi_st s"
  "frame_byte_count (begin_load E s) = frame_byte_count s" "frame_buf (begin_load E s) = frame_buf s"
  "sd_st (begin_load E s) = sd_st s"
  "panel_disp_mode (begin_load E s) = panel_disp_mode s" "pat_frames (begin_load E s) = pat_frames s" "cur_frame (begin_load E s) = cur_frame s"
  "ao (begin_load E s) = ao s" "xf (begin_load E s) = xf s" "dio_roles (begin_load E s) = dio_roles s"
  "psram_offset (begin_load E s) = psram_offset s" "psram_count (begin_load E s) = psram_count s" "trial_end_ms (begin_load E s) = trial_end_ms s"
  "net (begin_load E s) = net s" "ser (begin_load E s) = ser s" "pattern_id (begin_load E s) = pattern_id s"
  "current_source (begin_load E s) = current_source s" "refresh_rate_hz (begin_load E s) = refresh_rate_hz s" "refresh_rate_explicit (begin_load E s) = refresh_rate_explicit s"
  "trial_duty (begin_load E s) = trial_duty s" "frame_rate_hz (begin_load E s) = frame_rate_hz s" "last_advance_us (begin_load E s) = last_advance_us s"
  by (simp_all add: begin_load_def)

end
