(* ===== verification/EngineInv.thy ===== *)
theory EngineInv
  imports EngineProps
begin

text \<open>
  The invariant of the display engine: buffer geometry, the open pattern, the index, and the
  refresh timer's silence in ALL_OFF; every command and service call keeps it.
\<close>

section \<open>The invariant\<close>

definition geometry :: "arena_hw \<Rightarrow> ('c, 'h, 'w) cp \<Rightarrow> bool" where
  "geometry b s \<longleftrightarrow> length (frame_buf s) = frame_buf_byte_count_max b \<and> blk s \<in> {53, 203, 4}
     \<and> (frame_byte_count s = 0 \<or> frame_byte_count s = 4 + panel_count_per_frame b * blk s)"

definition playback :: "('c, 'h, 'w) cp \<Rightarrow> bool" where
  "playback s \<longleftrightarrow> cur_frame s < pat_frames s \<or> cur_frame s = 0 \<and> pat_frames s = 0"

definition engine_ok :: "arena_hw \<Rightarrow> ('c, 'h, 'w) cp \<Rightarrow> bool" where
  "engine_ok b s \<longleftrightarrow> geometry b s \<and> playback s \<and> panel_disp_mode s < 4 \<and> fits b (sd_st s) \<and> wired b (spi_st s)
     \<and> (cstate s = ALL_OFF \<longrightarrow> armed_hz (spi_st s) = 0)"

text \<open>The part every step of an operation keeps, without the transmission state; \<open>pre_ok\<close> leaves
  out the byte count, which lags while a new pattern's block size is set.\<close>

definition pre_ok :: "arena_hw \<Rightarrow> ('c, 'h, 'w) cp \<Rightarrow> bool" where
  "pre_ok b s \<longleftrightarrow> length (frame_buf s) = frame_buf_byte_count_max b \<and> blk s \<in> {53, 203, 4}
     \<and> playback s \<and> panel_disp_mode s < 4 \<and> fits b (sd_st s) \<and> wired b (spi_st s)"

definition data_ok :: "arena_hw \<Rightarrow> ('c, 'h, 'w) cp \<Rightarrow> bool" where
  "data_ok b s \<longleftrightarrow> geometry b s \<and> playback s \<and> panel_disp_mode s < 4 \<and> fits b (sd_st s) \<and> wired b (spi_st s)"

lemma data_pre: "data_ok b s \<Longrightarrow> pre_ok b s"
  by (simp add: data_ok_def pre_ok_def geometry_def)

lemma engine_data: "engine_ok b s \<longleftrightarrow> data_ok b s \<and> (cstate s = ALL_OFF \<longrightarrow> armed_hz (spi_st s) = 0)"
  by (auto simp: engine_ok_def data_ok_def)

lemma data_okI [intro?]:
  assumes "data_ok b s" "length (frame_buf s') = length (frame_buf s)" "blk s' = blk s"
    and "frame_byte_count s' = frame_byte_count s" "cur_frame s' = cur_frame s" "pat_frames s' = pat_frames s"
    and "panel_disp_mode s' = panel_disp_mode s" "sd_st s' = sd_st s" "wired b (spi_st s')"
  shows "data_ok b s'"
  using assms by (auto simp: data_ok_def geometry_def playback_def)

lemma data_ok_core: "data_ok b s \<Longrightarrow> core s' = core s \<Longrightarrow> wired b (spi_st s') \<Longrightarrow> data_ok b s'"
proof -
  assume d: "data_ok b s" and c: "core s' = core s" and w: "wired b (spi_st s')"
  note sel = log_only_sel [OF c]
  show "data_ok b s'" by (rule data_okI [OF d]) (simp_all only: sel w)
qed

lemma geometry_sizes: "203 \<in> {53, 203, 4 :: nat}" "53 \<in> {53, 203, 4 :: nat}" "4 \<in> {53, 203, 4 :: nat}"
  by simp_all

section \<open>Transitions\<close>

lemma enterAllOff_wired: "wired (board E) (spi_st s) \<Longrightarrow> wired (board E) (spi_st (enterAllOff E s))"
proof -
  assume w: "wired (board E) (spi_st s)"
  have v: "valid_block_size 53" by (simp add: valid_block_size_def block_byte_count_gs2_def)
  have b: "wired (board E) (spi_st (blank_once E i t))" if "wired (board E) (spi_st t)" "blk t = 53" for i t
    using blank_once_adds [OF that(1)] that v by simp
  have "wired (board E) (spi_st (fillFrameBufferDark E (hclear E (disarm E (hmark E OP_CMD_DISARM 0 s)))))"
    using w by (simp add: fillFrameBufferDark_def Let_def)
  then show ?thesis
    unfolding enterAllOff_def Let_def upt3
    by (simp add: b fillFrameBufferDark_def Let_def block_byte_count_gs2_def)
qed

lemma enterAllOff_ok:
  assumes "pre_ok (board E) s"
  shows "engine_ok (board E) (enterAllOff E s)"
  using assms enterAllOff_wired [of E s] dark_image [of "frame_buf s" "board E"]
  by (auto simp: engine_ok_def pre_ok_def geometry_def playback_def)

lemma showError_ok:
  assumes "pre_ok (board E) s"
  shows "engine_ok (board E) (showError E code s)"
proof -
  have l: "length (frame_buf s) = frame_buf_byte_count_max (board E)"
    using assms by (simp add: pre_ok_def)
  show ?thesis
    using assms showError_frame [OF l, of code]
    by (simp add: engine_ok_def pre_ok_def geometry_def playback_def)
qed

lemma enterAllOn_ok:
  assumes "data_ok (board E) s"
  shows "engine_ok (board E) (enterAllOn E s)"
proof -
  let ?b = "board E"
  let ?img = "frame_image (length (frame_buf s)) [0x46, 0x52, 0, 0] (panel_count_per_frame ?b) 203
      (all_on_block (panel_disp_mode s) 203)"
  have l: "length (frame_buf s) = frame_buf_byte_count_max ?b"
    using assms by (simp add: data_ok_def geometry_def)
  have i: "length ?img = frame_buf_byte_count_max ?b"
    using frame_image_blocks [of "all_on_block (panel_disp_mode s) 203" 203 "panel_count_per_frame ?b"
        "length (frame_buf s)" "[0x46, 0x52, 0, 0]"] cap_fits [of ?b] l by simp
  have f: "cstate (enterAllOn E s) = ALL_ON" "blk (enterAllOn E s) = 203" "frame_buf (enterAllOn E s) = ?img"
    "frame_byte_count (enterAllOn E s) = 4 + panel_count_per_frame ?b * 203"
    "cur_frame (enterAllOn E s) = cur_frame s" "pat_frames (enterAllOn E s) = pat_frames s"
    "panel_disp_mode (enterAllOn E s) = panel_disp_mode s" "sd_st (enterAllOn E s) = sd_st s"
    "wired ?b (spi_st (enterAllOn E s)) = wired ?b (spi_st s)"
    using cap_fits [of ?b]
    by (simp_all add: enterAllOn_def Let_def fillFrameBufferAllOn_def block_byte_count_gs16_def stream_frame_prefix_byte_count_def)
  show ?thesis
    using assms i by (simp add: engine_ok_def data_ok_def geometry_def playback_def f)
qed

lemma enterStreaming_ok:
  assumes "data_ok (board E) s" "blk s = n"
  shows "engine_ok (board E) (enterStreamingFrame E n s)"
proof -
  have "cstate (enterStreamingFrame E n s) = STREAMING_FRAME"
    by (simp add: enterStreamingFrame_def Let_def)
  moreover have "data_ok (board E) (enterStreamingFrame E n s)"
    using assms by (intro data_okI [OF assms(1)]) (simp_all add: enterStreamingFrame_def Let_def data_ok_def)
  ultimately show ?thesis by (simp add: engine_data)
qed

section \<open>Patching keeps the geometry\<close>

lemma block_fits:
  assumes "geometry b s"
  shows "4 + (frame_byte_count s - stream_frame_prefix_byte_count) div blk s * blk s \<le> length (frame_buf s)
       \<or> frame_byte_count s \<le> stream_frame_prefix_byte_count"
proof -
  have "4 + panel_count_per_frame b * blk s \<le> frame_buf_byte_count_max b"
    using assms cap_fits [of b] by (auto simp: geometry_def)
  then show ?thesis using assms by (auto simp: geometry_def stream_frame_prefix_byte_count_def)
qed

lemma patch_lengths:
  assumes "geometry b s"
  shows "length (frame_buf (patchDispMode s)) = length (frame_buf s)"
    "length (frame_buf (patchTrialDuty s)) = length (frame_buf s)"
proof -
  let ?n = "(frame_byte_count s - stream_frame_prefix_byte_count) div blk s"
  have f: "\<not> frame_byte_count s \<le> stream_frame_prefix_byte_count \<Longrightarrow> 4 + ?n * blk s \<le> length (frame_buf s)"
    using block_fits [OF assms] by simp
  show "length (frame_buf (patchDispMode s)) = length (frame_buf s)"
    using patch_blocks_spec [of "set_mode (panel_disp_mode s)", OF length_set_mode f] by (simp add: patchDispMode_def)
  show "length (frame_buf (patchTrialDuty s)) = length (frame_buf s)"
    using patch_blocks_spec [of "set_duty (trial_duty s)", OF length_set_duty f] by (auto simp: patchTrialDuty_def)
qed

lemma patch_sel [simp]:
  "cstate (patchDispMode s) = cstate s" "blk (patchDispMode s) = blk s" "spi_st (patchDispMode s) = spi_st s"
  "frame_byte_count (patchDispMode s) = frame_byte_count s" "cur_frame (patchDispMode s) = cur_frame s"
  "pat_frames (patchDispMode s) = pat_frames s" "panel_disp_mode (patchDispMode s) = panel_disp_mode s"
  "sd_st (patchDispMode s) = sd_st s" "trial_duty (patchDispMode s) = trial_duty s" "ao (patchDispMode s) = ao s"
  "cstate (patchTrialDuty s) = cstate s" "blk (patchTrialDuty s) = blk s" "spi_st (patchTrialDuty s) = spi_st s"
  "frame_byte_count (patchTrialDuty s) = frame_byte_count s" "cur_frame (patchTrialDuty s) = cur_frame s"
  "pat_frames (patchTrialDuty s) = pat_frames s" "panel_disp_mode (patchTrialDuty s) = panel_disp_mode s"
  "sd_st (patchTrialDuty s) = sd_st s" "ao (patchTrialDuty s) = ao s"
  "refresh_rate_hz (patchDispMode s) = refresh_rate_hz s" "refresh_rate_hz (patchTrialDuty s) = refresh_rate_hz s"
  "refresh_rate_explicit (patchDispMode s) = refresh_rate_explicit s" "refresh_rate_explicit (patchTrialDuty s) = refresh_rate_explicit s"
  "current_source (patchDispMode s) = current_source s" "current_source (patchTrialDuty s) = current_source s"
  "trial_duty (patchTrialDuty s) = trial_duty s" "trial_end_ms (patchTrialDuty s) = trial_end_ms s"
  "trial_end_ms (patchDispMode s) = trial_end_ms s" "xf (patchDispMode s) = xf s" "xf (patchTrialDuty s) = xf s"
  "net (patchDispMode s) = net s" "net (patchTrialDuty s) = net s" "ser (patchDispMode s) = ser s" "ser (patchTrialDuty s) = ser s"
  "pattern_id (patchDispMode s) = pattern_id s" "pattern_id (patchTrialDuty s) = pattern_id s"
  "frame_rate_hz (patchDispMode s) = frame_rate_hz s" "frame_rate_hz (patchTrialDuty s) = frame_rate_hz s"
  "last_advance_us (patchDispMode s) = last_advance_us s" "last_advance_us (patchTrialDuty s) = last_advance_us s"
  by (simp_all add: patchDispMode_def patchTrialDuty_def)

lemma writeDac_sel [simp]:
  "cstate (fst (writeDacMv E mv s)) = cstate s" "blk (fst (writeDacMv E mv s)) = blk s"
  "spi_st (fst (writeDacMv E mv s)) = spi_st s" "frame_byte_count (fst (writeDacMv E mv s)) = frame_byte_count s"
  "cur_frame (fst (writeDacMv E mv s)) = cur_frame s" "pat_frames (fst (writeDacMv E mv s)) = pat_frames s"
  "panel_disp_mode (fst (writeDacMv E mv s)) = panel_disp_mode s" "sd_st (fst (writeDacMv E mv s)) = sd_st s"
  "frame_buf (fst (writeDacMv E mv s)) = frame_buf s" "trial_duty (fst (writeDacMv E mv s)) = trial_duty s"
  "refresh_rate_hz (fst (writeDacMv E mv s)) = refresh_rate_hz s" "trial_end_ms (fst (writeDacMv E mv s)) = trial_end_ms s"
  "refresh_rate_explicit (fst (writeDacMv E mv s)) = refresh_rate_explicit s"
  "current_source (fst (writeDacMv E mv s)) = current_source s" "xf (fst (writeDacMv E mv s)) = xf s"
  "net (fst (writeDacMv E mv s)) = net s" "ser (fst (writeDacMv E mv s)) = ser s"
  "pattern_id (fst (writeDacMv E mv s)) = pattern_id s" "frame_rate_hz (fst (writeDacMv E mv s)) = frame_rate_hz s"
  "last_advance_us (fst (writeDacMv E mv s)) = last_advance_us s"
  by (simp_all add: writeDacMv_def Let_def)

lemma outputs_sel [simp]:
  "cstate (fst (apply_outputs E i s)) = cstate s" "blk (fst (apply_outputs E i s)) = blk s"
  "spi_st (fst (apply_outputs E i s)) = spi_st s" "frame_byte_count (fst (apply_outputs E i s)) = frame_byte_count s"
  "cur_frame (fst (apply_outputs E i s)) = cur_frame s" "pat_frames (fst (apply_outputs E i s)) = pat_frames s"
  "panel_disp_mode (fst (apply_outputs E i s)) = panel_disp_mode s" "sd_st (fst (apply_outputs E i s)) = sd_st s"
  "frame_buf (fst (apply_outputs E i s)) = frame_buf s" "trial_duty (fst (apply_outputs E i s)) = trial_duty s"
  "refresh_rate_hz (fst (apply_outputs E i s)) = refresh_rate_hz s" "trial_end_ms (fst (apply_outputs E i s)) = trial_end_ms s"
  "refresh_rate_explicit (fst (apply_outputs E i s)) = refresh_rate_explicit s"
  "current_source (fst (apply_outputs E i s)) = current_source s" "xf (fst (apply_outputs E i s)) = xf s"
  "net (fst (apply_outputs E i s)) = net s" "ser (fst (apply_outputs E i s)) = ser s"
  "pattern_id (fst (apply_outputs E i s)) = pattern_id s" "frame_rate_hz (fst (apply_outputs E i s)) = frame_rate_hz s"
  "last_advance_us (fst (apply_outputs E i s)) = last_advance_us s"
  by (simp_all add: apply_outputs_def applyAoLut_def Let_def)

lemma frame_loaded_sel [simp]:
  "cstate (frame_loaded E i s) = cstate s" "blk (frame_loaded E i s) = blk s" "spi_st (frame_loaded E i s) = spi_st s"
  "frame_byte_count (frame_loaded E i s) = (4 + num_panels (info (sd_st s)) * blk s) mod 65536"
  "cur_frame (frame_loaded E i s) = cur_frame s" "pat_frames (frame_loaded E i s) = pat_frames s"
  "panel_disp_mode (frame_loaded E i s) = panel_disp_mode s" "sd_st (frame_loaded E i s) = sd_st s"
  "trial_duty (frame_loaded E i s) = trial_duty s" "refresh_rate_hz (frame_loaded E i s) = refresh_rate_hz s"
  "refresh_rate_explicit (frame_loaded E i s) = refresh_rate_explicit s" "trial_end_ms (frame_loaded E i s) = trial_end_ms s"
  "current_source (frame_loaded E i s) = current_source s" "xf (frame_loaded E i s) = xf s"
  "net (frame_loaded E i s) = net s" "ser (frame_loaded E i s) = ser s" "pattern_id (frame_loaded E i s) = pattern_id s"
  "frame_rate_hz (frame_loaded E i s) = frame_rate_hz s" "last_advance_us (frame_loaded E i s) = last_advance_us s"
  by (simp_all add: frame_loaded_def Let_def case_prod_beta stream_frame_prefix_byte_count_def)

section \<open>Loading\<close>

lemma fits_panels: "fits b sd \<Longrightarrow> file_open sd \<Longrightarrow> num_panels (info sd) = panel_count_per_frame b"
  by (simp add: fits_def wf_info_def)

lemma frame_loaded_ok:
  assumes "pre_ok b s" "file_open (sd_st s)"
  shows "data_ok b (frame_loaded E i s) \<and> frame_byte_count (frame_loaded E i s) = 4 + panel_count_per_frame b * blk s"
proof -
  define s1 where "s1 = s\<lparr>frame_byte_count := (4 + num_panels (info (sd_st s)) * blk s) mod 65536, frame_buf_is_frame := True,
      frame_src_flags := kFrameFlagSdRead OR (if contiguous (sd_st s) then kFrameFlagContiguous else 0)\<rparr>"
  have n: "num_panels (info (sd_st s)) = panel_count_per_frame b"
    using assms by (auto simp: pre_ok_def fits_panels)
  have "blk s \<le> 203" using assms by (auto simp: pre_ok_def)
  then have "panel_count_per_frame b * blk s \<le> panel_count_per_frame b * 203" by (rule mult_le_mono2)
  then have "4 + panel_count_per_frame b * blk s < 65536" using cap_fits(4) [of b] by linarith
  then have m: "(4 + num_panels (info (sd_st s)) * blk s) mod 65536 = 4 + panel_count_per_frame b * blk s"
    by (simp only: n mod_less)
  have g: "geometry b s1" using assms m by (simp add: s1_def pre_ok_def geometry_def)
  have g2: "geometry b (patchDispMode s1)"
    using g patch_lengths [OF g] by (simp add: geometry_def)
  have "frame_buf (frame_loaded E i s) = frame_buf (patchTrialDuty (patchDispMode s1))"
    by (simp add: frame_loaded_def s1_def Let_def case_prod_beta stream_frame_prefix_byte_count_def)
  then have l: "length (frame_buf (frame_loaded E i s)) = length (frame_buf s)"
    using patch_lengths [OF g] patch_lengths [OF g2] by (simp add: s1_def)
  show ?thesis
    using assms l m by (simp add: data_ok_def pre_ok_def geometry_def playback_def)
qed

lemma loadFrame_eq:
  "loadFrame E i s = (if snd (timed_read E i (begin_load E s)) \<noteq> CE_NONE
     then (showError E (snd (timed_read E i (begin_load E s))) (fst (timed_read E i (begin_load E s))), False)
     else (frame_loaded E i (fst (timed_read E i (begin_load E s))), True))"
  by (simp add: loadFrame_def Let_def case_prod_beta)

lemma timed_read_ok:
  assumes "pre_ok b s" "reads_bounded (lib E)"
  shows "pre_ok b (fst (timed_read E i (begin_load E s)))"
  using assms readFrame_dest [OF assms(2), of i "frame_buf s" "sd_st s"] readFrame_fits [of b "sd_st s" "lib E" i "frame_buf s"]
  by (simp add: pre_ok_def playback_def)

lemma loadFrame_ok:
  assumes "pre_ok (board E) s" "reads_bounded (lib E)"
  shows "data_ok (board E) (fst (loadFrame E i s))"
    and "snd (loadFrame E i s) \<Longrightarrow> cstate (fst (loadFrame E i s)) = cstate s
          \<and> spi_st (fst (loadFrame E i s)) = spi_st s \<and> blk (fst (loadFrame E i s)) = blk s
          \<and> frame_byte_count (fst (loadFrame E i s)) = 4 + panel_count_per_frame (board E) * blk s
          \<and> file_open (sd_st s) \<and> i < frame_count (info (sd_st s))"
    and "\<not> snd (loadFrame E i s) \<Longrightarrow> cstate (fst (loadFrame E i s)) = ERROR_DISPLAY"
proof -
  let ?t = "fst (timed_read E i (begin_load E s))"
  note t = timed_read_ok [OF assms, of i]
  have o: "file_open (sd_st ?t)" if "snd (timed_read E i (begin_load E s)) = CE_NONE"
    using readFrame_ok [of "lib E" i "frame_buf s" "sd_st s"] that by simp
  show "data_ok (board E) (fst (loadFrame E i s))"
    using showError_ok [OF t] frame_loaded_ok [OF t o, of E i] by (auto simp: loadFrame_eq engine_data)
  show "\<not> snd (loadFrame E i s) \<Longrightarrow> cstate (fst (loadFrame E i s)) = ERROR_DISPLAY"
    by (simp add: loadFrame_eq split: if_splits)
  assume "snd (loadFrame E i s)"
  then have c: "snd (timed_read E i (begin_load E s)) = CE_NONE" by (simp add: loadFrame_eq split: if_splits)
  then have r: "snd (snd (readFrame (lib E) i (frame_buf s) (sd_st s))) = CE_NONE" by simp
  have e: "fst (loadFrame E i s) = frame_loaded E i ?t" using c by (simp add: loadFrame_eq)
  show "cstate (fst (loadFrame E i s)) = cstate s
          \<and> spi_st (fst (loadFrame E i s)) = spi_st s \<and> blk (fst (loadFrame E i s)) = blk s
          \<and> frame_byte_count (fst (loadFrame E i s)) = 4 + panel_count_per_frame (board E) * blk s
          \<and> file_open (sd_st s) \<and> i < frame_count (info (sd_st s))"
    using conjunct2 [OF frame_loaded_ok [OF t o [OF c], of E i]] readFrame_ok [OF r] unfolding e by simp
qed

lemma loadFrame_engine:
  assumes "engine_ok (board E) s" "reads_bounded (lib E)"
  shows "engine_ok (board E) (fst (loadFrame E i s))"
proof -
  have d: "data_ok (board E) s" using assms(1) by (simp add: engine_data)
  show ?thesis
    using loadFrame_ok [OF data_pre [OF d] assms(2), of i] assms(1) by (cases "snd (loadFrame E i s)") (auto simp: engine_data)
qed

lemma loadFrame_sel [simp]:
  "cur_frame (fst (loadFrame E i s)) = cur_frame s" "pat_frames (fst (loadFrame E i s)) = pat_frames s"
  "refresh_rate_explicit (fst (loadFrame E i s)) = refresh_rate_explicit s"
  "refresh_rate_hz (fst (loadFrame E i s)) = refresh_rate_hz s" "trial_end_ms (fst (loadFrame E i s)) = trial_end_ms s"
  "frame_rate_hz (fst (loadFrame E i s)) = frame_rate_hz s" "last_advance_us (fst (loadFrame E i s)) = last_advance_us s"
  "current_source (fst (loadFrame E i s)) = current_source s" "xf (fst (loadFrame E i s)) = xf s"
  "net (fst (loadFrame E i s)) = net s" "ser (fst (loadFrame E i s)) = ser s"
  "pattern_id (fst (loadFrame E i s)) = pattern_id s" "trial_duty (fst (loadFrame E i s)) = trial_duty s"
  by (simp_all add: loadFrame_eq)

section \<open>Starting a pattern\<close>

lemma open_step_sel [simp]:
  "frame_buf (fst (open_step E pid s)) = frame_buf s" "blk (fst (open_step E pid s)) = blk s"
  "frame_byte_count (fst (open_step E pid s)) = frame_byte_count s"
  "panel_disp_mode (fst (open_step E pid s)) = panel_disp_mode s"
  "sd_st (fst (open_step E pid s)) = fst (openPattern (lib E) (board E) pid (sd_st s))"
  "snd (open_step E pid s) = snd (openPattern (lib E) (board E) pid (sd_st s))"
  "cur_frame (fst (open_step E pid s)) = cur_frame s" "pat_frames (fst (open_step E pid s)) = pat_frames s"
  "armed_hz (spi_st (fst (open_step E pid s))) = 0" "wired b (spi_st (fst (open_step E pid s))) = wired b (spi_st s)"
  "refresh_rate_hz (fst (open_step E pid s)) = refresh_rate_hz s" "trial_duty (fst (open_step E pid s)) = trial_duty s"
  "refresh_rate_explicit (fst (open_step E pid s)) = refresh_rate_explicit s"
  "current_source (fst (open_step E pid s)) = current_source s" "xf (fst (open_step E pid s)) = xf s"
  "net (fst (open_step E pid s)) = net s" "ser (fst (open_step E pid s)) = ser s"
  by (simp_all add: open_step_def Let_def case_prod_beta)

lemma layout_core [simp]: "core (sd_layout_record E s) = core s"
  by (simp add: sd_layout_record_def Let_def)

lemma layout_spi [simp]: "spi_st (sd_layout_record E s) = spi_st s"
  by (simp add: sd_layout_record_def Let_def)

lemmas layout_sel [simp] = log_only_sel [OF layout_core]

lemma open_step_ok:
  assumes "data_ok (board E) s"
  shows "data_ok (board E) (fst (open_step E pid s))"
  using assms open_fits by (auto simp: data_ok_def geometry_def playback_def)

lemma set_playback_ok:
  assumes "data_ok b s" "file_open (sd_st s)"
  shows "pre_ok b (set_playback pid rate g i s)"
  using assms by (auto simp: data_ok_def pre_ok_def geometry_def playback_def set_playback_def Let_def fits_def wf_info_def)

lemma default_rate_core: "core (default_rate E s) = core s\<lparr>refresh_rate_hz := refresh_rate_hz (default_rate E s)\<rparr>"
  by (simp add: default_rate_def core_def)

lemma default_rate_sel [simp]:
  "spi_st (default_rate E s) = spi_st s" "cstate (default_rate E s) = cstate s" "blk (default_rate E s) = blk s"
  "frame_buf (default_rate E s) = frame_buf s" "frame_byte_count (default_rate E s) = frame_byte_count s"
  "cur_frame (default_rate E s) = cur_frame s" "pat_frames (default_rate E s) = pat_frames s"
  "panel_disp_mode (default_rate E s) = panel_disp_mode s" "sd_st (default_rate E s) = sd_st s"
  "pattern_id (default_rate E s) = pattern_id s" "trial_duty (default_rate E s) = trial_duty s"
  "current_source (default_rate E s) = current_source s" "net (default_rate E s) = net s" "ser (default_rate E s) = ser s"
  "xf (default_rate E s) = xf s" "refresh_rate_explicit (default_rate E s) = refresh_rate_explicit s"
  by (simp_all add: default_rate_def)

lemma start_clocks_sel [simp]:
  "spi_st (start_clocks E m d s) = spi_st s" "cstate (start_clocks E m d s) = m" "blk (start_clocks E m d s) = blk s"
  "frame_buf (start_clocks E m d s) = frame_buf s" "frame_byte_count (start_clocks E m d s) = frame_byte_count s"
  "cur_frame (start_clocks E m d s) = cur_frame s" "pat_frames (start_clocks E m d s) = pat_frames s"
  "panel_disp_mode (start_clocks E m d s) = panel_disp_mode s" "sd_st (start_clocks E m d s) = sd_st s"
  "refresh_rate_hz (start_clocks E m d s) = refresh_rate_hz s" "pattern_id (start_clocks E m d s) = pattern_id s"
  "trial_duty (start_clocks E m d s) = trial_duty s" "current_source (start_clocks E m d s) = current_source s"
  "net (start_clocks E m d s) = net s" "ser (start_clocks E m d s) = ser s" "xf (start_clocks E m d s) = xf s"
  by (simp_all add: start_clocks_def)

text \<open>The run of \<open>enterPatternMode\<close>: the state that reads the first frame, and the one that arms.\<close>

definition trial_loading :: "('c, 'h, 'w) env \<Rightarrow> nat \<Rightarrow> int \<Rightarrow> int \<Rightarrow> nat \<Rightarrow> ('c, 'h, 'w) cp \<Rightarrow> ('c, 'h, 'w) cp" where
  "trial_loading E pid rate g i s = set_playback pid rate g i (sd_layout_record E (fst (open_step E pid s)))"

definition trial_ready :: "('c, 'h, 'w) env \<Rightarrow> arena_state \<Rightarrow> nat \<Rightarrow> ('c, 'h, 'w) cp \<Rightarrow> ('c, 'h, 'w) cp" where
  "trial_ready E mode d s = start_clocks E mode d (default_rate E (fst (loadFrame E (cur_frame s) s)))"

lemma enterPatternMode_eq:
  "enterPatternMode E mode pid rate g i d s =
     (if snd (open_step E pid s) \<noteq> CE_NONE then (showError E (snd (open_step E pid s)) (fst (open_step E pid s)), False)
      else let t = trial_loading E pid rate g i s; r = trial_ready E mode d t; a = arm E (refresh_rate_hz r) r
        in if \<not> snd (loadFrame E (cur_frame t) t) then (fst (loadFrame E (cur_frame t) t), False)
           else if \<not> snd a then (enterAllOff E (fst a), False)
           else (tstate E ST_STATE_CHANGE (state_code mode) (of_nat (pattern_id (fst a))) (fst a)
                   \<lparr>tel_last_frame := 0xFFFF, tel_last_pattern := 0xFFFF\<rparr>, True))"
  by (simp add: enterPatternMode_def trial_loading_def trial_ready_def Let_def case_prod_beta)

lemma trial_loading_ok:
  assumes "data_ok (board E) s" "snd (open_step E pid s) = CE_NONE"
  shows "pre_ok (board E) (trial_loading E pid rate g i s)"
proof -
  have "data_ok (board E) (sd_layout_record E (fst (open_step E pid s)))"
    using open_step_ok [OF assms(1), of pid] by (intro data_ok_core [OF _ layout_core]) (simp_all add: data_ok_def)
  then show ?thesis
    unfolding trial_loading_def using openPattern_ok assms(2) by (intro set_playback_ok) simp_all
qed

lemma trial_ready_ok:
  assumes "pre_ok (board E) t" "reads_bounded (lib E)" "snd (loadFrame E (cur_frame t) t)"
  shows "data_ok (board E) (trial_ready E mode d t)"
proof -
  have l: "data_ok (board E) (fst (loadFrame E (cur_frame t) t))" using loadFrame_ok(1) [OF assms(1,2)] .
  show ?thesis by (rule data_okI [OF l]) (use l in \<open>simp_all add: trial_ready_def data_ok_def\<close>)
qed

lemma enterPattern_ok:
  assumes "data_ok (board E) s" "reads_bounded (lib E)" "mode \<noteq> ALL_OFF"
  shows "engine_ok (board E) (fst (enterPatternMode E mode pid rate g i d s))"
proof -
  let ?t = "trial_loading E pid rate g i s" and ?r = "trial_ready E mode d (trial_loading E pid rate g i s)"
  let ?a = "arm E (refresh_rate_hz ?r) ?r"
  consider (closed) "snd (open_step E pid s) \<noteq> CE_NONE"
    | (load) "snd (open_step E pid s) = CE_NONE" "\<not> snd (loadFrame E (cur_frame ?t) ?t)"
    | (run) "snd (open_step E pid s) = CE_NONE" "snd (loadFrame E (cur_frame ?t) ?t)"
    by blast
  then show ?thesis
  proof cases
    case closed
    then show ?thesis
      using showError_ok [OF data_pre [OF open_step_ok [OF assms(1)]]] by (simp add: enterPatternMode_eq)
  next
    case load
    note l = loadFrame_ok [OF trial_loading_ok [OF assms(1) load(1)] assms(2)]
    show ?thesis using load l(1) l(3) [OF load(2)] by (simp add: enterPatternMode_eq Let_def engine_data)
  next
    case run
    note r = trial_ready_ok [OF trial_loading_ok [OF assms(1) run(1)] assms(2) run(2), of mode d]
    have a: "data_ok (board E) (fst ?a)"
      using r by (intro data_ok_core [OF r core_arm]) (simp add: data_ok_def)
    let ?f = "tstate E ST_STATE_CHANGE (state_code mode) (of_nat (pattern_id (fst ?a))) (fst ?a)
        \<lparr>tel_last_frame := 0xFFFF, tel_last_pattern := 0xFFFF\<rparr>"
    have f: "data_ok (board E) ?f"
      by (rule data_okI [OF a]) (use a in \<open>simp_all add: data_ok_def\<close>)
    have m: "cstate ?f = mode" by (simp add: trial_ready_def)
    show ?thesis
      using run f m assms(3) enterAllOff_ok [OF data_pre [OF a]] by (simp add: enterPatternMode_eq Let_def engine_data)
  qed
qed

end
