(* ===== verification/Commands.thy ===== *)
theory Commands
  imports Handlers
begin

text \<open>
  \<open>src/src/CommandProcessor.cpp\<close>, the cases of the binary dispatch that neither stream data
  nor run the display engine: parameters of the display, the outputs, the pattern catalogue,
  telemetry and the identity and health reports. One definition per opcode, named after the
  case or handler; \<open>d\<close> is \<open>cmd.data\<close>, \<open>d ! 0\<close> the claimed length.
\<close>

section \<open>Opcodes\<close>

definition GET_AO_VOLTAGE_CMD :: byte where "GET_AO_VOLTAGE_CMD = 0xA1"
definition GET_ANALOG_IN_CMD :: byte where "GET_ANALOG_IN_CMD = 0xA4"
definition GET_ETHERNET_IP_ADDRESS_CMD :: byte where "GET_ETHERNET_IP_ADDRESS_CMD = 0xC1"
definition GET_CONTROLLER_INFO_CMD :: byte where "GET_CONTROLLER_INFO_CMD = 0xC2"
definition SET_DIAG_OUTPUT_CMD :: byte where "SET_DIAG_OUTPUT_CMD = 0xC3"
definition GET_DIAG_OUTPUT_CMD :: byte where "GET_DIAG_OUTPUT_CMD = 0xC4"
definition G6_PROGRAM_PANEL_CMD :: byte where "G6_PROGRAM_PANEL_CMD = 0xC8"
definition G6_VERIFY_PANEL_CMD :: byte where "G6_VERIFY_PANEL_CMD = 0xC9"
definition GET_HEALTH_CMD :: byte where "GET_HEALTH_CMD = 0xCA"
definition GET_FIRMWARE_VERSION_CMD :: byte where "GET_FIRMWARE_VERSION_CMD = 0xCB"
definition GET_CRASHREPORT_CMD :: byte where "GET_CRASHREPORT_CMD = 0xCC"
definition GET_SD_INFO_CMD :: byte where "GET_SD_INFO_CMD = 0xCD"
definition GET_FIRMWARE_INFO_CMD :: byte where "GET_FIRMWARE_INFO_CMD = 0xE3"
definition controller_info_version :: byte where "controller_info_version = 1"
definition controller_capability_bitmap :: byte where "controller_capability_bitmap = 0xA3"
definition fw_version_payload_version :: byte where "fw_version_payload_version = 1"
definition fw_sha_field_len :: nat where "fw_sha_field_len = 8"
definition fw_date_field_len :: nat where "fw_date_field_len = 10"
definition fw_branch_field_len :: nat where "fw_branch_field_len = 24"
definition crashreport_len :: nat where "crashreport_len = 128"

section \<open>Refresh rate and panel display mode\<close>

definition setRefreshRate :: "('c, 'h, 'w) env \<Rightarrow> byte list \<Rightarrow> ('c, 'h, 'w) cp \<Rightarrow> ('c, 'h, 'w) cp" where
  "setRefreshRate E d s =
     (if d ! 0 \<noteq> 3 then reply SET_REFRESH_RATE_CMD 1 (str ''Expected [03 16 hz_lo hz_hi]'') s
      else
        let rate = word16 d 2
        in if rate = 0 then reply SET_REFRESH_RATE_CMD 0 [] s
           else
             let s = s\<lparr>refresh_rate_hz := ucast rate, refresh_rate_explicit := True\<rparr>
             in if cstate s = ALL_OFF then reply SET_REFRESH_RATE_CMD 0 [] s
                else let (s, ok) = arm E (refresh_rate_hz s) s
                     in if ok then reply SET_REFRESH_RATE_CMD 0 [] s
                        else reply SET_REFRESH_RATE_CMD 1 (str ''refresh timer unavailable'') s)"

definition getRefreshRate :: "('c, 'h, 'w) cp \<Rightarrow> ('c, 'h, 'w) cp" where
  "getRefreshRate s = reply GET_REFRESH_RATE_CMD 0 (put16 (ucast (refresh_rate_hz s))) s"

definition setPanelDisplayMode :: "byte list \<Rightarrow> ('c, 'h, 'w) cp \<Rightarrow> ('c, 'h, 'w) cp" where
  "setPanelDisplayMode d s =
     (if d ! 0 \<noteq> 2 then reply SET_PANEL_DISPLAY_MODE_CMD 1 (str ''Expected [02 1B mode]'') s
      else if 3 < d ! 2 then
        reply SET_PANEL_DISPLAY_MODE_CMD 1 (str ''mode must be 0-3 (oneshot/persist/triggered/gated)'') s
      else reply SET_PANEL_DISPLAY_MODE_CMD 0 [d ! 2] (patchDispMode (s\<lparr>panel_disp_mode := d ! 2\<rparr>)))"

definition getPanelDisplayMode :: "('c, 'h, 'w) cp \<Rightarrow> ('c, 'h, 'w) cp" where
  "getPanelDisplayMode s = reply GET_PANEL_DISPLAY_MODE_CMD 0 [panel_disp_mode s] s"

definition getFramePosition :: "('c, 'h, 'w) cp \<Rightarrow> ('c, 'h, 'w) cp" where
  "getFramePosition s =
     reply GET_FRAME_POSITION_CMD 0 (put16 (of_nat (cur_frame s)) @ put16 (of_nat (pat_frames s))) s"

definition getFramesSent :: "('c, 'h, 'w) cp \<Rightarrow> ('c, 'h, 'w) cp" where
  "getFramesSent s = reply GET_FRAMES_SENT_CMD 0 (put32 (frames_sent (spi_st s))) s"

definition resetFrames :: "('c, 'h, 'w) cp \<Rightarrow> ('c, 'h, 'w) cp" where
  "resetFrames s = reply RESET_FRAMES_SENT_CMD 0 [] (s\<lparr>spi_st := resetFramesSent (spi_st s)\<rparr>)"

definition setSpiClock :: "byte list \<Rightarrow> ('c, 'h, 'w) cp \<Rightarrow> ('c, 'h, 'w) cp" where
  "setSpiClock d s =
     (if d ! 0 \<noteq> 3 then reply SET_SPI_CLOCK_CMD 1 (str ''Expected [03 C5 mhz_lo mhz_hi]'') s
      else
        let s = s\<lparr>spi_st := setSpiClockMhz (word16 d 2) (spi_st s)\<rparr>
        in reply SET_SPI_CLOCK_CMD 0 (put16 (getSpiClockMhz (spi_st s))) s)"

definition getSpiClock :: "('c, 'h, 'w) cp \<Rightarrow> ('c, 'h, 'w) cp" where
  "getSpiClock s = reply GET_SPI_CLOCK_CMD 0 (put16 (getSpiClockMhz (spi_st s))) s"

definition setPatternId :: "('c, 'h, 'w) env \<Rightarrow> byte list \<Rightarrow> ('c, 'h, 'w) cp \<Rightarrow> ('c, 'h, 'w) cp" where
  "setPatternId E d s =
     (if d ! 0 \<noteq> 3 then reply SET_PATTERN_ID_CMD 1 (str ''Expected [03 03 id_lo id_hi]'') s
      else if busy s then reply SET_PATTERN_ID_CMD 1 (str ''SD transfer in progress'') s
      else
        let (s, ok) = enterPatternMode E SHOW_FRAME (unat (word16 d 2)) 0 0 0 0 (s\<lparr>trial_duty := 0\<rparr>)
        in if ok then reply SET_PATTERN_ID_CMD 0 (put16 (word16 d 2)) s
           else reply SET_PATTERN_ID_CMD 1 (str ''SET_PATTERN_ID: load failed'') s)"

section \<open>Pattern catalogue\<close>

definition getFileCount :: "('c, 'h, 'w) cp \<Rightarrow> ('c, 'h, 'w) cp" where
  "getFileCount s = reply GET_FILE_COUNT_CMD 0 (put16 (of_nat (pattern_count (sd_st s)))) s"

definition getPatternFilename :: "byte list \<Rightarrow> ('c, 'h, 'w) cp \<Rightarrow> ('c, 'h, 'w) cp" where
  "getPatternFilename d s =
     (if d ! 0 \<noteq> 3 then reply GET_PATTERN_FILENAME_CMD 1 (str ''Expected [03 82 idx_lo idx_hi]'') s
      else case patternName (unat (word16 d 2)) (sd_st s) of
             None \<Rightarrow> reply GET_PATTERN_FILENAME_CMD 1 (str ''Index out of range'') s
           | Some nm \<Rightarrow> reply GET_PATTERN_FILENAME_CMD 0 (of_nat (length nm) # nm) s)"

definition meta_payload :: "pattern_meta \<Rightarrow> byte list" where
  "meta_payload m = put16 (of_nat (m_frame_count m)) @ [m_gs_val m, m_rows m, m_cols m, m_arena_id m, m_observer_id m]
     @ put32 (of_nat (m_file_size m)) @ [m_duty_cycle m]"

definition getPatternInfo :: "('c, 'h, 'w) env \<Rightarrow> byte list \<Rightarrow> ('c, 'h, 'w) cp \<Rightarrow> ('c, 'h, 'w) cp" where
  "getPatternInfo E d s =
     (if d ! 0 \<noteq> 3 then reply GET_PATTERN_INFO_CMD 1 (str ''Expected [03 88 idx_lo idx_hi]'') s
      else
        let (sd, r) = readPatternInfo (lib E) (unat (word16 d 2)) (sd_st s); s = s\<lparr>sd_st := sd\<rparr>
        in case r of
             Inl err \<Rightarrow> reply GET_PATTERN_INFO_CMD err (str ''pattern info read failed'') s
           | Inr m \<Rightarrow> reply GET_PATTERN_INFO_CMD 0 (meta_payload m) s)"

definition setPatternFilename :: "('c, 'h, 'w) env \<Rightarrow> byte list \<Rightarrow> ('c, 'h, 'w) cp \<Rightarrow> ('c, 'h, 'w) cp" where
  "setPatternFilename E d s =
     (if d ! 0 < 4 then reply SET_PATTERN_FILENAME_CMD 1 (str ''Too short'') s
      else
        let idx = unat (word16 d 2); name_len = unat (d ! 4)
        in if name_len = 0 \<or> pattern_name_byte_count \<le> name_len \<or> unat (d ! 0) < 4 + name_len
           then reply SET_PATTERN_FILENAME_CMD 1 (str ''Bad name length'') s
           else if pattern_count (sd_st s) < idx
           then reply SET_PATTERN_FILENAME_CMD 1 (str ''Index out of range'') s
           else if busy s then reply SET_PATTERN_FILENAME_CMD 1 (str ''SD transfer in progress'') s
           else
             let new_name = takeWhile (\<lambda>b. b \<noteq> 0) (slice d 5 name_len);
                 sd = (sd_st s)\<lparr>card := sd_mkdir (lib E) pattern_dir (card (sd_st s))\<rparr>;
                 (sd, err, new_idx) = renamePattern (lib E) idx new_name sd;
                 s = s\<lparr>sd_st := sd\<rparr>
             in if err \<noteq> CE_NONE then reply SET_PATTERN_FILENAME_CMD err (str ''Rename failed'') s
                else reply SET_PATTERN_FILENAME_CMD 0
                       (put16 (case new_idx of None \<Rightarrow> 0 | Some k \<Rightarrow> of_nat k)) s)"

text \<open>A delete compacts the index space, so the latched transfer indices move with it.\<close>

definition shift_latched :: "nat \<Rightarrow> 'h transfer \<Rightarrow> 'h transfer" where
  "shift_latched idx x =
     (if 1 \<le> idx then
        let x = (if dl_active x \<and> idx < dl_idx x then x\<lparr>dl_idx := dl_idx x - 1\<rparr> else x)
        in (if ul_active x \<and> idx < ul_idx x then x\<lparr>ul_idx := ul_idx x - 1\<rparr> else x)
      else x)"

definition deletePatternFile :: "('c, 'h, 'w) env \<Rightarrow> byte list \<Rightarrow> ('c, 'h, 'w) cp \<Rightarrow> ('c, 'h, 'w) cp" where
  "deletePatternFile E d s =
     (if d ! 0 \<noteq> 3 then reply DELETE_PATTERN_FILE_CMD 1 (str ''Expected [03 86 idx_lo idx_hi]'') s
      else
        let idx = unat (word16 d 2)
        in if patternBusy idx s then reply DELETE_PATTERN_FILE_CMD 1 (str ''Pattern is in use'') s
           else
             let (sd, err) = deletePattern (lib E) idx (sd_st s); s = s\<lparr>sd_st := sd\<rparr>
             in if err \<noteq> CE_NONE then reply DELETE_PATTERN_FILE_CMD err (str ''Delete failed'') s
                else reply DELETE_PATTERN_FILE_CMD 0 [] (s\<lparr>xf := shift_latched idx (xf s)\<rparr>))"

definition purgeMemoryCmd :: "('c, 'h, 'w) env \<Rightarrow> ('c, 'h, 'w) cp \<Rightarrow> ('c, 'h, 'w) cp" where
  "purgeMemoryCmd E s =
     (if cstate s \<noteq> ALL_OFF then reply PURGE_MEMORY_CMD CE_DISPLAY_ACTIVE (str ''Stop display first'') s
      else if busy s then reply PURGE_MEMORY_CMD 1 (str ''A transfer is in progress'') s
      else
        let (sd, err) = purgeMemory (lib E) (sd_st s); s = s\<lparr>sd_st := sd\<rparr>
        in if err \<noteq> CE_NONE then reply PURGE_MEMORY_CMD err (str ''Purge-memory failed'') s
           else reply PURGE_MEMORY_CMD 0 [] s)"

section \<open>Digital IO\<close>

definition role_code :: "dio_role \<Rightarrow> byte" where
  "role_code r = (case r of kOff \<Rightarrow> 0 | kInTrigger \<Rightarrow> 1 | kOutProgrammable \<Rightarrow> 2 | kOutFramescan \<Rightarrow> 3)"

definition role_of :: "byte \<Rightarrow> dio_role" where
  "role_of b = (if b = 0 then kOff else if b = 1 then kInTrigger else if b = 2 then kOutProgrammable else kOutFramescan)"

definition dioRoleName :: "dio_role \<Rightarrow> string" where
  "dioRoleName r = (case r of kOff \<Rightarrow> ''off'' | kInTrigger \<Rightarrow> ''in_trigger''
     | kOutProgrammable \<Rightarrow> ''out_programmable'' | kOutFramescan \<Rightarrow> ''out_debug_framescan'')"

definition data_pin :: "nat \<Rightarrow> nat" where
  "data_pin port = (if port = 1 then do1_data_pin else do2_data_pin)"

definition level :: "('c, 'h, 'w) env \<Rightarrow> nat \<Rightarrow> nat \<Rightarrow> byte" where
  "level E t pin = (if pin_level E t pin then 1 else 0)"

definition setDigitalOut :: "('c, 'h, 'w) env \<Rightarrow> byte list \<Rightarrow> ('c, 'h, 'w) cp \<Rightarrow> ('c, 'h, 'w) cp" where
  "setDigitalOut E d s =
     (if d ! 0 \<noteq> 3 then reply SET_DIGITAL_OUT_CMD 1 (str ''Expected [03 AA channel state]'') s
      else if d ! 2 \<noteq> 1 \<and> d ! 2 \<noteq> 2 then reply SET_DIGITAL_OUT_CMD 1 (str ''channel must be 1 or 2'') s
      else
        let ch = unat (d ! 2);
            s = (if dio_roles s ! (ch - 1) = kOff then applyDioRole ch kOutProgrammable s else s);
            role = dio_roles s ! (ch - 1)
        in if role \<noteq> kOutProgrammable then
             reply SET_DIGITAL_OUT_CMD 1
               (take 95 (str (''Digital IO '' @ (if ch = 1 then ''1'' else ''2'') @ '' role is '' @ dioRoleName role
                  @ '' - SET_DIO_ROLE (0xAC) it to out_programmable first''))) s
           else reply SET_DIGITAL_OUT_CMD 0 [] (s\<lparr>pins := pins s @ [PinSet (data_pin ch) (d ! 3 \<noteq> 0)]\<rparr>))"

definition getDigitalOut :: "('c, 'h, 'w) env \<Rightarrow> ('c, 'h, 'w) cp \<Rightarrow> ('c, 'h, 'w) cp" where
  "getDigitalOut E s =
     reply GET_DIGITAL_OUT_CMD 0 [level E (tick s) do1_data_pin, level E (tick s + 1) do2_data_pin] (s\<lparr>tick := tick s + 2\<rparr>)"

definition setDioRole :: "byte list \<Rightarrow> ('c, 'h, 'w) cp \<Rightarrow> ('c, 'h, 'w) cp" where
  "setDioRole d s =
     (if d ! 0 \<noteq> 3 then reply SET_DIO_ROLE_CMD 1 (str ''Expected [03 AC port role]'') s
      else if d ! 2 \<noteq> 1 \<and> d ! 2 \<noteq> 2 then reply SET_DIO_ROLE_CMD 1 (str ''port must be 1 or 2'') s
      else if 3 < d ! 3 then
        reply SET_DIO_ROLE_CMD 1 (str ''role must be 0=off 1=in_trigger 2=out_programmable 3=out_debug_framescan'') s
      else reply SET_DIO_ROLE_CMD 0 [] (applyDioRole (unat (d ! 2)) (role_of (d ! 3)) s))"

definition getDioRole :: "('c, 'h, 'w) env \<Rightarrow> ('c, 'h, 'w) cp \<Rightarrow> ('c, 'h, 'w) cp" where
  "getDioRole E s =
     reply GET_DIO_ROLE_CMD 0
       [role_code (dio_roles s ! 0), level E (tick s) do1_data_pin, role_code (dio_roles s ! 1), level E (tick s + 1) do2_data_pin]
       (s\<lparr>tick := tick s + 2\<rparr>)"

section \<open>Analog output and input\<close>

definition setAoVoltage :: "('c, 'h, 'w) env \<Rightarrow> byte list \<Rightarrow> ('c, 'h, 'w) cp \<Rightarrow> ('c, 'h, 'w) cp" where
  "setAoVoltage E d s =
     (if d ! 0 \<noteq> 3 then reply SET_AO_VOLTAGE_CMD 1 (str ''Expected [03 A0 mv_lo mv_hi]'') s
      else
        let mv = word16 d 2
        in if 5000 < mv then reply SET_AO_VOLTAGE_CMD 1 (str ''mv out of range (0-5000)'') s
           else if ao_mode (ao s) \<noteq> 0 then
             reply SET_AO_VOLTAGE_CMD 1 (str ''AO is in frame_number mode - SET_AO_MODE (0xA3) 0 first'') s
           else
             let (s, ok) = writeDacMv E mv s
             in if \<not> ok then reply SET_AO_VOLTAGE_CMD 1 (str ''I2C write failed'') s
                else reply SET_AO_VOLTAGE_CMD 0 (put16 mv) (s\<lparr>ao := (ao s)\<lparr>ao_lut_len := 0\<rparr>\<rparr>))"

definition setAoMode :: "('c, 'h, 'w) env \<Rightarrow> byte list \<Rightarrow> ('c, 'h, 'w) cp \<Rightarrow> ('c, 'h, 'w) cp" where
  "setAoMode E d s =
     (if d ! 0 \<noteq> 2 then reply SET_AO_MODE_CMD 1 (str ''Expected [02 A3 mode]'') s
      else if 1 < d ! 2 then reply SET_AO_MODE_CMD 1 (str ''mode must be 0 (programmable) or 1 (frame_number)'') s
      else
        let s = dropFrameCache (s\<lparr>ao := (ao s)\<lparr>ao_mode := d ! 2\<rparr>\<rparr>);
            s = (if ao_mode (ao s) = 1 then
                   let s = s\<lparr>ao := (ao s)\<lparr>ao_lut_len := 0\<rparr>\<rparr>
                   in if 1 < pat_frames s
                      then fst (writeDacMv E (ucast ((of_nat (cur_frame s) * 5000 :: u32) div of_nat (pat_frames s - 1))) s)
                      else if pat_frames s = 1 then fst (writeDacMv E 0 s) else s
                 else s)
        in reply SET_AO_MODE_CMD 0 [] s)"

text \<open>Both inputs share the front-end mapping of mode 4.\<close>

definition bnc_mv :: "nat \<Rightarrow> u16" where
  "bnc_mv raw = of_int (lroundf (rne (bnc_volts raw * 1000)))"

definition getAnalogIn :: "('c, 'h, 'w) env \<Rightarrow> ('c, 'h, 'w) cp \<Rightarrow> ('c, 'h, 'w) cp" where
  "getAnalogIn E s =
     (let payload = put16 (bnc_mv (adc E (tick s))) @ put16 (bnc_mv (adc E (tick s + 1)))
      in reply GET_ANALOG_IN_CMD 0 payload (s\<lparr>tick := tick s + 2\<rparr>))"

definition getAoVoltage :: "('c, 'h, 'w) env \<Rightarrow> ('c, 'h, 'w) cp \<Rightarrow> ('c, 'h, 'w) cp" where
  "getAoVoltage E s =
     (let bs = take 3 (i2c_bytes E (tick s)); s = s\<lparr>tick := tick s + 1\<rparr>
      in if length bs < 3 then reply GET_AO_VOLTAGE_CMD 1 (str ''I2C read failed'') s
         else
           let dac_code = push_bit 4 (ucast (bs ! 1)) OR ucast (drop_bit 4 (bs ! 2)) :: u16;
               mv = ucast ((ucast dac_code :: u32) * 5000 div 4095) :: u16
           in reply GET_AO_VOLTAGE_CMD 0 (put16 mv) (s\<lparr>ao := (ao s)\<lparr>ao_mv := mv\<rparr>\<rparr>))"

text \<open>The validating copy loop: entries before the first out-of-range one are already stored.\<close>

fun store_lut :: "byte list \<Rightarrow> nat \<Rightarrow> nat \<Rightarrow> u16 list \<Rightarrow> u16 list \<times> bool" where
  "store_lut d i 0 lut = (lut, True)"
| "store_lut d i (Suc n) lut =
     (let mv = word16 d (7 + 2 * i)
      in if 5000 < mv then (lut, False) else store_lut d (i + 1) n (lut[i := mv]))"

definition setAoLut :: "('c, 'h, 'w) env \<Rightarrow> byte list \<Rightarrow> ('c, 'h, 'w) cp \<Rightarrow> ('c, 'h, 'w) cp" where
  "setAoLut E d s =
     (let s = dropFrameCache s; err = (\<lambda>m. reply SET_AO_LUT_CMD 1 (str m))
      in if d ! 0 < 6 then err ''Too short (need mode+step_hz+count)'' s
         else if ao_mode (ao s) \<noteq> 0 then err ''AO is in frame_number mode - SET_AO_MODE (0xA3) 0 first'' s
         else
           let lut_mode = d ! 2; step_hz = word16 d 3; n = unat (word16 d 5)
           in if 1 < lut_mode then err ''mode must be 0 (frame-locked) or 1 (time-based)'' s
              else if n = 0 \<or> kAoLutMaxLen < n then err ''count out of range (1-4096)'' s
              else if 255 < 6 + n * 2 \<or> 6 + n * 2 \<noteq> unat (d ! 0) then err ''count/length mismatch'' s
              else
                let (lut, ok) = store_lut d 0 n (ao_lut (ao s)); s = s\<lparr>ao := (ao s)\<lparr>ao_lut := lut\<rparr>\<rparr>
                in if \<not> ok then err ''mv out of range (0-5000)'' s
                   else
                     let s = s\<lparr>ao := (ao s)\<lparr>ao_lut_len := n, ao_lut_mode := lut_mode, ao_lut_step_hz := step_hz,
                                          ao_lut_idx := 0, ao_lut_last_us := us E (tick s)\<rparr>, tick := tick s + 1\<rparr>;
                         (s, ok) = applyAoLut E 0 s
                     in if \<not> ok then err ''I2C error writing LUT[0]'' (s\<lparr>ao := (ao s)\<lparr>ao_lut_len := 0\<rparr>\<rparr>)
                        else reply SET_AO_LUT_CMD 0 (put16 (of_nat n)) s)"

section \<open>Diagnostics\<close>

definition setDiagOutput :: "byte list \<Rightarrow> ('c, 'h, 'w) cp \<Rightarrow> ('c, 'h, 'w) cp" where
  "setDiagOutput d s =
     (let s = s\<lparr>dbg_on := (if 2 \<le> d ! 0 then d ! 2 \<noteq> 0 else True)\<rparr>
      in reply SET_DIAG_OUTPUT_CMD 0 (str (if dbg_on s then ''diag on'' else ''diag off'')) s)"

definition getDiagOutput :: "('c, 'h, 'w) cp \<Rightarrow> ('c, 'h, 'w) cp" where
  "getDiagOutput s = reply GET_DIAG_OUTPUT_CMD 0 [if dbg_on s then 1 else 0] s"

definition sdDiagFlags :: "('c, 'h, 'w) cp \<Rightarrow> byte" where
  "sdDiagFlags s = (if legacy_seek (sd_st s) then 1 else 0) OR (if sd_skip_same_index s then 0 else 2)"

definition handleSetSdDiag :: "('c, 'h, 'w) env \<Rightarrow> byte list \<Rightarrow> ('c, 'h, 'w) cp \<Rightarrow> ('c, 'h, 'w) cp" where
  "handleSetSdDiag E d s =
     (if d ! 0 \<noteq> 2 then reply SET_SD_DIAG_CMD 1 (str ''Expected [02 CE flags]'') s
      else
        let flags = d ! 2
        in if flags AND NOT 3 \<noteq> 0 then reply SET_SD_DIAG_CMD 1 (str ''SET_SD_DIAG: bits 2-7 reserved'') s
           else if flags AND 1 \<noteq> 0 \<and> fat_type E (tick s) = 64 then
             reply SET_SD_DIAG_CMD 1 (str ''SET_SD_DIAG: legacy seek has no effect on exFAT'') s
           else
             let s = s\<lparr>sd_st := setLegacySeek (flags AND 1 \<noteq> 0) (sd_st s), sd_skip_same_index := (flags AND 2 = 0)\<rparr>;
                 s = (if sd_skip_same_index s then s else s\<lparr>sd_cache_ok := False\<rparr>);
                 echo = sdDiagFlags s
             in reply SET_SD_DIAG_CMD 0 [echo] (tstate E ST_TELEMETRY 0xCE (ucast echo) s))"

definition handleGetSdInfo :: "('c, 'h, 'w) env \<Rightarrow> ('c, 'h, 'w) cp \<Rightarrow> ('c, 'h, 'w) cp" where
  "handleGetSdInfo E s =
     (let t = tick s; up = (mounted (sd_st s) \<and> card_kind E t \<noteq> None);
          id = (if up then cid E t else None); csd = (if up then csd_sectors E t else None);
          kind = (if up then the (card_kind E t) else 0);
          payload = [1, (if up then 1 else 0) OR (if id \<noteq> None then 2 else 0) OR (if csd \<noteq> None then 4 else 0), kind,
                     if up then of_nat (fat_type E t) else 0]
            @ put32 (case csd of None \<Rightarrow> 0 | Some n \<Rightarrow> n) @ put32 (if up then bytes_per_cluster E t else 0)
            @ (case id of None \<Rightarrow> replicate 16 0 | Some bs \<Rightarrow> take 16 bs)
            @ [0xFF, sdDiagFlags s OR (if applied_legacy_seek (sd_st s) then 4 else 0)]
      in reply GET_SD_INFO_CMD (if up then 0 else 1) payload (s\<lparr>tick := t + 1\<rparr>))"

section \<open>Telemetry\<close>

definition handleSetTelemetry :: "('c, 'h, 'w) env \<Rightarrow> byte list \<Rightarrow> ('c, 'h, 'w) cp \<Rightarrow> ('c, 'h, 'w) cp" where
  "handleSetTelemetry E d s =
     (if d ! 0 \<noteq> 2 \<and> d ! 0 \<noteq> 4 then
        reply SET_TELEMETRY_CMD 1 (str ''Expected [04 A8 flags rate_lo rate_hi] or [02 A8 flags]'') s
      else
        let flags = d ! 2;
            rate = (if d ! 0 = 4 then uint (word16 d 3) else -1);
            s = s\<lparr>tel_st := configure (us E (tick s)) (us E (tick s + 1)) (us E (tick s + 2)) flags rate (tel_st s), tick := tick s + 3\<rparr>;
            s = (if flags AND 0x10 \<noteq> 0 then
                   let (w, ok) = watchdogSetEnabled (rtw E) (flags AND 0x40 = 0) (wd_st s);
                       s = s\<lparr>wd_st := w\<rparr>;
                       s = (if ok then s else tstate E ST_TELEMETRY 0xEE (ucast SET_TELEMETRY_CMD) s)
                   in s\<lparr>wd_st := watchdogStarve (flags AND 0x20 \<noteq> 0) (wd_st s)\<rparr>
                 else s)
        in reply SET_TELEMETRY_CMD 0 [] s)"

text \<open>\<open>18 + n\<close> bytes: the block header and the peeked records; the budget is 178 bytes.\<close>

definition handleGetTelemetryBlock :: "('c, 'h, 'w) env \<Rightarrow> byte list \<Rightarrow> ('c, 'h, 'w) cp \<Rightarrow> ('c, 'h, 'w) cp" where
  "handleGetTelemetryBlock E d s =
     (if d ! 0 < 7 then reply GET_TELEMETRY_BLOCK_CMD 1 (str ''Expected [08 A9 ack_seq(4) max_bytes(2) flags]'') s
      else
        let ack_seq = get32 (d ! 2) (d ! 3) (d ! 4) (d ! 5); max_bytes = unat (word16 d 6);
            t = ack (us E (tick s)) ack_seq (tel_st s);
            (t, recs, info) = peek (us E (tick s + 1)) (if max_bytes < 178 then max_bytes else 178) t;
            boots = bootCount t;
            payload = put32 (us E (tick s + 2)) @ put32 (first_seq info) @ put16 (of_nat (n_records info))
              @ put32 (dropped_view t) @ [if more_unread info then 1 else 0, blockFlags t]
              @ put16 (if 0xFFFF < boots then 0xFFFF else ucast boots) @ recs
        in reply GET_TELEMETRY_BLOCK_CMD 0 payload (s\<lparr>tel_st := t, tick := tick s + 3\<rparr>))"

section \<open>Identity and health\<close>

definition getIp :: "('c, 'h, 'w) env \<Rightarrow> ('c, 'h, 'w) cp \<Rightarrow> ('c, 'h, 'w) cp" where
  "getIp E s = reply GET_ETHERNET_IP_ADDRESS_CMD 0 (ip_string E) s"

definition handleGetControllerInfo :: "('c, 'h, 'w) env \<Rightarrow> ('c, 'h, 'w) cp \<Rightarrow> ('c, 'h, 'w) cp" where
  "handleGetControllerInfo E s =
     reply GET_CONTROLLER_INFO_CMD 0 ([controller_info_version, controller_capability_bitmap] @ take 6 (mac_bytes E)) s"

text \<open>Truncate to \<open>n\<close>, pad with spaces; the production build clears the debug flag.\<close>

definition putField :: "byte list \<Rightarrow> nat \<Rightarrow> byte list" where
  "putField src n = take n src @ replicate (n - length src) 0x20"

definition handleGetFirmwareVersion :: "('c, 'h, 'w) env \<Rightarrow> ('c, 'h, 'w) cp \<Rightarrow> ('c, 'h, 'w) cp" where
  "handleGetFirmwareVersion E s =
     (let flags = (if build_dirty E then 0x01 else 0) OR 0x04 OR 0x08 OR 0x10 OR 0x20 OR 0x40
      in reply GET_FIRMWARE_VERSION_CMD 0
           ([fw_version_payload_version, of_nat (panel_count_per_frame_row (board E)),
             of_nat (panel_count_per_frame_col (board E)), flags]
            @ putField (build_sha E) fw_sha_field_len @ putField (build_date E) fw_date_field_len
            @ putField (build_branch E) fw_branch_field_len) s)"

definition handleGetCrashReport :: "('c, 'h, 'w) env \<Rightarrow> ('c, 'h, 'w) cp \<Rightarrow> ('c, 'h, 'w) cp" where
  "handleGetCrashReport E s =
     reply GET_CRASHREPORT_CMD 0 (take crashreport_len (crash_memory E (tick s))) (s\<lparr>tick := tick s + 1\<rparr>)"

definition health_payload :: "('c, 'h, 'w) env \<Rightarrow> ('c, 'h, 'w) cp \<Rightarrow> byte list" where
  "health_payload E s =
     (let h = hs s; w = wd_st s; c = crumb s; r = isr s; hw = wd_hw w
      in [5, (if mounted (sd_st s) then 1 else 0) OR (if file_open (sd_st s) then 2 else 0)
             OR (if cstate s \<noteq> ALL_OFF then 4 else 0) OR (if prev_valid h then 8 else 0)]
         @ put32 (ms E (tick s)) @ put32 (loop_count h) @ put32 (loop_max_us h) @ put32 (loop_max_1s_us h)
         @ put32 (sd_reads h) @ put32 (sd_read_max_us h) @ [card_err E (tick s)] @ put32 (card_err_data E (tick s))
         @ put32 (frames_sent (spi_st s)) @ put32 (refresh_isr_count (spi_st s)) @ put32 (cmd70_count h)
         @ [state_code (cstate s)] @ put16 (of_nat (cur_frame s)) @ put32 (reset_cause h)
         @ [prev_last_op h] @ put32 (prev_stamp_us h) @ [prev_op_arg h, prev_slow_op h] @ put32 (prev_slow_us h)
         @ [slow_op c] @ put32 (slow_us c) @ [prev_isr_last h] @ put32 (prev_isr_count h)
         @ put32 (prev_wdog_pc h) @ put32 (prev_wdog_lr h) @ [watchdogFlags (wdog3_mask E) h w, isr_last r]
         @ put32 (isr_count r) @ put32 (wd_kicks w) @ put32 (wd_cs_boot w) @ put32 (rd_cs (rtw E) hw)
         @ put32 (wd_tick_hz w) @ put32 (rd_toval (rtw E) hw AND 0xFFFF) @ [wd_verify w]
         @ put16 (wd_cnt_before_max w) @ put16 (watchdogCntAfterMin w) @ put16 (wd_cnt_after_max w)
         @ put16 (ucast (rd_cnt (rtw E) hw AND 0xFFFF)))"

definition handleGetHealth :: "('c, 'h, 'w) env \<Rightarrow> ('c, 'h, 'w) cp \<Rightarrow> ('c, 'h, 'w) cp" where
  "handleGetHealth E s = reply GET_HEALTH_CMD 0 (health_payload E s) (s\<lparr>tick := tick s + 1\<rparr>)"

end
