(* ===== verification/ClosedLoop.thy ===== *)
theory ClosedLoop
  imports EngineInv Commands
begin

text \<open>
  Mode 4 in single precision: the two loops of the accumulator end, lose nothing and keep the
  index inside the pattern; the analog input is accurate to one millivolt.
\<close>

section \<open>The index\<close>

lemma frames_up_index:
  "frames_up n a cur ch = Some (a', cur', ch') \<Longrightarrow> 0 < n \<Longrightarrow> (ch \<longrightarrow> cur < n) \<Longrightarrow>
   (ch' \<longrightarrow> cur' < n) \<and> (\<not> ch' \<longrightarrow> cur' = cur \<and> \<not> ch)"
proof (induction n a cur ch "(a', cur', ch')" rule: frames_up.raw_induct [rotated -1, consumes 1])
  case (1 f n a cur ch)
  show ?case
  proof (cases "1 \<le> a")
    case True
    then show ?thesis using 1(1) [of n "rne (a - 1)" "(cur + 1) mod n" True] 1(2-) by auto
  qed (use 1(2-) in auto)
qed

lemma frames_down_index:
  "frames_down n a cur ch = Some (a', cur', ch') \<Longrightarrow> 0 < n \<Longrightarrow> (ch \<longrightarrow> cur < n) \<Longrightarrow>
   (ch' \<longrightarrow> cur' < n) \<and> (\<not> ch' \<longrightarrow> cur' = cur \<and> \<not> ch)"
proof (induction n a cur ch "(a', cur', ch')" rule: frames_down.raw_induct [rotated -1, consumes 1])
  case (1 f n a cur ch)
  show ?case
  proof (cases "a \<le> - 1")
    case True
    then show ?thesis using 1(1) [of n "rne (a + 1)" "(cur + n - 1) mod n" True] 1(2-) by auto
  qed (use 1(2-) in auto)
qed

lemma whole_frames_index:
  assumes "whole_frames n a cur = Some (a', cur', ch')" "0 < n"
  shows "(ch' \<longrightarrow> cur' < n) \<and> (\<not> ch' \<longrightarrow> cur' = cur)"
proof -
  obtain b c d where u: "frames_up n a cur False = Some (b, c, d)" and w: "frames_down n b c d = Some (a', cur', ch')"
    using assms(1) unfolding whole_frames_def by (auto split: option.splits prod.splits)
  show ?thesis using frames_up_index [OF u assms(2)] frames_down_index [OF w assms(2)] by auto
qed

section \<open>The loops end and are exact\<close>

lemma frames_up_exact:
  assumes "float24 a" "a < 2 ^ 24" "1 \<le> a" "0 < n"
  shows "frames_up n a cur ch = Some (a - of_int \<lfloor>a\<rfloor>, (cur + nat \<lfloor>a\<rfloor>) mod n, True)"
  using assms
proof (induction "nat \<lfloor>a\<rfloor>" arbitrary: a cur ch)
  case 0
  then show ?case by (simp add: floor_le_zero not_less)
next
  case (Suc k)
  note e = rne_towards_zero [OF Suc.prems(1), of "- 1"]
  have r: "rne (a - 1) = a - 1" "float24 (a - 1)" using e Suc.prems by simp_all
  have step: "frames_up n a cur ch = frames_up n (a - 1) ((cur + 1) mod n) True"
    using Suc.prems(3) by (subst frames_up.simps) (simp add: r)
  show ?case
  proof (cases "1 \<le> a - 1")
    case True
    have "k = nat \<lfloor>a - 1\<rfloor>" using Suc.hyps(2) by simp
    then have "frames_up n (a - 1) ((cur + 1) mod n) True = Some (a - 1 - of_int \<lfloor>a - 1\<rfloor>, ((cur + 1) mod n + nat \<lfloor>a - 1\<rfloor>) mod n, True)"
      using Suc.prems r True by (intro Suc.hyps(1)) simp_all
    moreover have "nat \<lfloor>a\<rfloor> = Suc (nat \<lfloor>a - 1\<rfloor>)" using Suc.hyps(2) by simp
    ultimately show ?thesis by (simp add: step mod_add_left_eq)
  next
    case False
    then have "\<lfloor>a\<rfloor> = 1" using Suc.prems(3) by (simp add: floor_eq_iff)
    then show ?thesis using False by (subst step, subst frames_up.simps) simp
  qed
qed

lemma frames_down_exact:
  assumes "float24 a" "- (2 ^ 24) < a" "a \<le> - 1" "0 < n"
  shows "frames_down n a cur ch = Some (a - of_int \<lceil>a\<rceil>, nat ((int cur + \<lceil>a\<rceil>) mod int n), True)"
  using assms
proof (induction "nat (- \<lceil>a\<rceil>)" arbitrary: a cur ch)
  case 0
  then have "0 \<le> \<lceil>a\<rceil>" by simp
  then show ?case using 0 by (simp add: le_ceiling_iff)
next
  case (Suc k)
  note e = rne_towards_zero [OF Suc.prems(1), of 1]
  have r: "rne (a + 1) = a + 1" "float24 (a + 1)" using e Suc.prems by simp_all
  have step: "frames_down n a cur ch = frames_down n (a + 1) ((cur + n - 1) mod n) True"
    using Suc.prems(3) by (subst frames_down.simps) (simp add: r)
  have prev: "int ((cur + n - 1) mod n) = (int cur - 1) mod int n"
  proof -
    have "int ((cur + n - 1) mod n) = (int cur - 1 + int n) mod int n" using assms(4) by (simp add: zmod_int of_nat_diff algebra_simps)
    then show ?thesis by (metis mod_add_self2)
  qed
  show ?case
  proof (cases "a + 1 \<le> - 1")
    case True
    have "k = nat (- \<lceil>a + 1\<rceil>)" using Suc.hyps(2) by simp
    then have "frames_down n (a + 1) ((cur + n - 1) mod n) True
        = Some (a + 1 - of_int \<lceil>a + 1\<rceil>, nat ((int ((cur + n - 1) mod n) + \<lceil>a + 1\<rceil>) mod int n), True)"
      using Suc.prems r True by (intro Suc.hyps(1)) simp_all
    then show ?thesis unfolding step prev by (simp add: mod_add_left_eq)
  next
    case False
    then have "\<lceil>a\<rceil> = - 1" using Suc.prems(3) by (simp add: ceiling_eq_iff)
    then show ?thesis using False prev by (subst step, subst frames_down.simps) simp
  qed
qed

text \<open>The integer part, towards zero.\<close>

definition trunc :: "rat \<Rightarrow> int" where
  "trunc a = (if 0 \<le> a then \<lfloor>a\<rfloor> else \<lceil>a\<rceil>)"

lemma trunc_rest: "\<bar>a - of_int (trunc a)\<bar> < 1" "\<bar>a\<bar> < 1 \<longleftrightarrow> trunc a = 0" "\<bar>a - of_int (trunc a)\<bar> \<le> \<bar>a\<bar>"
proof -
  show "\<bar>a - of_int (trunc a)\<bar> < 1" unfolding trunc_def by (auto; linarith)
  show "\<bar>a\<bar> < 1 \<longleftrightarrow> trunc a = 0" unfolding trunc_def by (auto simp: floor_eq_iff ceiling_eq_iff)
  show "\<bar>a - of_int (trunc a)\<bar> \<le> \<bar>a\<bar>" unfolding trunc_def by (auto simp: abs_if) linarith+
qed

lemma whole_frames_exact:
  assumes "float24 a" "\<bar>a\<bar> < 2 ^ 24" "cur < n"
  shows "whole_frames n a cur = Some (a - of_int (trunc a), nat ((int cur + trunc a) mod int n), trunc a \<noteq> 0)"
proof -
  have n: "0 < n" using assms(3) by simp
  consider (up) "1 \<le> a" | (down) "a \<le> - 1" | (stay) "\<bar>a\<bar> < 1" by linarith
  then show ?thesis
  proof cases
    case up
    have "(cur + nat \<lfloor>a\<rfloor>) mod n = nat ((int cur + \<lfloor>a\<rfloor>) mod int n)"
      using up by (simp add: nat_mod_distrib nat_add_distrib)
    moreover have "\<not> a - of_int \<lfloor>a\<rfloor> \<le> - 1" "\<lfloor>a\<rfloor> \<noteq> 0" using up by linarith+
    ultimately show ?thesis
      using frames_up_exact [OF assms(1) _ up n, of cur False] assms(2) up
      by (simp add: whole_frames_def trunc_def frames_down.simps)
  next
    case down
    then have "frames_up n a cur False = Some (a, cur, False)" by (subst frames_up.simps) simp
    moreover have "\<lceil>a\<rceil> \<noteq> 0" using down by (simp add: ceiling_eq_iff)
    ultimately show ?thesis
      using frames_down_exact [OF assms(1) _ down n, of cur False] assms(2) down by (simp add: whole_frames_def trunc_def)
  next
    case stay
    then have "\<not> 1 \<le> a" "\<not> a \<le> - 1" by linarith+
    then have "frames_up n a cur False = Some (a, cur, False)" "frames_down n a cur False = Some (a, cur, False)"
      by (simp_all add: frames_up.simps [of n a] frames_down.simps [of n a])
    then show ?thesis using stay trunc_rest(2) [of a] assms(3) by (simp add: whole_frames_def)
  qed
qed

section \<open>Sizes\<close>

lemma bounded_product:
  "\<bar>x\<bar> \<le> 2 powi p \<Longrightarrow> \<bar>y\<bar> \<le> 2 powi q \<Longrightarrow> \<bar>rne (x * y)\<bar> \<le> 2 powi (p + q)"
  by (rule rne_bound) (simp add: abs_mult powi_split(1) mult_mono)

lemma rne_near: "\<bar>x\<bar> \<le> b \<Longrightarrow> \<bar>rne x - x\<bar> \<le> b / 16777216"
  using rne_error [of x] by simp

lemma bnc_volts_accurate:
  assumes "raw \<le> 1023"
  shows "\<bar>bnc_volts raw - (20 * (of_nat raw / 1023) - 10)\<bar> \<le> 1 / 100000"
proof -
  define x f g h :: rat where "x = of_nat raw / 1023" and "f = rne x" and "g = rne (f - 1 / 2)" and "h = rne (g * 2)"
  have x: "0 \<le> x" "x \<le> 1" using assms by (simp_all add: x_def)
  have f: "\<bar>f - x\<bar> \<le> 1 / 16777216" unfolding f_def using x by (intro rne_near) simp
  have g: "\<bar>g - (f - 1 / 2)\<bar> \<le> 1 / 16777216" unfolding g_def using x f by (intro rne_near) linarith
  have h: "\<bar>h - g * 2\<bar> \<le> 2 / 16777216" unfolding h_def using x f g by (intro rne_near) linarith
  have "\<bar>rne (h * 10) - h * 10\<bar> \<le> 20 / 16777216" using x f g h by (intro rne_near) linarith
  then have "\<bar>rne (h * 10) - (20 * x - 10)\<bar> \<le> 1 / 100000" using f g h by linarith
  then show ?thesis unfolding bnc_volts_def Let_def f_def g_def h_def x_def .
qed

lemma lroundf_near: "\<bar>of_int (lroundf y) - y\<bar> \<le> 1 / 2"
proof (cases "0 \<le> y")
  case True
  have "of_int \<lfloor>y + 1 / 2\<rfloor> \<le> y + 1 / 2" "y + 1 / 2 < of_int \<lfloor>y + 1 / 2\<rfloor> + 1" by linarith+
  then show ?thesis unfolding lroundf_def abs_le_iff using True by (simp only: if_True) linarith
next
  case False
  have "of_int \<lfloor>1 / 2 - y\<rfloor> \<le> 1 / 2 - y" "1 / 2 - y < of_int \<lfloor>1 / 2 - y\<rfloor> + 1" by linarith+
  then show ?thesis unfolding lroundf_def abs_le_iff using False by (simp only: if_False of_int_minus) linarith
qed

text \<open>C40: the two analog inputs are reported right: for every 10-bit reading the signed 16-bit
  millivolts in the reply are within 0.52 mV of the voltage the front end maps to that reading,
  and inside the input range, whatever single precision does to the intermediate results.\<close>

theorem analog_in_accurate:
  assumes "raw \<le> 1023"
  shows "\<bar>of_int (sint (bnc_mv raw)) - (20000 * (of_nat raw / 1023) - 10000) :: rat\<bar> \<le> 13 / 25 \<and> \<bar>sint (bnc_mv raw)\<bar> \<le> 10000"
proof -
  define v m x where "v = bnc_volts raw" and "m = rne (v * 1000)" and "x = (of_nat raw / 1023 :: rat)"
  have x: "0 \<le> x" "x \<le> 1" using assms by (simp_all add: x_def)
  have v: "\<bar>v - (20 * x - 10)\<bar> \<le> 1 / 100000" using bnc_volts_accurate [OF assms] by (simp add: v_def x_def)
  have m: "\<bar>m - v * 1000\<bar> \<le> 11000 / 16777216" unfolding m_def using x v by (intro rne_near) linarith
  have near: "\<bar>of_int (lroundf m) - (20000 * x - 10000)\<bar> \<le> 13 / 25" using lroundf_near [of m] v m by linarith
  then have "of_int (lroundf m) \<le> 20000 * x - 10000 + 13 / 25" "20000 * x - 10000 - 13 / 25 \<le> of_int (lroundf m)"
    unfolding abs_le_iff by linarith+
  then have "of_int (lroundf m) < (of_int 10001 :: rat)" "(of_int (- 10001) :: rat) < of_int (lroundf m)" using x
    by (simp_all only: of_int_numeral of_int_minus)
  then have r: "\<bar>lroundf m\<bar> \<le> 10000" by (simp only: of_int_less_iff)
  then have "sint (of_int (lroundf m) :: u16) = lroundf m"
    by (simp add: signed_of_int signed_take_bit_int_eq_self)
  then have "sint (bnc_mv raw) = lroundf m" by (simp add: bnc_mv_def m_def v_def)
  then show ?thesis using near r by (simp add: x_def)
qed

theorem analog_in_accurate_witness: "\<bar>sint (bnc_mv 700)\<bar> \<le> 10000"
  using analog_in_accurate [of 700] by simp

section \<open>A sample of mode 4\<close>

lemma sample_frames_bound:
  assumes "raw \<le> 1023" "\<bar>g\<bar> \<le> 32768" "unat dt \<le> 2 ^ 24"
  shows "\<bar>sample_frames raw g dt\<bar> \<le> 2 powi 21"
proof -
  define x where "x = (of_nat raw / 1023 :: rat)"
  have "0 \<le> x" "x \<le> 1" "\<bar>bnc_volts raw - (20 * x - 10)\<bar> \<le> 1 / 100000"
    using bnc_volts_accurate [OF assms(1)] assms(1) by (simp_all add: x_def)
  then have "\<bar>bnc_volts raw\<bar> \<le> 16" by linarith
  then have "\<bar>bnc_volts raw\<bar> \<le> 2 powi 4" by simp
  moreover have "\<bar>of_int g :: rat\<bar> \<le> of_int 32768" using assms(2) by (simp only: of_int_abs [symmetric] of_int_le_iff)
  then have "\<bar>of_int g / 10 :: rat\<bar> \<le> 2 powi 12" by simp
  then have "\<bar>rne (of_int g / 10)\<bar> \<le> 2 powi 12" by (rule rne_bound)
  ultimately have fps: "\<bar>rne (bnc_volts raw * rne (of_int g / 10))\<bar> \<le> 2 powi (4 + 12)" by (rule bounded_product)
  have "of_nat (unat dt) \<le> (of_nat (2 ^ 24) :: rat)" using assms(3) by (simp only: of_nat_le_iff)
  moreover have "\<bar>of_nat (unat dt) :: rat\<bar> = of_nat (unat dt)" by (rule abs_of_nonneg, rule of_nat_0_le_iff)
  ultimately have "\<bar>of_nat (unat dt) :: rat\<bar> \<le> 2 powi 24" by simp
  from rne_bound [OF this] have "\<bar>rne (of_nat (unat dt)) / 1000000\<bar> \<le> 2 powi 5" by simp
  from bounded_product [OF fps rne_bound [OF this]] show ?thesis by (simp add: sample_frames_def Let_def)
qed

text \<open>Loading a frame touches neither the accumulator nor the running of the loop.\<close>

definition mode4_view :: "('c, 'h, 'w) cp \<Rightarrow> rat \<times> bool" where
  "mode4_view s = (frame_accum s, halted s)"

lemma mode4_kept [simp]:
  "mode4_view (hmark E op a s) = mode4_view s" "mode4_view (hclear E s) = mode4_view s" "mode4_view (tstate E k cd ar s) = mode4_view s"
  "mode4_view (disarm E s) = mode4_view s" "mode4_view (fst (arm E hz s)) = mode4_view s" "mode4_view (invalidateFrameBuf E s) = mode4_view s"
  "mode4_view (patchDispMode s) = mode4_view s" "mode4_view (patchTrialDuty s) = mode4_view s" "mode4_view (fst (writeDacMv E mv s)) = mode4_view s"
  "mode4_view (flushOpenReads E s) = mode4_view s"
  by (auto simp: mode4_view_def hmark_def hclear_def tstate_def disarm_def arm_def invalidateFrameBuf_def patchDispMode_def
    patchTrialDuty_def writeDacMv_def flushOpenReads_def Let_def split: prod.splits)

lemma mode4_upd [simp]:
  "mode4_view (s\<lparr>blk := n\<rparr>) = mode4_view s" "mode4_view (s\<lparr>frame_byte_count := n, frame_buf_is_frame := q, frame_src_flags := fl\<rparr>) = mode4_view s"
  "mode4_view (s\<lparr>frame_buf := b, frame_byte_count := m, cstate := cs, error_until_ms := u, tick := k\<rparr>) = mode4_view s"
  "mode4_view (s\<lparr>sd_cache_ok := q\<rparr>) = mode4_view s"
  by (simp_all add: mode4_view_def)

lemma showError_view [simp]: "mode4_view (showError E c t) = mode4_view t"
  by (simp add: showError_def Let_def case_prod_beta)

lemma mode4_loadFrame [simp]: "mode4_view (fst (loadFrame E i s)) = mode4_view s"
proof -
  have t: "mode4_view (fst (timed_read E i t)) = mode4_view t" for t :: "('a, 'b, 'c) cp"
    by (auto simp: mode4_view_def timed_read_def sd_slow_records_def Let_def tstate_def hmark_def hclear_def split: prod.splits)
  have o: "mode4_view (fst (apply_outputs E i t)) = mode4_view t" for t :: "('a, 'b, 'c) cp"
    by (simp add: apply_outputs_def applyAoLut_def Let_def mode4_view_def writeDacMv_def)
  have l: "mode4_view (frame_loaded E i t) = mode4_view t" for t :: "('a, 'b, 'c) cp"
    by (simp add: frame_loaded_def Let_def case_prod_beta o)
  have b: "mode4_view (begin_load E t) = mode4_view t" for t :: "('a, 'b, 'c) cp"
    by (simp add: begin_load_def mode4_view_def)
  show ?thesis by (simp add: loadFrame_eq t l b)
qed

text \<open>What one sample adds up to, before whole frames are taken off.\<close>

definition next_accum :: "('c, 'h, 'w) env \<Rightarrow> ('c, 'h, 'w) cp \<Rightarrow> rat" where
  "next_accum E s = rne (frame_accum s + sample_frames (adc E (tick s + 1)) (gain s) (us E (tick s) - last_sample_us s))"

lemma closed_loop_eq:
  assumes "pat_frames s \<noteq> 0" "\<not> us E (tick s) - last_sample_us s < 2000"
  shows "serviceClosedLoop E s =
    (case whole_frames (pat_frames s) (next_accum E s) (cur_frame s) of
       None \<Rightarrow> s\<lparr>last_sample_us := us E (tick s), tick := tick s + 2, halted := True\<rparr>
     | Some (a, cur, changed) \<Rightarrow>
         let u = s\<lparr>last_sample_us := us E (tick s), tick := tick s + 2, frame_accum := a, cur_frame := cur\<rparr>
         in if changed then fst (loadFrame E cur u) else u)"
  using assms by (simp add: serviceClosedLoop_def Let_def next_accum_def microseconds_per_second_def split: option.split)

text \<open>C10: a mode-4 sample neither hangs nor drifts. For every 10-bit reading, every 16-bit gain and every
  pause up to 16.7 seconds since the last sample, both accumulator loops end; the index moves by
  exactly the whole frames of the (single-precision) accumulator, modulo the pattern, and what is
  kept is exactly its fraction, again a float of magnitude below one, so that the next sample
  finds the same precondition.\<close>

theorem closed_loop_exact:
  assumes "cur_frame s < pat_frames s" "float24 (frame_accum s)" "\<bar>frame_accum s\<bar> < 1"
    and "adc E (tick s + 1) \<le> 1023" "\<bar>gain s\<bar> \<le> 32768"
    and "\<not> us E (tick s) - last_sample_us s < 2000" "unat (us E (tick s) - last_sample_us s) \<le> 2 ^ 24"
  shows "let t = serviceClosedLoop E s; k = trunc (next_accum E s) in
      halted t = halted s
      \<and> cur_frame t = nat ((int (cur_frame s) + k) mod int (pat_frames s))
      \<and> frame_accum t + of_int k = next_accum E s \<and> \<bar>frame_accum t\<bar> < 1 \<and> float24 (frame_accum t)"
proof -
  define a where "a = next_accum E s"
  have f: "float24 a" unfolding a_def next_accum_def by (rule float24_rne)
  have "\<bar>sample_frames (adc E (tick s + 1)) (gain s) (us E (tick s) - last_sample_us s)\<bar> \<le> 2 powi 21"
    by (rule sample_frames_bound [OF assms(4,5,7)])
  then have "\<bar>frame_accum s + sample_frames (adc E (tick s + 1)) (gain s) (us E (tick s) - last_sample_us s)\<bar> \<le> 2 powi 22"
    using assms(3) by simp
  from rne_bound [OF this] have "\<bar>a\<bar> < 2 ^ 24" by (simp add: a_def next_accum_def)
  note w = whole_frames_exact [OF f this assms(1)]
  define u where "u = s\<lparr>last_sample_us := us E (tick s), tick := tick s + 2, frame_accum := a - of_int (trunc a),
      cur_frame := nat ((int (cur_frame s) + trunc a) mod int (pat_frames s))\<rparr>"
  have t: "serviceClosedLoop E s = (if trunc a \<noteq> 0 then fst (loadFrame E (cur_frame u) u) else u)"
    using closed_loop_eq [of s E] assms(1,6) w by (simp add: a_def [symmetric] u_def Let_def)
  have v: "mode4_view (serviceClosedLoop E s) = mode4_view u" "cur_frame (serviceClosedLoop E s) = cur_frame u" by (simp_all add: t)
  have "float24 (a + of_int (- trunc a))"
    using \<open>\<bar>a\<bar> < 2 ^ 24\<close> trunc_rest(3) [of a] by (intro rne_towards_zero(1) [OF f]) simp_all
  then show ?thesis
    using v trunc_rest(1) [of a] by (simp add: Let_def a_def [symmetric] u_def mode4_view_def)
qed

end
