(* ===== verification/EngineSteps.thy ===== *)
theory EngineSteps
  imports EngineInv ClosedLoop
begin

text \<open>
  Every service call and every display command keeps the invariant of the display engine.
\<close>

section \<open>Leaving the engine alone\<close>

text \<open>The fields the invariant looks at; an operation that keeps them keeps the invariant.\<close>

definition eng :: "('c, 'h, 'w) cp \<Rightarrow> byte list \<times> nat \<times> nat \<times> nat \<times> nat \<times> byte \<times> ('c, 'h) sd \<times> spi \<times> arena_state" where
  "eng s = (frame_buf s, blk s, frame_byte_count s, cur_frame s, pat_frames s, panel_disp_mode s, sd_st s, spi_st s, cstate s)"

lemma same_engine_ok: "engine_ok b s \<Longrightarrow> eng s' = eng s \<Longrightarrow> engine_ok b s'"
  by (simp add: eng_def engine_ok_def geometry_def playback_def)

lemma same_data_ok: "data_ok b s \<Longrightarrow> eng s' = eng s \<Longrightarrow> data_ok b s'"
  by (simp add: eng_def data_ok_def geometry_def playback_def)

lemma eng_cstate: "eng s' = eng s \<Longrightarrow> cstate s' = cstate s"
  by (simp add: eng_def)

lemma engineD: "engine_ok b s \<Longrightarrow> data_ok b s"
  by (simp add: engine_data)

lemma eng_upd [simp]:
  "eng (s\<lparr>trial_end_ms := x_trial_end_ms\<rparr>) = eng s"
  "eng (s\<lparr>last_advance_us := x_last_advance_us\<rparr>) = eng s"
  "eng (s\<lparr>last_sample_us := x_last_sample_us\<rparr>) = eng s" "eng (s\<lparr>hs := x_hs\<rparr>) = eng s"
  "eng (s\<lparr>ao := x_ao\<rparr>) = eng s" "eng (s\<lparr>xf := x_xf\<rparr>) = eng s"
  "eng (s\<lparr>net := x_net\<rparr>) = eng s" "eng (s\<lparr>ser := x_ser\<rparr>) = eng s"
  "eng (s\<lparr>current_source := x_current_source\<rparr>) = eng s" "eng (s\<lparr>pins := x_pins\<rparr>) = eng s"
  "eng (s\<lparr>psram_start := x_psram_start\<rparr>) = eng s" "eng (s\<lparr>psram_count := x_psram_count\<rparr>) = eng s"
  "eng (s\<lparr>psram_offset := x_psram_offset\<rparr>) = eng s"
  "eng (s\<lparr>refresh_rate_hz := x_refresh_rate_hz\<rparr>) = eng s"
  "eng (s\<lparr>refresh_rate_explicit := x_refresh_rate_explicit\<rparr>) = eng s"
  "eng (s\<lparr>trial_duty := x_trial_duty\<rparr>) = eng s" "eng (s\<lparr>pattern_id := x_pattern_id\<rparr>) = eng s"
  "eng (s\<lparr>frame_rate_hz := x_frame_rate_hz\<rparr>) = eng s" "eng (s\<lparr>gain := x_gain\<rparr>) = eng s"
  "eng (s\<lparr>tel_last_frame := x_tel_last_frame\<rparr>) = eng s"
  "eng (s\<lparr>tel_last_pattern := x_tel_last_pattern\<rparr>) = eng s"
  "eng (s\<lparr>frame_buf_is_frame := x_frame_buf_is_frame\<rparr>) = eng s"
  "eng (s\<lparr>sd_cache_ok := x_sd_cache_ok\<rparr>) = eng s"
  "eng (s\<lparr>sd_skip_same_index := x_sd_skip_same_index\<rparr>) = eng s"
  "eng (s\<lparr>last_cmd_rx_us := x_last_cmd_rx_us\<rparr>) = eng s"
  "eng (s\<lparr>pending_req_us := x_pending_req_us\<rparr>) = eng s"
  "eng (s\<lparr>pending_req_valid := x_pending_req_valid\<rparr>) = eng s"
  "eng (s\<lparr>frame_req_us := x_frame_req_us\<rparr>) = eng s"
  "eng (s\<lparr>frame_src_flags := x_frame_src_flags\<rparr>) = eng s"
  "eng (s\<lparr>buf_presented := x_buf_presented\<rparr>) = eng s"
  "eng (s\<lparr>superseded_pending := x_superseded_pending\<rparr>) = eng s"
  "eng (s\<lparr>open_reads := x_open_reads\<rparr>) = eng s" "eng (s\<lparr>dio_roles := x_dio_roles\<rparr>) = eng s"
  "eng (s\<lparr>error_until_ms := x_error_until_ms\<rparr>) = eng s"
  "eng (s\<lparr>late_boot_blank_pending := x_late_boot_blank_pending\<rparr>) = eng s"
  "eng (s\<lparr>tel_st := x_tel_st\<rparr>) = eng s" "eng (s\<lparr>wd_st := x_wd_st\<rparr>) = eng s"
  "eng (s\<lparr>crumb := x_crumb\<rparr>) = eng s" "eng (s\<lparr>net_pipe := x_net_pipe\<rparr>) = eng s"
  "eng (s\<lparr>ser_pipe := x_ser_pipe\<rparr>) = eng s" "eng (s\<lparr>dbg_on := x_dbg_on\<rparr>) = eng s"
  "eng (s\<lparr>session_nonce := x_session_nonce\<rparr>) = eng s" "eng (s\<lparr>halted := x_halted\<rparr>) = eng s"
  "eng (s\<lparr>isr := x_isr\<rparr>) = eng s" "eng (s\<lparr>tick := x_tick\<rparr>) = eng s"
  by (simp_all add: eng_def)

lemma eng_calls [simp]:
  "eng (hmark E op a s) = eng s" "eng (hclear E s) = eng s" "eng (tstate E k cd ar s) = eng s"
  "eng (reply c st p s) = eng s" "eng (fst (writeDacMv E mv s)) = eng s" "eng (fst (applyAoLut E i s)) = eng s"
  "eng (frame_telemetry E t0 s) = eng s"
  by (simp_all add: eng_def reply_def on_source_def applyAoLut_def frame_telemetry_def split: source_id.splits)

lemma engine_same [simp]:
  "engine_ok b (hmark E op a s) = engine_ok b s" "engine_ok b (hclear E s) = engine_ok b s"
  "engine_ok b (tstate E k cd ar s) = engine_ok b s" "engine_ok b (reply c st p s) = engine_ok b s"
  "engine_ok b (frame_telemetry E t0 s) = engine_ok b s"
  by (auto elim: same_engine_ok)

lemma engine_tick [simp]: "engine_ok b (s\<lparr>tick := n\<rparr>) = engine_ok b s"
  by (auto elim: same_engine_ok)

section \<open>Services\<close>

lemma transmit_ok:
  assumes "engine_ok (board E) s"
  shows "engine_ok (board E) (transmitOnRefresh E s)"
proof -
  have w: "wired b (x\<lparr>refreshFlag := f\<rparr>) = wired b x" for b x f by (simp add: wired_def gate_pins_def)
  have "engine_ok (board E) ((send_frame E (s\<lparr>spi_st := (spi_st s)\<lparr>refreshFlag := False\<rparr>, tick := n\<rparr>))\<lparr>buf_presented := True\<rparr>)" for n
    using assms by (simp add: engine_ok_def geometry_def playback_def w)
  then show ?thesis
    using assms by (simp add: transmitOnRefresh_def Let_def)
qed

lemma load_index_ok:
  assumes "engine_ok (board E) s" "reads_bounded (lib E)" "k < pat_frames s" "eng s' = eng (s\<lparr>cur_frame := k\<rparr>)"
  shows "engine_ok (board E) (fst (loadFrame E i s'))"
proof -
  have "engine_ok (board E) (s\<lparr>cur_frame := k\<rparr>)"
    using assms by (simp add: engine_ok_def geometry_def playback_def)
  from loadFrame_engine [OF same_engine_ok [OF this assms(4)] assms(2)] show ?thesis .
qed

lemma wrapped_index: "0 < n \<Longrightarrow> nat (x mod int n) < n"
  by (simp add: nat_less_iff)

lemma openLoop_ok:
  assumes "engine_ok (board E) s" "reads_bounded (lib E)"
  shows "engine_ok (board E) (serviceOpenLoop E s)"
proof (cases "frame_rate_hz s = 0 \<or> pat_frames s \<le> 1")
  case True
  then show ?thesis using assms by (simp add: serviceOpenLoop_def)
next
  case False
  then have r: "advance_index (cur_frame s) (frame_rate_hz s) k (pat_frames s) < pat_frames s" for k
    unfolding advance_index_def by (intro wrapped_index) simp
  have "engine_ok (board E) (fst (loadFrame E (cur_frame t) t))"
    if "t = s\<lparr>tick := n, last_advance_us := u, cur_frame := advance_index (cur_frame s) (frame_rate_hz s) k (pat_frames s)\<rparr>" for n u k t
    by (rule load_index_ok [OF assms r [of k]]) (simp add: that eng_def)
  then show ?thesis
    using False assms unfolding serviceOpenLoop_def Let_def case_prod_beta by simp
qed

lemma psram_frame_ok:
  assumes "data_ok (board E) s" "cstate s \<noteq> ALL_OFF \<or> armed_hz (spi_st s) = 0"
  shows "engine_ok (board E) (buildPsramFrame E i s)"
proof -
  let ?b = "board E" and ?c = "disp_opcode_with_mode cmd_disp_psram_oneshot (panel_disp_mode s)"
  let ?img = "frame_image (length (frame_buf s)) (0x46 # 0x52 # put16 i) (panel_count_per_frame ?b) 4 (psram_block i ?c)"
  have l: "length (frame_buf s) = frame_buf_byte_count_max ?b" using assms by (simp add: data_ok_def geometry_def)
  have p: "length (0x46 # 0x52 # put16 i) = 4" by (simp add: put16_def)
  have img: "length ?img = frame_buf_byte_count_max ?b"
    using frame_image_blocks [of "psram_block i ?c" 4 "panel_count_per_frame ?b" "length (frame_buf s)" "0x46 # 0x52 # put16 i"]
      cap_fits [of ?b] l p by simp
  have f: "blk (buildPsramFrame E i s) = 4" "frame_buf (buildPsramFrame E i s) = ?img"
    "frame_byte_count (buildPsramFrame E i s) = 4 + panel_count_per_frame ?b * 4"
    "cur_frame (buildPsramFrame E i s) = cur_frame s" "pat_frames (buildPsramFrame E i s) = pat_frames s"
    "panel_disp_mode (buildPsramFrame E i s) = panel_disp_mode s" "sd_st (buildPsramFrame E i s) = sd_st s"
    "spi_st (buildPsramFrame E i s) = spi_st s" "cstate (buildPsramFrame E i s) = cstate s"
    using cap_fits [of ?b]
    by (simp_all add: buildPsramFrame_def Let_def block_byte_count_psram_def stream_frame_prefix_byte_count_def)
  show "engine_ok ?b (buildPsramFrame E i s)"
    using assms img by (auto simp add: engine_ok_def data_ok_def geometry_def playback_def f)
qed

lemma engine_armed: "engine_ok b s \<Longrightarrow> cstate s \<noteq> ALL_OFF \<or> armed_hz (spi_st s) = 0"
  by (auto simp: engine_data)

lemma psramPlay_ok:
  assumes "engine_ok (board E) s"
  shows "engine_ok (board E) (servicePsramPlay E s)"
proof -
  have "engine_ok (board E) (buildPsramFrame E i s')" if "eng s' = eng s" for i s'
    using same_engine_ok [OF assms that] by (intro psram_frame_ok engineD engine_armed)
  then show ?thesis
    using assms by (simp add: servicePsramPlay_def Let_def case_prod_beta)
qed

lemma closedLoop_ok:
  assumes "engine_ok (board E) s" "reads_bounded (lib E)"
  shows "engine_ok (board E) (serviceClosedLoop E s)"
proof (cases "pat_frames s = 0 \<or> us E (tick s) - last_sample_us s < 2000")
  case True
  moreover have "engine_ok (board E) (s\<lparr>tick := tick s + 1\<rparr>)" by (rule same_engine_ok [OF assms(1)]) simp
  ultimately show ?thesis using assms by (auto simp: serviceClosedLoop_def Let_def microseconds_per_second_def)
next
  case False
  then have eq: "serviceClosedLoop E s = (case whole_frames (pat_frames s) (next_accum E s) (cur_frame s) of
       None \<Rightarrow> s\<lparr>last_sample_us := us E (tick s), tick := tick s + 2, halted := True\<rparr>
     | Some (a, cur, changed) \<Rightarrow>
         let u = s\<lparr>last_sample_us := us E (tick s), tick := tick s + 2, frame_accum := a, cur_frame := cur\<rparr>
         in if changed then fst (loadFrame E cur u) else u)"
    by (intro closed_loop_eq) auto
  show ?thesis
  proof (cases "whole_frames (pat_frames s) (next_accum E s) (cur_frame s)")
    case None
    then show ?thesis unfolding eq by (auto intro: same_engine_ok [OF assms(1)])
  next
    case (Some r)
    then obtain a cur changed where r: "whole_frames (pat_frames s) (next_accum E s) (cur_frame s) = Some (a, cur, changed)" by (cases r) auto
    note i = whole_frames_index [OF r]
    let ?u = "s\<lparr>last_sample_us := us E (tick s), tick := tick s + 2, frame_accum := a, cur_frame := cur\<rparr>"
    have "changed \<Longrightarrow> engine_ok (board E) (fst (loadFrame E (cur_frame ?u) ?u))"
      by (rule load_index_ok [OF assms, of cur]) (use False i in \<open>simp_all add: eng_def\<close>)
    moreover have "\<not> changed \<Longrightarrow> engine_ok (board E) ?u" by (rule same_engine_ok [OF assms(1)]) (use False i in \<open>simp add: eng_def\<close>)
    ultimately show ?thesis unfolding eq r by (simp add: Let_def)
  qed
qed

lemma allOff_ok: "engine_ok (board E) s \<Longrightarrow> eng s' = eng s \<Longrightarrow> engine_ok (board E) (enterAllOff E s')"
  by (intro enterAllOff_ok data_pre engineD) (rule same_engine_ok)

lemma trialTimer_ok: "engine_ok (board E) s \<Longrightarrow> engine_ok (board E) (serviceTrialTimer E s)"
  by (simp add: serviceTrialTimer_def Let_def allOff_ok)

lemma aoLut_ok: "engine_ok (board E) s \<Longrightarrow> engine_ok (board E) (serviceAoLut E s)"
  by (erule same_engine_ok) (simp add: serviceAoLut_def Let_def)

lemma errorHold_ok:
  assumes "engine_ok (board E) t"
  shows "engine_ok (board E) (if expired now (error_until_ms t') then enterAllOff E (t\<lparr>tick := n\<rparr>) else t\<lparr>tick := n\<rparr>)"
  using assms by (simp add: allOff_ok)

lemma display_ok:
  assumes "engine_ok (board E) s" "reads_bounded (lib E)"
  shows "engine_ok (board E) (serviceDisplay E s)"
proof -
  let ?t = "serviceTrialTimer E (serviceAoLut E s)"
  have t: "engine_ok (board E) ?t" by (intro trialTimer_ok aoLut_ok assms)
  have "engine_ok (board E) (transmitOnRefresh E ?t)" "engine_ok (board E) (transmitOnRefresh E (serviceOpenLoop E ?t))"
    "engine_ok (board E) (transmitOnRefresh E (serviceClosedLoop E ?t))"
    "engine_ok (board E) (transmitOnRefresh E (servicePsramPlay E ?t))"
    by (intro transmit_ok openLoop_ok closedLoop_ok psramPlay_ok t assms)+
  note r = this errorHold_ok [OF this(1)]
  show ?thesis
    unfolding serviceDisplay_def Let_def by (cases "cstate ?t") (simp_all only: arena_state.case r t closedLoop_ok [OF t assms(2)] split: if_split, simp_all)
qed

lemma lateBlank_ok:
  assumes "engine_ok (board E) s"
  shows "engine_ok (board E) (serviceLateBootBlank E s)"
proof -
  have "engine_ok (board E) (s\<lparr>tick := n, late_boot_blank_pending := False\<rparr>)" for n
    by (rule same_engine_ok [OF assms]) simp
  then show ?thesis
    using assms by (simp add: serviceLateBootBlank_def Let_def allOff_ok)
qed

section \<open>Display commands\<close>

lemma default_rate_eng [simp]: "eng (default_rate E s) = eng s"
  by (simp add: default_rate_def)

lemma arm_ok: "engine_ok (board E) s \<Longrightarrow> cstate s \<noteq> ALL_OFF \<Longrightarrow> engine_ok (board E) (fst (arm E hz s))"
  by (simp add: engine_ok_def geometry_def playback_def)

lemma showErr_ok: "engine_ok (board E) s \<Longrightarrow> engine_ok (board E) (showError E c s)"
  by (intro showError_ok data_pre engineD)

lemma trialParams_ok:
  assumes "engine_ok (board E) s" "reads_bounded (lib E)"
  shows "engine_ok (board E) (handleTrialParams E d s)"
proof -
  have m: "mode \<noteq> ALL_OFF" if "trial_target x = Some mode" for x mode
    using that by (auto split: if_splits)
  have p: "engine_ok (board E) (fst (enterPatternMode E mode pid rate g i k (s\<lparr>trial_duty := du\<rparr>)))"
    if "trial_target x = Some mode" for x mode pid rate g i k du
    by (intro enterPattern_ok same_data_ok [OF engineD [OF assms(1)]] assms m [OF that]) simp
  have u: "engine_ok b (t\<lparr>trial_duty := 0\<rparr>) = engine_ok b t" for b and t :: "('a, 'b, 'c) cp"
    by (auto elim: same_engine_ok)
  show ?thesis
    using p assms showErr_ok [OF assms(1)]
    by (simp add: handleTrialParams_def Let_def case_prod_beta u del: trial_target.simps split: option.splits)
qed

lemma position_ok:
  assumes "engine_ok (board E) s"
  shows "engine_ok (board E) (show_position E s)"
proof -
  define t where "t = default_rate E ((if cstate s \<noteq> SHOW_FRAME
     then tstate E ST_STATE_CHANGE (state_code SHOW_FRAME) (of_nat (pattern_id s)) s else s)\<lparr>cstate := SHOW_FRAME\<rparr>)"
  have t: "engine_ok (board E) t" "cstate t = SHOW_FRAME"
    using assms by (simp_all add: t_def engine_ok_def geometry_def playback_def)
  have a: "engine_ok (board E) (fst (arm E hz (hmark E op x t)))" for hz op x
    using t by (intro arm_ok) simp_all
  show ?thesis
    unfolding show_position_def Let_def case_prod_beta respond70_def
    using t a by (simp flip: t_def)
qed

lemma setFramePosition_ok:
  assumes "engine_ok (board E) s" "reads_bounded (lib E)"
  shows "engine_ok (board E) (handleSetFramePosition E d s)"
proof -
  let ?h = "s\<lparr>hs := (hs s)\<lparr>cmd70_count := cmd70_count (hs s) + 1\<rparr>\<rparr>"
  have h: "engine_ok (board E) ?h" by (rule same_engine_ok [OF assms(1)]) simp
  have m: "engine_ok (board E) (hmark E OP_CMD_PRELOAD SET_FRAME_POSITION_CMD ?h)" using h by simp
  have l: "engine_ok (board E) (fst (loadFrame E k
      ((hmark E OP_CMD_PRELOAD SET_FRAME_POSITION_CMD ?h)\<lparr>cur_frame := k, pending_req_us := u, pending_req_valid := True\<rparr>)))"
    if "k < pat_frames s" for k u
    by (rule load_index_ok [OF m assms(2), of k]) (simp_all add: that eng_def)
  have hit: "engine_ok (board E) ((hmark E OP_CMD_PRELOAD SET_FRAME_POSITION_CMD ?h)\<lparr>hs := x\<rparr>)" for x
    by (rule same_engine_ok [OF m]) simp
  show ?thesis
    unfolding handleSetFramePosition_def Let_def case_prod_beta respond70_def
    using h l hit showErr_ok [OF h] position_ok [OF l] by (simp add: not_le)
qed

lemma psramIndex_ok:
  assumes "engine_ok (board E) s"
  shows "engine_ok (board E) (handleDisplayPsramIndex E d s)"
proof -
  have b: "engine_ok (board E) (buildPsramFrame E i t)" if "eng t = eng s" for i t
    using same_engine_ok [OF assms that] by (intro psram_frame_ok engineD engine_armed)
  have e: "engine_ok (board E) (enter_psram E t) \<and> cstate (enter_psram E t) = PSRAM_PLAY" if "engine_ok (board E) t" for t
    using that by (simp add: enter_psram_def Let_def engine_ok_def geometry_def playback_def)
  have a: "engine_ok (board E) (fst (arm E hz (default_rate E (enter_psram E (buildPsramFrame E i t)))))"
    if "eng t = eng s" for hz i t
    using e [OF b [OF that]] same_engine_ok [OF conjunct1 [OF e [OF b [OF that]]] default_rate_eng]
    by (intro arm_ok) simp_all
  show ?thesis
    unfolding handleDisplayPsramIndex_def Let_def using showErr_ok [OF assms] a by simp
qed

lemma psramPlayCmd_ok:
  assumes "engine_ok (board E) s"
  shows "engine_ok (board E) (handlePsramPlay E d s)"
proof -
  have b: "engine_ok (board E) (buildPsramFrame E i t)" if "eng t = eng s" for i t
    using same_engine_ok [OF assms that] by (intro psram_frame_ok engineD engine_armed)
  have e: "engine_ok (board E) (enter_psram E t) \<and> cstate (enter_psram E t) = PSRAM_PLAY" if "engine_ok (board E) t" for t
    using that by (simp add: enter_psram_def Let_def engine_ok_def geometry_def playback_def)
  have a: "engine_ok (board E) (fst (arm E hz ((enter_psram E (buildPsramFrame E i t))\<lparr>last_advance_us := u, tick := n\<rparr>)))"
    if "eng t = eng s" for hz i t u n
    using e [OF b [OF that]] by (intro arm_ok same_engine_ok [OF conjunct1 [OF e [OF b [OF that]]]]) simp_all
  show ?thesis
    unfolding handlePsramPlay_def Let_def using showErr_ok [OF assms] a by simp
qed

lemma stream_sizes:
  "stream_block_size b n = Some k \<Longrightarrow> n = 4 + panel_count_per_frame b * k \<and> (k = 53 \<or> k = 203)"
  by (auto simp: stream_block_size_def stream_frame_byte_count_gs2_def stream_frame_byte_count_gs16_def
      panel_block_byte_count_gs2_def panel_block_byte_count_gs16_def stream_frame_prefix_byte_count_def
      block_byte_count_gs2_def block_byte_count_gs16_def split: if_splits)

lemma stream_ok:
  assumes "engine_ok (board E) s"
  shows "engine_ok (board E) (handleStreamCommand E d n s)"
proof (cases "stream_block_size (board E) (n - stream_header_byte_count)")
  case None
  then show ?thesis using allOff_ok [OF assms refl] by (simp add: handleStreamCommand_def Let_def)
next
  case (Some k)
  note k = stream_sizes [OF Some]
  let ?bytes = "n - stream_header_byte_count"
  define t where "t = (invalidateFrameBuf E s)\<lparr>frame_buf := blit (frame_buf (invalidateFrameBuf E s)) 0 (slice d stream_header_byte_count ?bytes),
                                    frame_byte_count := ?bytes, blk := k\<rparr>"
  have "?bytes \<le> length (frame_buf s)"
    using k cap_fits [of "board E"] assms by (auto simp: engine_ok_def geometry_def)
  then have "length (slice d stream_header_byte_count ?bytes) \<le> length (frame_buf s)" by (simp add: slice_def)
  then have fb: "length (frame_buf t) = length (frame_buf s)" by (simp add: t_def)
  have kb: "k \<in> {53, 203, 4}" "?bytes = 4 + panel_count_per_frame (board E) * k" using k by auto
  have t: "data_ok (board E) t" "cstate t = cstate s" "spi_st t = spi_st s"
    using assms kb fb by (simp_all add: data_ok_def engine_ok_def geometry_def playback_def) (simp_all add: t_def)
  have g: "geometry (board E) t" using t(1) by (simp add: data_ok_def)
  have p: "data_ok (board E) (patchDispMode t)"
    using t(1) patch_lengths [OF g] by (simp add: data_ok_def geometry_def playback_def)
  have q: "engine_ok (board E) (patchDispMode t)"
    using p assms t by (auto simp: engine_data)
  have r: "engine_ok (board E) ((patchDispMode t)\<lparr>refresh_rate_hz := x\<rparr>)" for x by (rule same_engine_ok [OF q]) simp
  have e: "engine_ok (board E) (enterStreamingFrame E k u)" if "engine_ok (board E) u" "blk u = k" for u
    by (intro enterStreaming_ok engineD that)
  have bk: "blk t = k" by (simp add: t_def)
  show ?thesis
    unfolding handleStreamCommand_def Let_def Some option.case t_def [symmetric]
    using q r e [OF q] e [OF r] bk by simp
qed

end
