(* ===== verification/Transfers.thy ===== *)
theory Transfers
  imports Commands
begin

text \<open>
  \<open>src/src/CommandProcessor.cpp\<close>, the file transfers: pattern downloads (0x84), pattern uploads
  (0x85), the ZIP archive of the card (0x8A) with its service steps, and the synchronous
  firmware upload (0xE0). Opening, reading and writing files are calls of the SD library.
\<close>

section \<open>Constants\<close>

definition kDownloadIdleTimeoutMs :: u32 where "kDownloadIdleTimeoutMs = 60000"
definition kUploadIdleTimeoutMs :: u32 where "kUploadIdleTimeoutMs = 30000"
definition kUploadDrainTimeoutMs :: u32 where "kUploadDrainTimeoutMs = 5000"
definition kArchiveMaxEntries :: nat where "kArchiveMaxEntries = 258"
definition kArchiveIdleTimeoutMs :: u32 where "kArchiveIdleTimeoutMs = 60000"
definition kIdleTimeoutMs :: u32 where "kIdleTimeoutMs = 5000"
definition kAbsoluteTimeoutMs :: u32 where "kAbsoluteTimeoutMs = 15000"
definition kChunkBytes :: nat where "kChunkBytes = 4096"
definition firmware_dir :: "byte list" where "firmware_dir = str ''/firmware''"
definition firmware_path :: "byte list" where "firmware_path = str ''/firmware/panel.bin''"
definition firmware_footer_byte_count :: nat where "firmware_footer_byte_count = 32"

section \<open>Calls on a source\<close>

definition reply_to :: "source_id \<Rightarrow> byte \<Rightarrow> byte \<Rightarrow> byte list \<Rightarrow> ('c, 'h, 'w) cp \<Rightarrow> ('c, 'h, 'w) cp" where
  "reply_to i cmd_byte status payload s = on_source i (sendResponse cmd_byte status payload) s"

definition consumed :: "source_id \<Rightarrow> ('c, 'h, 'w) cp \<Rightarrow> ('c, 'h, 'w) cp" where
  "consumed i s = on_source i commandConsumed s"

definition isConnected :: "('c, 'h, 'w) env \<Rightarrow> source_id \<Rightarrow> nat \<Rightarrow> bool" where
  "isConnected E i t = (case i of Net \<Rightarrow> tcp_up E t | Ser \<Rightarrow> True)"

definition kick :: "('c, 'h, 'w) env \<Rightarrow> ('c, 'h, 'w) cp \<Rightarrow> ('c, 'h, 'w) cp" where
  "kick E s = s\<lparr>wd_st := watchdogKick (rtw E) (wd_st s)\<rparr>"

text \<open>
  \<open>sendRaw\<close> by its outcome, a reading of the environment: whether the queued reply left first,
  how many bytes were accepted and how many watchdog kicks the pacing loop made. That the
  pacing loops have no other outcome is proved in the transfer properties.
\<close>

definition raw_outcome :: "source_id \<Rightarrow> bool \<Rightarrow> bool \<Rightarrow> nat \<Rightarrow> byte list \<Rightarrow> source \<Rightarrow> nat \<times> source" where
  "raw_outcome i up flushed accepted buf src =
     (let src = (case i of Ser \<Rightarrow> if flushed then flushResponses_usb (int (resp_len src)) src else src
                         | Net \<Rightarrow> flushResponses_tcp up src);
          n = (if i = Net \<and> \<not> up then 0 else min accepted (length buf))
      in (n, src\<lparr>wire_out := wire_out src @ take n buf\<rparr>))"

text \<open>The breadcrumb around a USB write of the queued reply.\<close>

definition usb_marked :: "('c, 'h, 'w) env \<Rightarrow> bool \<Rightarrow> ('c, 'h, 'w) cp \<Rightarrow> ('c, 'h, 'w) cp" where
  "usb_marked E wrote s = (if wrote then hclear E (hmark E OP_USB_WRITE 0 s) else s)"

definition send_raw :: "('c, 'h, 'w) env \<Rightarrow> source_id \<Rightarrow> byte list \<Rightarrow> ('c, 'h, 'w) cp \<Rightarrow> ('c, 'h, 'w) cp \<times> nat" where
  "send_raw E i buf s =
     (let (flushed, accepted, kicks) = raw_result E (tick s); up = isConnected E i (tick s); src = the_source i s;
          n = fst (raw_outcome i up flushed accepted buf src);
          s = usb_marked E (i = Ser \<and> flushed \<and> 0 < resp_len src) (s\<lparr>tick := tick s + 1\<rparr>);
          s = on_source i (\<lambda>_. snd (raw_outcome i up flushed accepted buf src)) s
      in ((kick E ^^ kicks) s, n))"

text \<open>\<open>readBulkBytes\<close> on the bytes of the pipe, new arrivals included.\<close>

definition read_bulk :: "('c, 'h, 'w) env \<Rightarrow> source_id \<Rightarrow> nat \<Rightarrow> ('c, 'h, 'w) cp \<Rightarrow> ('c, 'h, 'w) cp \<times> byte list" where
  "read_bulk E i n s =
     (let t = tick s; s = s\<lparr>tick := t + 1\<rparr>
      in case i of
           Ser \<Rightarrow> let (bs, pipe, src) = readBulkBytes_usb (board E) n (ser_pipe s @ arrivals E t, ser s)
                  in (s\<lparr>ser := src, ser_pipe := pipe\<rparr>, bs)
         | Net \<Rightarrow> let (bs, pipe, src) = readBulkBytes_tcp (tcp_up E t) n (net_pipe s @ arrivals E t, net s)
                  in (s\<lparr>net := src, net_pipe := pipe\<rparr>, bs))"

section \<open>Calls on the card\<close>

definition with_card :: "('c \<Rightarrow> 'c) \<Rightarrow> ('c, 'h, 'w) cp \<Rightarrow> ('c, 'h, 'w) cp" where
  "with_card f s = s\<lparr>sd_st := (sd_st s)\<lparr>card := f (card (sd_st s))\<rparr>\<rparr>"

definition the_card :: "('c, 'h, 'w) cp \<Rightarrow> 'c" where "the_card s = card (sd_st s)"

definition close_opt :: "('c, 'h, 'w) env \<Rightarrow> 'h option \<Rightarrow> ('c, 'h, 'w) cp \<Rightarrow> ('c, 'h, 'w) cp" where
  "close_opt E h s = (case h of None \<Rightarrow> s | Some h \<Rightarrow> with_card (sd_close (lib E) h) s)"

text \<open>\<open>File::read\<close>: an empty result is end of file or an error, also on a closed handle.\<close>

definition read_opt :: "('c, 'h, 'w) env \<Rightarrow> nat \<Rightarrow> 'h option \<Rightarrow> 'c \<Rightarrow> 'h option \<times> byte list" where
  "read_opt E n h c = (case h of None \<Rightarrow> (None, []) | Some h \<Rightarrow> let (h, bs) = sd_read (lib E) n h c in (Some h, bs))"

section \<open>Download\<close>

definition endDownload :: "('c, 'h, 'w) env \<Rightarrow> ('c, 'h, 'w) cp \<Rightarrow> ('c, 'h, 'w) cp" where
  "endDownload E s = (close_opt E (dl_h (xf s)) s)\<lparr>xf := (xf s)\<lparr>dl_h := None, dl_active := False\<rparr>\<rparr>"

definition getPatternFile :: "('c, 'h, 'w) env \<Rightarrow> byte list \<Rightarrow> ('c, 'h, 'w) cp \<Rightarrow> ('c, 'h, 'w) cp" where
  "getPatternFile E d s =
     (let err = (\<lambda>m. reply GET_PATTERN_FILE_CMD 1 (str m)); idx = unat (word16 d 2)
      in if cstate s \<noteq> ALL_OFF then reply GET_PATTERN_FILE_CMD CE_DISPLAY_ACTIVE (str ''Stop display first'') s
         else if dl_active (xf s) then err ''Download already in progress'' s
         else if d ! 0 \<noteq> 3 then err ''Expected [03 84 idx_lo idx_hi]'' s
         else if idx = 0 \<or> pattern_count (sd_st s) < idx then err ''Index out of range'' s
         else if patternBusy idx s then err ''Pattern is in use'' s
         else case patternName idx (sd_st s) of
                None \<Rightarrow> err ''Pattern not found'' s
              | Some nm \<Rightarrow>
                  (case sd_open (lib E) (pattern_path nm) (the_card s) of
                     None \<Rightarrow> err ''File open failed'' s
                   | Some h \<Rightarrow>
                       let fsize = of_nat (sd_size (lib E) h (the_card s)) :: u32;
                           s = reply GET_PATTERN_FILE_CMD 0 (put32 fsize @ replicate 4 0) s
                       in s\<lparr>xf := (xf s)\<lparr>dl_h := Some h, dl_source := current_source s, dl_idx := idx, dl_remaining := fsize,
                                         dl_deadline := ms E (tick s) + kDownloadIdleTimeoutMs, dl_active := True\<rparr>,
                            tick := tick s + 1\<rparr>))"

definition serviceDownload :: "('c, 'h, 'w) env \<Rightarrow> ('c, 'h, 'w) cp \<Rightarrow> ('c, 'h, 'w) cp" where
  "serviceDownload E s =
     (if \<not> dl_active (xf s) then s
      else
        let now = ms E (tick s); s = s\<lparr>tick := tick s + 1\<rparr>
        in if expired now (dl_deadline (xf s)) \<or> dl_remaining (xf s) = 0 then endDownload E s
           else
             let to_read = (if unat (dl_remaining (xf s)) < kChunkBytes then unat (dl_remaining (xf s)) else kChunkBytes);
                 (h, chunk) = read_opt E to_read (dl_h (xf s)) (the_card s);
                 s = s\<lparr>xf := (xf s)\<lparr>dl_h := h\<rparr>\<rparr>
             in if chunk = [] then endDownload E s
                else
                  let (s, n) = send_raw E (dl_source (xf s)) chunk s;
                      s = s\<lparr>xf := (xf s)\<lparr>dl_remaining := dl_remaining (xf s) - of_nat n\<rparr>\<rparr>
                  in if n < length chunk then endDownload E s
                     else
                       let s = s\<lparr>xf := (xf s)\<lparr>dl_deadline := ms E (tick s) + kDownloadIdleTimeoutMs\<rparr>, tick := tick s + 1\<rparr>
                       in if dl_remaining (xf s) = 0 then endDownload E s else s)"

section \<open>Upload\<close>

definition ul_fail :: "('c, 'h, 'w) env \<Rightarrow> string \<Rightarrow> ('c, 'h, 'w) cp \<Rightarrow> ('c, 'h, 'w) cp" where
  "ul_fail E msg s =
     (let s = close_opt E (ul_h (xf s)) s;
          s = with_card (\<lambda>c. fst (sd_remove (lib E) (ul_path (xf s)) c)) s
      in s\<lparr>xf := (xf s)\<lparr>ul_h := None, ul_fail_status := 1, ul_fail_msg := str msg, ul_phase := kDraining,
                       ul_drain_deadline := ms E (tick s) + kUploadDrainTimeoutMs\<rparr>, tick := tick s + 1\<rparr>)"

definition ul_finish :: "byte \<Rightarrow> byte list \<Rightarrow> ('c, 'h, 'w) cp \<Rightarrow> ('c, 'h, 'w) cp" where
  "ul_finish status msg s =
     (let s = reply_to (ul_source (xf s)) SET_PATTERN_FILE_CMD status msg s;
          s = s\<lparr>xf := (xf s)\<lparr>ul_active := False\<rparr>\<rparr>
      in consumed (ul_source (xf s)) s)"

definition abortUpload :: "('c, 'h, 'w) env \<Rightarrow> ('c, 'h, 'w) cp \<Rightarrow> ('c, 'h, 'w) cp" where
  "abortUpload E s =
     (let s = close_opt E (ul_h (xf s)) s;
          s = with_card (\<lambda>c. fst (sd_remove (lib E) (ul_path (xf s)) c)) s;
          s = s\<lparr>xf := (xf s)\<lparr>ul_h := None, ul_active := False\<rparr>\<rparr>
      in consumed (ul_source (xf s)) s)"

text \<open>A chunk that has arrived: written while writing, discarded while draining.\<close>

definition write_opt :: "('c, 'h, 'w) env \<Rightarrow> byte list \<Rightarrow> 'h option \<Rightarrow> 'c \<Rightarrow> 'c \<times> 'h option \<times> nat" where
  "write_opt E bs h c =
     (case h of None \<Rightarrow> (c, None, 0) | Some h \<Rightarrow> let (c, h, n) = sd_write (lib E) bs h c in (c, Some h, n))"

definition ul_write :: "('c, 'h, 'w) env \<Rightarrow> byte list \<Rightarrow> ('c, 'h, 'w) cp \<Rightarrow> ('c, 'h, 'w) cp" where
  "ul_write E bs s =
     (let (c, h, n) = write_opt E bs (ul_h (xf s)) (the_card s);
          s = with_card (\<lambda>_. c) (s\<lparr>xf := (xf s)\<lparr>ul_h := h\<rparr>\<rparr>)
      in if n \<noteq> length bs then ul_fail E ''SD write error (card full?)'' s else s)"

definition ul_chunk :: "('c, 'h, 'w) env \<Rightarrow> byte list \<Rightarrow> ('c, 'h, 'w) cp \<Rightarrow> ('c, 'h, 'w) cp" where
  "ul_chunk E bs s =
     (let s = (if ul_phase (xf s) = kWriting then ul_write E bs s else s);
          s = s\<lparr>xf := (xf s)\<lparr>ul_remaining := ul_remaining (xf s) - of_nat (length bs)\<rparr>\<rparr>;
          s = (if ul_phase (xf s) = kWriting
               then s\<lparr>xf := (xf s)\<lparr>ul_deadline := ms E (tick s) + kUploadIdleTimeoutMs\<rparr>, tick := tick s + 1\<rparr> else s)
      in if ul_remaining (xf s) \<noteq> 0 then s
         else case ul_phase (xf s) of
                kDraining \<Rightarrow> ul_finish (ul_fail_status (xf s)) (ul_fail_msg (xf s)) s
              | kWriting \<Rightarrow> let s = close_opt E (ul_h (xf s)) s
                            in ul_finish 0 [] (s\<lparr>xf := (xf s)\<lparr>ul_h := None\<rparr>\<rparr>))"

definition serviceUpload :: "('c, 'h, 'w) env \<Rightarrow> ('c, 'h, 'w) cp \<Rightarrow> ('c, 'h, 'w) cp" where
  "serviceUpload E s =
     (if \<not> ul_active (xf s) then s
      else
        let now = ms E (tick s); s = s\<lparr>tick := tick s + 1\<rparr>
        in if ul_phase (xf s) = kWriting \<and> expired now (ul_deadline (xf s)) then ul_fail E ''Upload timeout'' s
           else if ul_phase (xf s) = kDraining \<and> expired now (ul_drain_deadline (xf s))
           then ul_finish (ul_fail_status (xf s)) (ul_fail_msg (xf s)) s
           else
             let want = (if unat (ul_remaining (xf s)) < kChunkBytes then unat (ul_remaining (xf s)) else kChunkBytes);
                 (s, bs) = read_bulk E (ul_source (xf s)) want s
             in if bs = [] then s else ul_chunk E bs s)"

text \<open>The resync loop. Its \<open>remaining\<close> bytes are read and dropped until none is left, nothing comes for
  five seconds, or fifteen seconds have passed; None: out of fuel.\<close>

fun drain_loop :: "('c, 'h, 'w) env \<Rightarrow> nat \<Rightarrow> u32 \<Rightarrow> u32 \<Rightarrow> u32 \<Rightarrow> ('c, 'h, 'w) cp \<Rightarrow> ('c, 'h, 'w) cp option" where
  "drain_loop E 0 start t0 remaining s = (if remaining = 0 then Some s else None)"
| "drain_loop E (Suc fuel) start t0 remaining s =
     (if remaining = 0 then Some s
      else
        let now = ms E (tick s); s = s\<lparr>tick := tick s + 1\<rparr>
        in if kAbsoluteTimeoutMs < now - start then Some s
           else
             let s = kick E s;
                 want = (if unat remaining < 256 then unat remaining else 256);
                 (s, bs) = read_bulk E (current_source s) want s;
                 now = ms E (tick s); s = s\<lparr>tick := tick s + 1\<rparr>
             in if bs \<noteq> [] then drain_loop E fuel start now (remaining - of_nat (length bs)) s
                else if kIdleTimeoutMs < now - t0 then Some s
                else drain_loop E fuel start t0 remaining s)"

definition drainBulkData :: "('c, 'h, 'w) env \<Rightarrow> u32 \<Rightarrow> ('c, 'h, 'w) cp \<Rightarrow> ('c, 'h, 'w) cp" where
  "drainBulkData E remaining s =
     (let start = ms E (tick s); s = s\<lparr>tick := tick s + 1\<rparr>
      in case drain_loop E (wait_fuel E) start start remaining s of
           None \<Rightarrow> s\<lparr>halted := True\<rparr> | Some s \<Rightarrow> s)"

text \<open>A rejected upload: read the body away, then answer.\<close>

definition reject_bulk :: "('c, 'h, 'w) env \<Rightarrow> byte \<Rightarrow> byte \<Rightarrow> string \<Rightarrow> u32 \<Rightarrow> ('c, 'h, 'w) cp \<Rightarrow> ('c, 'h, 'w) cp" where
  "reject_bulk E cmd_byte status msg n s =
     (let s = drainBulkData E n s in if halted s then s else reply cmd_byte status (str msg) s)"

definition upload_path :: "nat \<Rightarrow> ('c, 'h, 'w) cp \<Rightarrow> byte list" where
  "upload_path idx s =
     (if idx = 0 then pattern_path pattern_temp_name
      else case patternName idx (sd_st s) of None \<Rightarrow> [] | Some nm \<Rightarrow> pattern_path nm)"

definition arm_upload :: "('c, 'h, 'w) env \<Rightarrow> nat \<Rightarrow> u32 \<Rightarrow> byte list \<Rightarrow> 'h \<Rightarrow> ('c, 'h, 'w) cp \<Rightarrow> ('c, 'h, 'w) cp" where
  "arm_upload E idx n path h s =
     s\<lparr>xf := (xf s)\<lparr>ul_path := path, ul_h := Some h, ul_source := current_source s, ul_idx := idx, ul_remaining := n,
                   ul_total := n, ul_deadline := ms E (tick s + 1) + kUploadIdleTimeoutMs, ul_phase := kWriting, ul_active := True\<rparr>,
       tick := tick s + 2\<rparr>"

definition setPatternFile :: "('c, 'h, 'w) env \<Rightarrow> parsed_command \<Rightarrow> ('c, 'h, 'w) cp \<Rightarrow> ('c, 'h, 'w) cp \<times> bool" where
  "setPatternFile E pc s =
     (let idx = unat (word16 (pc_data pc) 1); n = bulk_payload_len pc;
          no = (\<lambda>status msg s. (reject_bulk E SET_PATTERN_FILE_CMD status msg n s, False))
      in if n = 0 then (reply SET_PATTERN_FILE_CMD 1 (str ''Empty upload not supported'') s, False)
         else if cstate s \<noteq> ALL_OFF then no CE_DISPLAY_ACTIVE ''Stop display before writing to SD'' s
         else if ul_active (xf s) then no 1 ''Upload already in progress'' s
         else if dl_active (xf s) \<and> dl_idx (xf s) = idx then no 1 ''Pattern is being downloaded'' s
         else if ar_active (xf s) then no 1 ''Archive in progress'' s
         else if pattern_count (sd_st s) < idx then no 1 ''Index out of range'' s
         else
           let path = upload_path idx s;
               s = with_card (\<lambda>c. fst (sd_remove (lib E) path (sd_mkdir (lib E) pattern_dir c))) s;
               (c, h) = sd_create (lib E) path (the_card s);
               s = with_card (\<lambda>_. c) s
           in case h of None \<Rightarrow> no 1 ''SD open failed'' s | Some h \<Rightarrow> (arm_upload E idx n path h s, True))"

section \<open>Archive\<close>

definition name_len :: "zip_entry \<Rightarrow> nat" where "name_len e = length (zip_name e)"

text \<open>One file for the archive: opened, its size taken, and closed again.\<close>

definition archive_entry :: "('c, 'h, 'w) env \<Rightarrow> byte list \<Rightarrow> byte list \<Rightarrow> 'c \<Rightarrow> 'c \<times> zip_entry option" where
  "archive_entry E zname path c =
     (case sd_open (lib E) path c of
        None \<Rightarrow> (c, None)
      | Some h \<Rightarrow> (sd_close (lib E) h c, Some \<lparr>zip_name = take 79 zname, sd_path = path,
                    zfile_size = of_nat (sd_size (lib E) h c), zcrc32 = 0, lhf_offset = 0\<rparr>))"

definition archive_names :: "('c, 'h, 'w) cp \<Rightarrow> (byte list \<times> byte list) list" where
  "archive_names s =
     [(str ''MANIFEST.bin'', manifest_bin_path), (str ''MANIFEST.txt'', manifest_txt_path)]
     @ map (\<lambda>nm. (str ''patterns/'' @ nm, pattern_path nm)) (names (sd_st s))"

definition collect_step :: "('c, 'h, 'w) env \<Rightarrow> byte list \<times> byte list \<Rightarrow> 'c \<times> zip_entry list \<Rightarrow> 'c \<times> zip_entry list" where
  "collect_step E = (\<lambda>(zname, path) (c, es).
     if kArchiveMaxEntries \<le> length es then (c, es)
     else case archive_entry E zname path c of (c, None) \<Rightarrow> (c, es) | (c, Some e) \<Rightarrow> (c, es @ [e]))"

definition collect_entries :: "('c, 'h, 'w) env \<Rightarrow> (byte list \<times> byte list) list \<Rightarrow> 'c \<Rightarrow> 'c \<times> zip_entry list" where
  "collect_entries E nps c = fold (collect_step E) nps (c, [])"

definition entry_span :: "zip_entry \<Rightarrow> u32" where
  "entry_span e = 30 + of_nat (name_len e) + zfile_size e + 16"

fun lay_out :: "u32 \<Rightarrow> zip_entry list \<Rightarrow> zip_entry list" where
  "lay_out off [] = []"
| "lay_out off (e # es) = e\<lparr>lhf_offset := off\<rparr> # lay_out (off + entry_span e) es"

definition cd_start :: "zip_entry list \<Rightarrow> u32" where
  "cd_start es = (\<Sum>e\<leftarrow>es. entry_span e)"

definition cd_bytes :: "zip_entry list \<Rightarrow> u32" where
  "cd_bytes es = (\<Sum>e\<leftarrow>es. 46 + of_nat (name_len e))"

definition put64 :: "u64 \<Rightarrow> byte list" where
  "put64 v = map (\<lambda>i. ucast (drop_bit (8 * i) v)) [0..<8]"

definition archive_total :: "zip_entry list \<Rightarrow> u64" where
  "archive_total es = ucast (cd_start es) + ucast (cd_bytes es) + 22"

definition handleGetSdArchive :: "('c, 'h, 'w) env \<Rightarrow> ('c, 'h, 'w) cp \<Rightarrow> ('c, 'h, 'w) cp" where
  "handleGetSdArchive E s =
     (let (c, es) = collect_entries E (archive_names s) (the_card s);
          es = lay_out 0 es;
          s = with_card (\<lambda>_. c) s;
          s = reply GET_SD_ARCHIVE_CMD 0 (put64 (archive_total es)) s
      in s\<lparr>xf := (xf s)\<lparr>ar_entries := es, ar_entry_idx := 0, ar_phase := (if es = [] then kEocd else kLocalHeader),
                        ar_cd_offset := cd_start es, ar_cd_size := cd_bytes es, ar_source := current_source s,
                        ar_deadline := ms E (tick s) + kArchiveIdleTimeoutMs, ar_active := True\<rparr>,
           tick := tick s + 1\<rparr>)"

definition getSdArchive :: "('c, 'h, 'w) env \<Rightarrow> ('c, 'h, 'w) cp \<Rightarrow> ('c, 'h, 'w) cp" where
  "getSdArchive E s =
     (if cstate s \<noteq> ALL_OFF then reply GET_SD_ARCHIVE_CMD CE_DISPLAY_ACTIVE (str ''Stop display first'') s
      else if ar_active (xf s) then reply GET_SD_ARCHIVE_CMD 1 (str ''Archive already in progress'') s
      else if ul_active (xf s) then reply GET_SD_ARCHIVE_CMD 1 (str ''Upload in progress'') s
      else handleGetSdArchive E s)"

definition abortArchive :: "('c, 'h, 'w) env \<Rightarrow> ('c, 'h, 'w) cp \<Rightarrow> ('c, 'h, 'w) cp" where
  "abortArchive E s = (close_opt E (ar_h (xf s)) s)\<lparr>xf := (xf s)\<lparr>ar_h := None, ar_active := False\<rparr>\<rparr>"

text \<open>The four records of the format.\<close>

definition local_header :: "zip_entry \<Rightarrow> byte list" where
  "local_header e = [0x50, 0x4B, 3, 4, 20, 0, 8, 0] @ replicate 18 0 @ [of_nat (name_len e), 0, 0, 0] @ zip_name e"

definition data_descriptor :: "zip_entry \<Rightarrow> byte list" where
  "data_descriptor e = [0x50, 0x4B, 7, 8] @ put32 (zcrc32 e) @ put32 (zfile_size e) @ put32 (zfile_size e)"

definition central_record :: "zip_entry \<Rightarrow> byte list" where
  "central_record e = [0x50, 0x4B, 1, 2, 20, 0, 20, 0, 8, 0] @ replicate 6 0 @ put32 (zcrc32 e) @ put32 (zfile_size e)
     @ put32 (zfile_size e) @ of_nat (name_len e) # replicate 13 0 @ put32 (lhf_offset e) @ zip_name e"

definition eocd_record :: "nat \<Rightarrow> u32 \<Rightarrow> u32 \<Rightarrow> byte list" where
  "eocd_record n cds cdo = [0x50, 0x4B, 5, 6, 0, 0, 0, 0] @ put16 (of_nat n) @ put16 (of_nat n) @ put32 cds @ put32 cdo @ [0, 0]"

text \<open>The end of every sending phase: a short write aborts, otherwise \<open>f\<close> moves on and the idle
  deadline is reset.\<close>

definition ar_sent :: "('c, 'h, 'w) env \<Rightarrow> byte list \<Rightarrow> ('h transfer \<Rightarrow> 'h transfer) \<Rightarrow> ('c, 'h, 'w) cp \<Rightarrow> ('c, 'h, 'w) cp" where
  "ar_sent E buf f s =
     (let (s, n) = send_raw E (ar_source (xf s)) buf s
      in if n < length buf then abortArchive E s
         else s\<lparr>xf := (f (xf s))\<lparr>ar_deadline := ms E (tick s) + kArchiveIdleTimeoutMs\<rparr>, tick := tick s + 1\<rparr>)"

definition ar_local :: "('c, 'h, 'w) env \<Rightarrow> ('c, 'h, 'w) cp \<Rightarrow> ('c, 'h, 'w) cp" where
  "ar_local E s =
     (let e = ar_entries (xf s) ! ar_entry_idx (xf s)
      in ar_sent E (local_header e) (\<lambda>x. x\<lparr>ar_crc := 0xFFFFFFFF, ar_file_remaining := zfile_size e,
           ar_h := sd_open (lib E) (sd_path e) (the_card s), ar_phase := kFileData\<rparr>) s)"

definition ar_chunk :: "('c, 'h, 'w) env \<Rightarrow> byte list \<Rightarrow> ('c, 'h, 'w) cp \<Rightarrow> ('c, 'h, 'w) cp" where
  "ar_chunk E bs s =
     (let s = s\<lparr>xf := (xf s)\<lparr>ar_crc := crc32_update (ar_crc (xf s)) bs\<rparr>\<rparr>
      in ar_sent E bs (\<lambda>x. x\<lparr>ar_file_remaining := ar_file_remaining x - of_nat (length bs)\<rparr>) s)"

definition ar_data :: "('c, 'h, 'w) env \<Rightarrow> ('c, 'h, 'w) cp \<Rightarrow> ('c, 'h, 'w) cp" where
  "ar_data E s =
     (if ar_file_remaining (xf s) = 0 then
        let s = close_opt E (ar_h (xf s)) s; i = ar_entry_idx (xf s); es = ar_entries (xf s)
        in s\<lparr>xf := (xf s)\<lparr>ar_h := None, ar_entries := es[i := (es ! i)\<lparr>zcrc32 := ar_crc (xf s) XOR 0xFFFFFFFF\<rparr>],
                         ar_phase := kDataDescriptor\<rparr>\<rparr>
      else
        let want = (if unat (ar_file_remaining (xf s)) < kChunkBytes then unat (ar_file_remaining (xf s)) else kChunkBytes);
            (h, bs) = read_opt E want (ar_h (xf s)) (the_card s);
            s = s\<lparr>xf := (xf s)\<lparr>ar_h := h\<rparr>\<rparr>
        in if bs \<noteq> [] then ar_chunk E bs s
           else let s = close_opt E (ar_h (xf s)) s
                in ar_chunk E (replicate want 0) (s\<lparr>xf := (xf s)\<lparr>ar_h := None\<rparr>\<rparr>))"

definition ar_descriptor :: "('c, 'h, 'w) env \<Rightarrow> ('c, 'h, 'w) cp \<Rightarrow> ('c, 'h, 'w) cp" where
  "ar_descriptor E s =
     (let i = ar_entry_idx (xf s); e = ar_entries (xf s) ! i
      in ar_sent E (data_descriptor e)
           (\<lambda>x. if i + 1 < length (ar_entries x) then x\<lparr>ar_entry_idx := i + 1, ar_phase := kLocalHeader\<rparr>
                else x\<lparr>ar_entry_idx := 0, ar_phase := kCentralDir\<rparr>) s)"

definition ar_central :: "('c, 'h, 'w) env \<Rightarrow> ('c, 'h, 'w) cp \<Rightarrow> ('c, 'h, 'w) cp" where
  "ar_central E s =
     (let i = ar_entry_idx (xf s); e = ar_entries (xf s) ! i
      in ar_sent E (central_record e)
           (\<lambda>x. x\<lparr>ar_entry_idx := i + 1, ar_phase := (if length (ar_entries x) \<le> i + 1 then kEocd else kCentralDir)\<rparr>) s)"

definition ar_eocd :: "('c, 'h, 'w) env \<Rightarrow> ('c, 'h, 'w) cp \<Rightarrow> ('c, 'h, 'w) cp" where
  "ar_eocd E s =
     (let x = xf s; buf = eocd_record (length (ar_entries x)) (ar_cd_size x) (ar_cd_offset x);
          (s, n) = send_raw E (ar_source x) buf s
      in if n < length buf then abortArchive E s else s\<lparr>xf := (xf s)\<lparr>ar_active := False\<rparr>\<rparr>)"

definition serviceArchive :: "('c, 'h, 'w) env \<Rightarrow> ('c, 'h, 'w) cp \<Rightarrow> ('c, 'h, 'w) cp" where
  "serviceArchive E s =
     (if \<not> ar_active (xf s) then s
      else
        let now = ms E (tick s); s = s\<lparr>tick := tick s + 1\<rparr>
        in if expired now (ar_deadline (xf s)) then abortArchive E s
           else case ar_phase (xf s) of
                  kLocalHeader \<Rightarrow> ar_local E s
                | kFileData \<Rightarrow> ar_data E s
                | kDataDescriptor \<Rightarrow> ar_descriptor E s
                | kCentralDir \<Rightarrow> ar_central E s
                | kEocd \<Rightarrow> ar_eocd E s)"

section \<open>Firmware image\<close>

text \<open>The synchronous upload: every chunk is written and hashed; it ends with the whole image, a write
  error (True), or thirty idle seconds (False). None: out of fuel.\<close>

datatype fw_end = FwDone | FwWriteError | FwTimeout

fun fw_loop :: "('c, 'h, 'w) env \<Rightarrow> nat \<Rightarrow> u32 \<Rightarrow> u32 \<Rightarrow> u32 \<Rightarrow> 'h \<Rightarrow> ('c, 'h, 'w) cp
    \<Rightarrow> (fw_end \<times> u32 \<times> u32 \<times> 'h \<times> ('c, 'h, 'w) cp) option" where
  "fw_loop E 0 crc t_idle remaining h s = (if remaining = 0 then Some (FwDone, crc, remaining, h, s) else None)"
| "fw_loop E (Suc fuel) crc t_idle remaining h s =
     (if remaining = 0 then Some (FwDone, crc, remaining, h, s)
      else
        let s = kick E s;
            want = (if unat remaining < kChunkBytes then unat remaining else kChunkBytes);
            (s, bs) = read_bulk E (current_source s) want s
        in if bs \<noteq> [] then
             let (c, h, n) = sd_write (lib E) bs h (the_card s); s = with_card (\<lambda>_. c) s
             in if n \<noteq> length bs then Some (FwWriteError, crc, remaining, h, s)
                else let now = ms E (tick s)
                     in fw_loop E fuel (crc32_update crc bs) now (remaining - of_nat (length bs)) h (s\<lparr>tick := tick s + 1\<rparr>)
           else
             let now = ms E (tick s); s = s\<lparr>tick := tick s + 1\<rparr>
             in if 30000 < now - t_idle then Some (FwTimeout, crc, remaining, h, s)
                else fw_loop E fuel crc t_idle remaining h s)"

definition handleSetFirmwareFile :: "('c, 'h, 'w) env \<Rightarrow> u32 \<Rightarrow> ('c, 'h, 'w) cp \<Rightarrow> ('c, 'h, 'w) cp" where
  "handleSetFirmwareFile E n s =
     (if cstate s \<noteq> ALL_OFF then reject_bulk E SET_FIRMWARE_FILE_CMD CE_DISPLAY_ACTIVE ''Stop display before writing to SD'' n s
      else if busy s then reject_bulk E SET_FIRMWARE_FILE_CMD 1 ''Bulk transfer already in progress'' n s
      else
        let s = with_card (\<lambda>c. fst (sd_remove (lib E) firmware_path (sd_mkdir (lib E) firmware_dir c))) s;
            (c, h) = sd_create (lib E) firmware_path (the_card s);
            s = with_card (\<lambda>_. c) s
        in case h of
             None \<Rightarrow> reject_bulk E SET_FIRMWARE_FILE_CMD 1 ''SD open failed'' n s
           | Some h \<Rightarrow>
               let t_idle = ms E (tick s); s = s\<lparr>tick := tick s + 1\<rparr>
               in case fw_loop E (wait_fuel E) 0xFFFFFFFF t_idle n h s of
                    None \<Rightarrow> s\<lparr>halted := True\<rparr>
                  | Some (r, crc, remaining, h, s) \<Rightarrow>
                      let s = with_card (sd_close (lib E) h) s
                      in if r = FwDone then reply SET_FIRMWARE_FILE_CMD 0 (put32 (crc XOR 0xFFFFFFFF)) s
                         else
                           let s = with_card (\<lambda>c. fst (sd_remove (lib E) firmware_path c)) s
                           in reject_bulk E SET_FIRMWARE_FILE_CMD 1
                                (if r = FwWriteError then ''SD write error (card full?)'' else ''Upload timeout'') remaining s)"

definition handleBulkWriteCommand :: "('c, 'h, 'w) env \<Rightarrow> parsed_command \<Rightarrow> ('c, 'h, 'w) cp \<Rightarrow> ('c, 'h, 'w) cp \<times> bool" where
  "handleBulkWriteCommand E pc s =
     (if pc_cmd pc = SET_FIRMWARE_FILE_CMD then (handleSetFirmwareFile E (bulk_payload_len pc) s, False)
      else if pc_cmd pc \<noteq> SET_PATTERN_FILE_CMD then
        (reject_bulk E (pc_cmd pc) 1 ''Unknown bulk command'' (bulk_payload_len pc) s, False)
      else setPatternFile E pc s)"

definition handleGetFirmwareInfo :: "('c, 'h, 'w) env \<Rightarrow> ('c, 'h, 'w) cp \<Rightarrow> ('c, 'h, 'w) cp" where
  "handleGetFirmwareInfo E s =
     (let err = (\<lambda>m. reply GET_FIRMWARE_INFO_CMD 1 (str m))
      in case sd_open (lib E) firmware_path (the_card s) of
           None \<Rightarrow> err ''No firmware image present'' s
         | Some h \<Rightarrow>
             let sz = unat (of_nat (sd_size (lib E) h (the_card s)) :: u32)
             in if sz < firmware_footer_byte_count then err ''Firmware image too small'' (with_card (sd_close (lib E) h) s)
                else
                  let (h, _) = sd_seek (lib E) (sz - firmware_footer_byte_count) h (the_card s);
                      (h, footer) = sd_read (lib E) firmware_footer_byte_count h (the_card s);
                      s = with_card (sd_close (lib E) h) s
                  in if length footer \<noteq> firmware_footer_byte_count then err ''Footer read failed'' s
                     else reply GET_FIRMWARE_INFO_CMD 0 footer s)"

section \<open>Lost connections\<close>

definition serviceDisconnects :: "('c, 'h, 'w) env \<Rightarrow> ('c, 'h, 'w) cp \<Rightarrow> ('c, 'h, 'w) cp" where
  "serviceDisconnects E s =
     (let lost = (\<lambda>act src s. act (xf s) \<and> \<not> isConnected E (src (xf s)) (tick s));
          s = (if lost dl_active dl_source s then endDownload E s else s)\<lparr>tick := tick s + 1\<rparr>;
          s = (if lost ul_active ul_source s then abortUpload E s else s)\<lparr>tick := tick s + 1\<rparr>
      in (if lost ar_active ar_source s then abortArchive E s else s)\<lparr>tick := tick s + 1\<rparr>)"

end
