(* ===== verification/Isp.thy ===== *)
theory Isp
  imports Transfers
begin

text \<open>
  \<open>src/src/IspController.h\<close> and \<open>src/src/IspController.cpp\<close>: reprogramming and verifying one
  panel over SPI. A command is one transaction (phase A), its reply a second one (phase B) in
  which the panel drives the line; what it drives is the reading \<open>miso\<close>. The body of
  \<open>programPanel\<close>, a \<open>do ... while (false)\<close> with breaks, is a chain of phases.
\<close>

section \<open>Constants\<close>

definition ISP_ENTER :: byte where "ISP_ENTER = 0xE4"
definition ISP_WRITE_PAGE :: byte where "ISP_WRITE_PAGE = 0xE5"
definition ISP_VERIFY_STAGED :: byte where "ISP_VERIFY_STAGED = 0xE6"
definition ISP_COMMIT :: byte where "ISP_COMMIT = 0xE7"
definition ISP_VERIFY_CRC :: byte where "ISP_VERIFY_CRC = 0xE8"
definition kIspClockAMhz :: u16 where "kIspClockAMhz = 25"
definition kIspClockBMhz :: u16 where "kIspClockBMhz = 2"
definition kPageBytes :: nat where "kPageBytes = 256"
definition kCmdGapUs :: u32 where "kCmdGapUs = 2000"
definition kPageGapUs :: u32 where "kPageGapUs = 500"
definition kPageReplyWaitUs :: u32 where "kPageReplyWaitUs = 500"
definition kVerifyPollMs :: u32 where "kVerifyPollMs = 25"
definition kVerifyTimeoutMs :: u32 where "kVerifyTimeoutMs = 3000"
definition kCommitPollMs :: u32 where "kCommitPollMs = 250"
definition kCommitTimeoutMs :: u32 where "kCommitTimeoutMs = 15000"
definition kAlivePollMs :: u32 where "kAlivePollMs = 250"
definition kAliveTimeoutMs :: u32 where "kAliveTimeoutMs = 12000"
definition kEnterRetryDelayMs :: u32 where "kEnterRetryDelayMs = 400"
definition kCommCheckCmd :: byte where "kCommCheckCmd = 0x01"
definition kSentinel :: "byte list" where "kSentinel = str ''G6PANELISPENTER'' @ [0]"
definition kUnlock :: "byte list" where "kUnlock = str ''ISP!''"

section \<open>One transaction\<close>

definition buildMsg :: "byte \<Rightarrow> byte list \<Rightarrow> byte list" where
  "buildMsg c payload = stamp_header_parity ([header_version_v1, c] @ payload)"

definition wait_us :: "u32 \<Rightarrow> ('c, 'h, 'w) cp \<Rightarrow> ('c, 'h, 'w) cp" where
  "wait_us n s = s\<lparr>spi_st := emit [DelayNs (n * 1000)] (spi_st s)\<rparr>"

definition wait_ms :: "u32 \<Rightarrow> ('c, 'h, 'w) cp \<Rightarrow> ('c, 'h, 'w) cp" where
  "wait_ms n s = s\<lparr>spi_st := emit [DelayNs (n * 1000000)] (spi_st s)\<rparr>"

definition set_clock :: "u16 \<Rightarrow> ('c, 'h, 'w) cp \<Rightarrow> ('c, 'h, 'w) cp" where
  "set_clock mhz s = s\<lparr>spi_st := setSpiClockMhz mhz (spi_st s)\<rparr>"

definition panel_xfer :: "('c, 'h, 'w) env \<Rightarrow> nat \<Rightarrow> byte list \<Rightarrow> ('c, 'h, 'w) cp \<Rightarrow> ('c, 'h, 'w) cp \<times> bool" where
  "panel_xfer E panel copi s =
     (let (sp, ok) = transferSinglePanel (board E) panel copi (spi_st s) in (s\<lparr>spi_st := sp\<rparr>, ok))"

definition sendCmd :: "('c, 'h, 'w) env \<Rightarrow> nat \<Rightarrow> byte list \<Rightarrow> u32 \<Rightarrow> ('c, 'h, 'w) cp \<Rightarrow> ('c, 'h, 'w) cp \<times> bool" where
  "sendCmd E panel msg gap s = panel_xfer E panel msg (set_clock kIspClockAMhz (wait_us gap s))"

definition captured :: "('c, 'h, 'w) env \<Rightarrow> nat \<Rightarrow> nat \<Rightarrow> byte list" where
  "captured E n t = take n (miso E t @ replicate n 0)"

definition shifted :: "nat \<Rightarrow> byte list \<Rightarrow> nat \<Rightarrow> byte" where
  "shifted bits raw i = (if bits = 0 then raw ! i else push_bit bits (raw ! i) OR drop_bit (8 - bits) (raw ! (i + 1)))"

definition aligned :: "nat \<Rightarrow> nat \<Rightarrow> byte list \<Rightarrow> byte list" where
  "aligned bits n raw = map (shifted bits raw) [0..<n]"

definition crc_valid :: "byte list \<Rightarrow> bool" where
  "crc_valid resp \<longleftrightarrow> crc8_autosar (butlast resp) = last resp"

text \<open>The reply buffer and the status byte, None when no alignment of the capture is valid.\<close>

definition readResp :: "('c, 'h, 'w) env \<Rightarrow> nat \<Rightarrow> nat \<Rightarrow> u32 \<Rightarrow> byte list \<Rightarrow> ('c, 'h, 'w) cp
    \<Rightarrow> ('c, 'h, 'w) cp \<times> byte list \<times> byte option" where
  "readResp E panel n wait resp s =
     (let s = (if wait \<noteq> 0 then wait_us wait s else s);
          s = set_clock kIspClockBMhz s
      in if 21 < n + 1 then (s, resp, None)
         else
           let (s, ok) = panel_xfer E panel (replicate (n + 1) 0) s
           in if \<not> ok then (s, resp, None)
              else
                let raw = captured E (n + 1) (tick s); s = s\<lparr>tick := tick s + 1\<rparr>
                in case find (\<lambda>bits. crc_valid (aligned bits n raw)) [0, 1, 2] of
                     Some bits \<Rightarrow> (s, aligned bits n raw, Some (aligned bits n raw ! 0))
                   | None \<Rightarrow> (s, take n raw, None))"

text \<open>The poll loop; None: out of fuel.\<close>

fun poll_loop :: "('c, 'h, 'w) env \<Rightarrow> nat \<Rightarrow> nat \<Rightarrow> nat \<Rightarrow> u32 \<Rightarrow> u32 \<Rightarrow> u32 \<Rightarrow> byte list \<Rightarrow> ('c, 'h, 'w) cp
    \<Rightarrow> (('c, 'h, 'w) cp \<times> byte list \<times> byte option) option" where
  "poll_loop E 0 panel n poll_ms timeout t0 resp s = None"
| "poll_loop E (Suc fuel) panel n poll_ms timeout t0 resp s =
     (let (s, resp, st) = readResp E panel n 0 resp (kick E s)
      in if st \<noteq> None then Some (s, resp, st)
         else if timeout \<le> ms E (tick s) - t0 then Some (s\<lparr>tick := tick s + 1\<rparr>, resp, None)
         else poll_loop E fuel panel n poll_ms timeout t0 resp
                (wait_ms (poll_ms + ms E (tick s + 1) mod 5) (s\<lparr>tick := tick s + 2\<rparr>)))"

definition pollResp :: "('c, 'h, 'w) env \<Rightarrow> nat \<Rightarrow> nat \<Rightarrow> u32 \<Rightarrow> u32 \<Rightarrow> byte list \<Rightarrow> ('c, 'h, 'w) cp
    \<Rightarrow> (('c, 'h, 'w) cp \<times> byte list \<times> byte option) option" where
  "pollResp E panel n poll_ms timeout resp s =
     poll_loop E (wait_fuel E) panel n poll_ms timeout (ms E (tick s)) resp (s\<lparr>tick := tick s + 1\<rparr>)"

section \<open>Liveness after the reboot\<close>

definition comm_check :: "byte list" where
  "comm_check = stamp_header_parity ([header_version_v1, kCommCheckCmd] @ map of_nat [0..<200])"

text \<open>The confirmation a panel arms for the next frame: header with even parity over the three bytes,
  command, and the checksum over the frame with the parity bit masked.\<close>

definition comm_expected :: "byte list" where
  "comm_expected =
     (let masked0 = comm_check ! 0 AND 0x7F;
          chk = crc8_autosar (masked0 # tl comm_check);
          ones = popcount masked0 + popcount kCommCheckCmd + popcount chk
      in [masked0 OR (if odd ones then 0x80 else 0), kCommCheckCmd, chk])"

fun alive_loop :: "('c, 'h, 'w) env \<Rightarrow> nat \<Rightarrow> nat \<Rightarrow> u32 \<Rightarrow> bool \<Rightarrow> ('c, 'h, 'w) cp \<Rightarrow> (('c, 'h, 'w) cp \<times> bool) option" where
  "alive_loop E 0 panel t0 primed s = None"
| "alive_loop E (Suc fuel) panel t0 primed s =
     (let (s, ok) = panel_xfer E panel comm_check (set_clock kIspClockBMhz s);
          raw = captured E 202 (tick s); s = s\<lparr>tick := tick s + 1\<rparr>
      in if ok \<and> primed \<and> (\<exists>bits\<in>{0, 1, 2}. aligned bits 3 raw = comm_expected) then Some (s, True)
         else if kAliveTimeoutMs \<le> ms E (tick s) - t0 then Some (s\<lparr>tick := tick s + 1\<rparr>, False)
         else alive_loop E fuel panel t0 True (wait_ms kAlivePollMs (kick E (s\<lparr>tick := tick s + 1\<rparr>))))"

definition pollPanelAlive :: "('c, 'h, 'w) env \<Rightarrow> nat \<Rightarrow> ('c, 'h, 'w) cp \<Rightarrow> (('c, 'h, 'w) cp \<times> bool) option" where
  "pollPanelAlive E panel s =
     alive_loop E (wait_fuel E) panel (ms E (tick s)) False (s\<lparr>tick := tick s + 1\<rparr>)"

section \<open>Phases\<close>

text \<open>A phase goes on with a result, breaks out with the message for the host, or never returns.\<close>

datatype 'a phase = Next 'a | Break "byte list" | Hang

definition then_phase :: "'s \<times> 'a phase \<Rightarrow> ('a \<Rightarrow> 's \<Rightarrow> 's \<times> 'b phase) \<Rightarrow> 's \<times> 'b phase" where
  "then_phase r f = (case r of (s, Next a) \<Rightarrow> f a s | (s, Break m) \<Rightarrow> (s, Break m) | (s, Hang) \<Rightarrow> (s, Hang))"

definition break :: "string \<Rightarrow> 's \<Rightarrow> 's \<times> 'a phase" where
  "break m s = (s, Break (str m))"

definition hex2 :: "byte \<Rightarrow> byte list" where
  "hex2 b = [hex_digit (unat (drop_bit 4 b)), hex_digit (unat (b AND 15))]"

definition hex_dump :: "byte list \<Rightarrow> byte list" where
  "hex_dump bs = concat (map (\<lambda>b. hex2 b @ str '' '') bs)"

definition em_dash :: "byte list" where "em_dash = [0xE2, 0x80, 0x94]"

section \<open>The image on the card\<close>

record image =
  im_size :: u32
  im_crc :: u32

definition image_magic :: "byte list" where "image_magic = str ''G6PANFW''"

text \<open>Opening the image and reading its 32-byte footer; every refusal closes the file.\<close>

definition read_footer :: "('c, 'h, 'w) env \<Rightarrow> ('c, 'h, 'w) cp \<Rightarrow> ('c, 'h, 'w) cp \<times> ('h \<times> image \<times> u32) phase" where
  "read_footer E s =
     (case sd_open (lib E) firmware_path (the_card s) of
        None \<Rightarrow> break ''no firmware on SD'' s
      | Some h \<Rightarrow>
          let file_size = of_nat (sd_size (lib E) h (the_card s)) :: u32;
              no = (\<lambda>m h s. break m (with_card (sd_close (lib E) h) s))
          in if unat file_size \<le> firmware_footer_byte_count then no ''firmware too small'' h s
             else
               let (h, _) = sd_seek (lib E) (unat file_size - firmware_footer_byte_count) h (the_card s);
                   (h, footer) = sd_read (lib E) firmware_footer_byte_count h (the_card s)
               in if length footer \<noteq> firmware_footer_byte_count then no ''footer read failed'' h s
                  else if take 7 footer \<noteq> image_magic then no ''bad footer magic'' h s
                  else (s, Next (h, \<lparr>im_size = get32 (footer ! 28) (footer ! 29) (footer ! 30) (footer ! 31),
                                    im_crc = get32 (footer ! 24) (footer ! 25) (footer ! 26) (footer ! 27)\<rparr>, file_size)))"

section \<open>Session start\<close>

definition enter_msg :: "byte list" where
  "enter_msg = buildMsg ISP_ENTER (kSentinel @ kUnlock)"

text \<open>At most two attempts, the second after \<open>kEnterRetryDelayMs\<close>.\<close>

fun enter_attempts :: "('c, 'h, 'w) env \<Rightarrow> nat \<Rightarrow> nat \<Rightarrow> ('c, 'h, 'w) cp \<Rightarrow> ('c, 'h, 'w) cp \<times> (byte list \<times> byte option) phase" where
  "enter_attempts E panel 0 s = (s, Next (replicate 20 0, None))"
| "enter_attempts E panel (Suc left) s =
     (let (s, ok) = sendCmd E panel enter_msg kCmdGapUs s
      in if \<not> ok then break ''panel not in arena map'' s
         else
           let (s, resp, st) = readResp E panel 19 kPageReplyWaitUs (replicate 20 0) s
           in if st \<noteq> None \<or> left = 0 then (s, Next (resp, st))
              else enter_attempts E panel left (wait_ms kEnterRetryDelayMs s))"

definition begin_session :: "byte list \<Rightarrow> ('c, 'h, 'w) cp \<Rightarrow> ('c, 'h, 'w) cp \<times> unit phase" where
  "begin_session resp s = (s\<lparr>session_nonce := slice resp 1 4\<rparr>, Next ())"

definition enter_program :: "('c, 'h, 'w) env \<Rightarrow> nat \<Rightarrow> ('c, 'h, 'w) cp \<Rightarrow> ('c, 'h, 'w) cp \<times> unit phase" where
  "enter_program E panel s =
     then_phase (enter_attempts E panel 2 s) (\<lambda>(resp, st) s.
       case st of
         None \<Rightarrow>
           if \<forall>b\<in>set (slice resp 2 17). b = 0
           then (s, Break (take 159 (str ''ISP_ENTER: no valid reply '' @ em_dash
                  @ str '' is the panel at this index running this ISP firmware? (also check wiring/CIPO)'')))
           else (s, Break (take 159 (str ''ISP_ENTER garbled CIPO: '' @ hex_dump (take 19 resp))))
       | Some st \<Rightarrow>
           if st \<noteq> 0
           then (s, Break (take 159 (str ''ISP_ENTER rejected by panel (status='' @ dec (unat st) @ str '' '' @ em_dash
                  @ str '' bad sentinel/token or PSRAM alloc)'')))
           else begin_session resp s)"

section \<open>Streaming the image\<close>

definition low24 :: "u32 \<Rightarrow> byte list" where
  "low24 v = [ucast v, ucast (drop_bit 8 v), ucast (drop_bit 16 v)]"

definition page_msg :: "byte list \<Rightarrow> u32 \<Rightarrow> byte list \<Rightarrow> byte list" where
  "page_msg nonce p data =
     (let page = data @ replicate (kPageBytes - length data) 0xFF
      in buildMsg ISP_WRITE_PAGE (low24 p @ nonce @ page @ put32 (crc32 page)))"

definition page_count :: "u32 \<Rightarrow> u32" where
  "page_count n = (n + of_nat kPageBytes - 1) div of_nat kPageBytes"

definition page_want :: "u32 \<Rightarrow> u32 \<Rightarrow> nat" where
  "page_want n p = (let remain = n - p * of_nat kPageBytes in if remain < of_nat kPageBytes then unat remain else kPageBytes)"

fun write_pages :: "('c, 'h, 'w) env \<Rightarrow> nat \<Rightarrow> u32 \<Rightarrow> nat \<Rightarrow> u32 \<Rightarrow> 'h \<Rightarrow> ('c, 'h, 'w) cp \<Rightarrow> ('c, 'h, 'w) cp \<times> 'h \<times> unit phase" where
  "write_pages E panel n 0 p h s = (s, h, Next ())"
| "write_pages E panel n (Suc left) p h s =
     (let s = kick E s;
          (h, data) = sd_read (lib E) (page_want n p) h (the_card s)
      in if length data \<noteq> page_want n p then (s, h, Break (str ''SD read error''))
         else
           let (s, ok) = sendCmd E panel (page_msg (session_nonce s) p data) kPageGapUs s
           in if \<not> ok then (s, h, Break (str ''write-page send failed''))
              else
                let (s, resp, st) = readResp E panel 2 kPageReplyWaitUs (replicate 20 0) s
                in if st \<noteq> Some 0 then (s, h, Break (str ''ISP_WRITE_PAGE '' @ dec (unat p) @ str '' failed''))
                   else write_pages E panel n left (p + 1) h s)"

section \<open>Verify, commit, reboot\<close>

definition staged_msg :: "byte list \<Rightarrow> image \<Rightarrow> byte list" where
  "staged_msg nonce im = buildMsg ISP_VERIFY_STAGED (nonce @ low24 (im_size im) @ put32 (im_crc im))"

definition verify_staged :: "('c, 'h, 'w) env \<Rightarrow> nat \<Rightarrow> image \<Rightarrow> ('c, 'h, 'w) cp \<Rightarrow> ('c, 'h, 'w) cp \<times> unit phase" where
  "verify_staged E panel im s =
     (let (s, ok) = sendCmd E panel (staged_msg (session_nonce s) im) kCmdGapUs s
      in if \<not> ok then break ''verify-staged send failed'' s
         else case pollResp E panel 6 kVerifyPollMs kVerifyTimeoutMs (replicate 20 0) s of
                None \<Rightarrow> (s\<lparr>halted := True\<rparr>, Hang)
              | Some (s, resp, None) \<Rightarrow>
                  (s, Break (take 159 (str ''verify-staged garbled CIPO: '' @ hex_dump (take 6 resp))))
              | Some (s, resp, Some st) \<Rightarrow>
                  if st \<noteq> 0
                  then (s, Break (take 159 (str ''staged CRC mismatch: panel=0x'' @ hex8 (get32 (resp ! 1) (resp ! 2) (resp ! 3) (resp ! 4))
                         @ str '' expected=0x'' @ hex8 (im_crc im) @ str '' (len='' @ dec (unat (im_size im)) @ str '')'')))
                  else (s, Next ()))"

definition commit_msg :: "byte list \<Rightarrow> image \<Rightarrow> byte list" where
  "commit_msg nonce im = buildMsg ISP_COMMIT (nonce @ low24 (im_size im))"

definition commit :: "('c, 'h, 'w) env \<Rightarrow> nat \<Rightarrow> image \<Rightarrow> ('c, 'h, 'w) cp \<Rightarrow> ('c, 'h, 'w) cp \<times> unit phase" where
  "commit E panel im s =
     (let (s, ok) = sendCmd E panel (commit_msg (session_nonce s) im) kCmdGapUs s
      in if \<not> ok then break ''commit send failed'' s
         else case pollResp E panel 2 kCommitPollMs kCommitTimeoutMs (replicate 20 0) s of
                None \<Rightarrow> (s\<lparr>halted := True\<rparr>, Hang)
              | Some (s, resp, None) \<Rightarrow>
                  break ''commit: no receipt within 15 s; run g6-verify-panel to check whether the flash took'' s
              | Some (s, resp, Some st) \<Rightarrow>
                  if st = 8 then break ''commit: OTA staging failed on panel (LittleFS/space?)'' s
                  else if st \<noteq> 0 then (s, Break (str ''commit rejected (status '' @ dec (unat st) @ str '')''))
                  else (s, Next ()))"

definition wait_alive :: "('c, 'h, 'w) env \<Rightarrow> nat \<Rightarrow> ('c, 'h, 'w) cp \<Rightarrow> ('c, 'h, 'w) cp \<times> unit phase" where
  "wait_alive E panel s =
     (case pollPanelAlive E panel s of
        None \<Rightarrow> (s\<lparr>halted := True\<rparr>, Hang)
      | Some (s, alive) \<Rightarrow>
          if alive then (s, Next ())
          else break ''panel did not come back within 12 s after OTA reboot; check power/wiring, then g6-verify-panel'' s)"

section \<open>The two operations\<close>

text \<open>A phase with its duration in milliseconds.\<close>

definition timed :: "('c, 'h, 'w) env \<Rightarrow> (('c, 'h, 'w) cp \<Rightarrow> ('c, 'h, 'w) cp \<times> unit phase) \<Rightarrow> ('c, 'h, 'w) cp \<Rightarrow> ('c, 'h, 'w) cp \<times> u32 phase" where
  "timed E f s =
     (let t0 = ms E (tick s)
      in then_phase (f (s\<lparr>tick := tick s + 1\<rparr>)) (\<lambda>_ s. (s\<lparr>tick := tick s + 1\<rparr>, Next (ms E (tick s) - t0))))"

definition num :: "u32 \<Rightarrow> byte list" where "num n = dec (unat n)"

definition flash_report :: "('c, 'h, 'w) env \<Rightarrow> nat \<Rightarrow> u32 \<Rightarrow> u32 \<Rightarrow> u32 \<Rightarrow> u32 \<Rightarrow> u32 \<Rightarrow> u32 \<Rightarrow> nat \<Rightarrow> byte list" where
  "flash_report E panel n t0 stream verify cm boot t =
     take 159 (str ''panel '' @ dec (panel + 1) @ str '' flashed via OTA ('' @ num n @ str '' bytes) in ''
       @ num ((ms E t - t0) div 1000) @ str ''.'' @ num ((ms E (t + 1) - t0) mod 1000 div 100) @ str '' s (stream ''
       @ num stream @ str '' + verify '' @ num verify @ str '' + commit '' @ num cm @ str '' + boot '' @ num boot
       @ str '' ms, '' @ num (page_count n) @ str '' pages)'')"

definition after_stream :: "('c, 'h, 'w) env \<Rightarrow> nat \<Rightarrow> image \<Rightarrow> u32 \<Rightarrow> u32 \<Rightarrow> ('c, 'h, 'w) cp \<Rightarrow> ('c, 'h, 'w) cp \<times> byte list phase" where
  "after_stream E panel im t0 stream s =
     then_phase (timed E (verify_staged E panel im) s) (\<lambda>verify s.
     then_phase (timed E (commit E panel im) s) (\<lambda>cm s.
     then_phase (timed E (wait_alive E panel) s) (\<lambda>boot s.
       (s\<lparr>tick := tick s + 2\<rparr>, Next (flash_report E panel (im_size im) t0 stream verify cm boot (tick s))))))"

definition flash :: "('c, 'h, 'w) env \<Rightarrow> nat \<Rightarrow> 'h \<Rightarrow> image \<Rightarrow> u32 \<Rightarrow> ('c, 'h, 'w) cp \<Rightarrow> 'h \<times> ('c, 'h, 'w) cp \<times> byte list phase" where
  "flash E panel h im t0 s =
     (case enter_program E panel s of
        (s, Break m) \<Rightarrow> (h, s, Break m)
      | (s, Hang) \<Rightarrow> (h, s, Hang)
      | (s, Next _) \<Rightarrow>
          let t = ms E (tick s); (h, _) = sd_seek (lib E) 0 h (the_card s);
              (s, h, r) = write_pages E panel (im_size im) (unat (page_count (im_size im))) 0 h (s\<lparr>tick := tick s + 1\<rparr>)
          in (h, then_phase (s, r) (\<lambda>_ s. after_stream E panel im t0 (ms E (tick s) - t) (s\<lparr>tick := tick s + 1\<rparr>))))"

definition verdict :: "byte list phase \<Rightarrow> bool \<times> byte list" where
  "verdict r = (case r of Next m \<Rightarrow> (True, m) | Break m \<Rightarrow> (False, m) | Hang \<Rightarrow> (False, []))"

definition programPanel :: "('c, 'h, 'w) env \<Rightarrow> nat \<Rightarrow> ('c, 'h, 'w) cp \<Rightarrow> ('c, 'h, 'w) cp \<times> bool \<times> byte list" where
  "programPanel E panel s =
     (case read_footer E s of
        (s, Next (h, im, file_size)) \<Rightarrow>
          if im_size im \<noteq> file_size - of_nat firmware_footer_byte_count
          then (with_card (sd_close (lib E) h) s, False, str ''footer size mismatch'')
          else
            let saved_mhz = getSpiClockMhz (spi_st s); s = set_clock kIspClockBMhz s;
                (h, s, r) = flash E panel h im (ms E (tick s)) (s\<lparr>tick := tick s + 1\<rparr>);
                s = set_clock saved_mhz (with_card (sd_close (lib E) h) s)
            in (s, verdict r)
      | (s, Break m) \<Rightarrow> (s, False, m)
      | (s, Hang) \<Rightarrow> (s, False, []))"

definition verify_crc_msg :: "byte list \<Rightarrow> image \<Rightarrow> byte list" where
  "verify_crc_msg nonce im = buildMsg ISP_VERIFY_CRC ([0, 0, 0] @ low24 (im_size im) @ nonce @ put32 (im_crc im))"

definition crc_report :: "nat \<Rightarrow> byte list \<Rightarrow> u32 \<Rightarrow> bool \<Rightarrow> byte list" where
  "crc_report panel resp expected match =
     take 159 (str ''panel '' @ dec (panel + 1) @ str '' running-app CRC=0x''
       @ hex8 (get32 (resp ! 1) (resp ! 2) (resp ! 3) (resp ! 4)) @ str '' expected=0x'' @ hex8 expected @ str '' -> ''
       @ (if match then str ''MATCH (this firmware is installed)'' else str ''MISMATCH (a different firmware is running)''))"

definition ask_crc :: "('c, 'h, 'w) env \<Rightarrow> nat \<Rightarrow> image \<Rightarrow> ('c, 'h, 'w) cp \<Rightarrow> ('c, 'h, 'w) cp \<times> (bool \<times> byte list) phase" where
  "ask_crc E panel im s =
     (let (s, ok) = sendCmd E panel (verify_crc_msg (session_nonce s) im) kCmdGapUs s
      in if \<not> ok then break ''verify-crc send failed'' s
         else case pollResp E panel 6 kVerifyPollMs kVerifyTimeoutMs (replicate 20 0) s of
                None \<Rightarrow> (s\<lparr>halted := True\<rparr>, Hang)
              | Some (s, resp, None) \<Rightarrow> break ''verify-crc: no/garbled reply'' s
              | Some (s, resp, Some st) \<Rightarrow> (s, Next (st = 0, crc_report panel resp (im_crc im) (st = 0))))"

definition verify_running :: "('c, 'h, 'w) env \<Rightarrow> nat \<Rightarrow> image \<Rightarrow> ('c, 'h, 'w) cp \<Rightarrow> ('c, 'h, 'w) cp \<times> (bool \<times> byte list) phase" where
  "verify_running E panel im s =
     then_phase (enter_attempts E panel 2 s) (\<lambda>(resp, st) s.
       if st \<noteq> Some 0 then break ''ISP_ENTER: no valid reply (is the panel running this ISP firmware?)'' s
       else then_phase (begin_session resp s) (\<lambda>_. ask_crc E panel im))"

definition verifyPanel :: "('c, 'h, 'w) env \<Rightarrow> nat \<Rightarrow> ('c, 'h, 'w) cp \<Rightarrow> ('c, 'h, 'w) cp \<times> bool \<times> byte list" where
  "verifyPanel E panel s =
     (case read_footer E s of
        (s, Next (h, im, file_size)) \<Rightarrow>
          let s = with_card (sd_close (lib E) h) s;
              saved_mhz = getSpiClockMhz (spi_st s);
              (s, r) = verify_running E panel im (set_clock kIspClockBMhz s);
              s = set_clock saved_mhz s
          in (case r of Next (ok, m) \<Rightarrow> (s, ok, m) | Break m \<Rightarrow> (s, False, m) | Hang \<Rightarrow> (s, False, []))
      | (s, Break m) \<Rightarrow> (s, False, m)
      | (s, Hang) \<Rightarrow> (s, False, []))"

section \<open>The host commands\<close>

definition isp_command :: "byte \<Rightarrow> string \<Rightarrow> (nat \<Rightarrow> ('c, 'h, 'w) cp \<Rightarrow> ('c, 'h, 'w) cp \<times> bool \<times> byte list)
    \<Rightarrow> byte list \<Rightarrow> nat \<Rightarrow> ('c, 'h, 'w) cp \<Rightarrow> ('c, 'h, 'w) cp" where
  "isp_command op usage f d n s =
     (if n < 3 then reply op 1 (str usage) s
      else if d ! 2 < 1 then reply op 1 (str ''panel numbers are 1-based (1..N)'') s
      else let (s, ok, m) = f (unat (d ! 2 - 1)) s
           in if halted s then s else reply op (if ok then 0 else 1) m s)"

definition handleProgramPanel :: "('c, 'h, 'w) env \<Rightarrow> byte list \<Rightarrow> nat \<Rightarrow> ('c, 'h, 'w) cp \<Rightarrow> ('c, 'h, 'w) cp" where
  "handleProgramPanel E d n s = isp_command G6_PROGRAM_PANEL_CMD ''Expected [02 C8 panel_number]'' (programPanel E) d n s"

definition handleVerifyPanel :: "('c, 'h, 'w) env \<Rightarrow> byte list \<Rightarrow> nat \<Rightarrow> ('c, 'h, 'w) cp \<Rightarrow> ('c, 'h, 'w) cp" where
  "handleVerifyPanel E d n s = isp_command G6_VERIFY_PANEL_CMD ''Expected [02 C9 panel_number]'' (verifyPanel E) d n s"

end
