(* ===== verification/Dispatch.thy ===== *)
theory Dispatch
  imports Isp
begin

text \<open>
  \<open>src/src/CommandProcessor.cpp\<close>, \<open>handleBinaryCommand\<close> and \<open>processCommand\<close>: which handler
  a command reaches, the watchdog window and the telemetry record around it, and the two sources.
\<close>

section \<open>Dispatch\<close>

text \<open>The commands that may outlast the two-second watchdog.\<close>

definition long_op :: "byte \<Rightarrow> bool" where
  "long_op c \<longleftrightarrow> c = PURGE_MEMORY_CMD \<or> c = G6_PROGRAM_PANEL_CMD \<or> c = G6_VERIFY_PANEL_CMD \<or> c = GET_SD_ARCHIVE_CMD"

definition panel_op :: "byte \<Rightarrow> string \<Rightarrow> (('c, 'h, 'w) cp \<Rightarrow> ('c, 'h, 'w) cp) \<Rightarrow> ('c, 'h, 'w) cp \<Rightarrow> ('c, 'h, 'w) cp" where
  "panel_op c why f s =
     (if cstate s \<noteq> ALL_OFF then reply c CE_DISPLAY_ACTIVE (str why) s
      else if busy s then reply c 1 (str ''SD transfer in progress'') s
      else f s)"

definition display_case :: "('c, 'h, 'w) env \<Rightarrow> byte \<Rightarrow> byte list \<Rightarrow> ('c, 'h, 'w) cp \<Rightarrow> ('c, 'h, 'w) cp option" where
  "display_case E c d s =
     (if c = ALL_OFF_CMD then Some (reply c 0 (str ''All-Off Received'') (enterAllOff E s))
      else if c = ALL_ON_CMD then
        Some (if busy s then reply c 1 (str ''SD transfer in progress'') s
              else reply c 0 (str ''All-On Received'') (enterAllOn E s))
      else if c = STOP_DISPLAY_CMD then Some (reply c 0 (str ''Display has been stopped'') (enterAllOff E s))
      else if c = SET_REFRESH_RATE_CMD then Some (setRefreshRate E d s)
      else if c = GET_REFRESH_RATE_CMD then Some (getRefreshRate s)
      else if c = SET_PANEL_DISPLAY_MODE_CMD then Some (setPanelDisplayMode d s)
      else if c = GET_PANEL_DISPLAY_MODE_CMD then Some (getPanelDisplayMode s)
      else if c = TRIAL_PARAMS_CMD then Some (handleTrialParams E d s)
      else if c = SET_FRAME_POSITION_CMD then Some (handleSetFramePosition E d s)
      else if c = GET_FRAME_POSITION_CMD then Some (getFramePosition s)
      else if c = DISPLAY_PSRAM_INDEX_CMD then Some (handleDisplayPsramIndex E d s)
      else if c = PSRAM_PLAY_CMD then Some (handlePsramPlay E d s)
      else if c = GET_FRAMES_SENT_CMD then Some (getFramesSent s)
      else if c = RESET_FRAMES_SENT_CMD then Some (resetFrames s)
      else if c = SET_PATTERN_ID_CMD then Some (setPatternId E d s)
      else if c = SET_SPI_CLOCK_CMD then Some (setSpiClock d s)
      else if c = GET_SPI_CLOCK_CMD then Some (getSpiClock s)
      else if c = SWITCH_GRAYSCALE_CMD then
        Some (reply c 1 (str ''SWITCH_GRAYSCALE dropped for G6; mode inferred from stream size'') s)
      else None)"

definition output_case :: "('c, 'h, 'w) env \<Rightarrow> byte \<Rightarrow> byte list \<Rightarrow> ('c, 'h, 'w) cp \<Rightarrow> ('c, 'h, 'w) cp option" where
  "output_case E c d s =
     (if c = SET_DIGITAL_OUT_CMD then Some (setDigitalOut E d s)
      else if c = GET_DIGITAL_OUT_CMD then Some (getDigitalOut E s)
      else if c = SET_DIO_ROLE_CMD then Some (setDioRole d s)
      else if c = GET_DIO_ROLE_CMD then Some (getDioRole E s)
      else if c = SET_AO_VOLTAGE_CMD then Some (setAoVoltage E d s)
      else if c = SET_AO_MODE_CMD then Some (setAoMode E d s)
      else if c = GET_ANALOG_IN_CMD then Some (getAnalogIn E s)
      else if c = GET_AO_VOLTAGE_CMD then Some (getAoVoltage E s)
      else if c = SET_AO_LUT_CMD then Some (setAoLut E d s)
      else None)"

definition report_case :: "('c, 'h, 'w) env \<Rightarrow> byte \<Rightarrow> byte list \<Rightarrow> ('c, 'h, 'w) cp \<Rightarrow> ('c, 'h, 'w) cp option" where
  "report_case E c d s =
     (if c = GET_ETHERNET_IP_ADDRESS_CMD then Some (getIp E s)
      else if c = GET_CONTROLLER_INFO_CMD then Some (handleGetControllerInfo E s)
      else if c = GET_HEALTH_CMD then Some (handleGetHealth E s)
      else if c = GET_FIRMWARE_VERSION_CMD then Some (handleGetFirmwareVersion E s)
      else if c = GET_CRASHREPORT_CMD then Some (handleGetCrashReport E s)
      else if c = GET_SD_INFO_CMD then Some (handleGetSdInfo E s)
      else if c = SET_SD_DIAG_CMD then Some (handleSetSdDiag E d s)
      else if c = SET_DIAG_OUTPUT_CMD then Some (setDiagOutput d s)
      else if c = GET_DIAG_OUTPUT_CMD then Some (getDiagOutput s)
      else if c = SET_TELEMETRY_CMD then Some (handleSetTelemetry E d s)
      else if c = GET_TELEMETRY_BLOCK_CMD then Some (handleGetTelemetryBlock E d s)
      else None)"

definition file_case :: "('c, 'h, 'w) env \<Rightarrow> byte \<Rightarrow> byte list \<Rightarrow> nat \<Rightarrow> ('c, 'h, 'w) cp \<Rightarrow> ('c, 'h, 'w) cp option" where
  "file_case E c d n s =
     (if c = GET_FILE_COUNT_CMD then Some (getFileCount s)
      else if c = GET_PATTERN_FILENAME_CMD then Some (getPatternFilename d s)
      else if c = GET_PATTERN_INFO_CMD then Some (getPatternInfo E d s)
      else if c = SET_PATTERN_FILENAME_CMD then Some (setPatternFilename E d s)
      else if c = GET_PATTERN_FILE_CMD then Some (getPatternFile E d s)
      else if c = DELETE_PATTERN_FILE_CMD then Some (deletePatternFile E d s)
      else if c = PURGE_MEMORY_CMD then Some (purgeMemoryCmd E s)
      else if c = GET_SD_ARCHIVE_CMD then Some (getSdArchive E s)
      else if c = GET_FIRMWARE_INFO_CMD then Some (handleGetFirmwareInfo E s)
      else if c = G6_PROGRAM_PANEL_CMD then
        Some (panel_op c ''Stop display before flashing a panel'' (handleProgramPanel E d n) s)
      else if c = G6_VERIFY_PANEL_CMD then
        Some (panel_op c ''Stop display before verifying a panel'' (handleVerifyPanel E d n) s)
      else None)"

text \<open>\<open>serial_.flushResponses()\<close> with its breadcrumb.\<close>

definition flush_usb :: "('c, 'h, 'w) env \<Rightarrow> ('c, 'h, 'w) cp \<Rightarrow> ('c, 'h, 'w) cp" where
  "flush_usb E s =
     (let room = usb_room E (tick s); wrote = (0 < resp_len (ser s) \<and> int (resp_len (ser s)) \<le> room)
      in usb_marked E wrote (s\<lparr>ser := flushResponses_usb room (ser s), tick := tick s + 1\<rparr>))"

text \<open>The reset command acknowledges, flushes, stops the refresh and never comes back.\<close>

definition reset_system :: "('c, 'h, 'w) env \<Rightarrow> ('c, 'h, 'w) cp \<Rightarrow> ('c, 'h, 'w) cp" where
  "reset_system E s =
     (let s = reply SYSTEM_RESET_CMD 0 (str ''rebooting'') s;
          s = s\<lparr>net := flushResponses_tcp (tcp_up E (tick s)) (net s), tick := tick s + 1\<rparr>
      in (disarm E (flush_usb E s))\<lparr>halted := True\<rparr>)"

definition unknown_command :: "('c, 'h, 'w) env \<Rightarrow> byte \<Rightarrow> ('c, 'h, 'w) cp \<Rightarrow> ('c, 'h, 'w) cp" where
  "unknown_command E c s = reply c 1 (str ''Unknown command'') (showError E CE_UNKNOWN_CMD s)"

definition dispatch :: "('c, 'h, 'w) env \<Rightarrow> byte \<Rightarrow> byte list \<Rightarrow> nat \<Rightarrow> ('c, 'h, 'w) cp \<Rightarrow> ('c, 'h, 'w) cp" where
  "dispatch E c d n s =
     (if c = SYSTEM_RESET_CMD then reset_system E s
      else case display_case E c d s of Some s \<Rightarrow> s | None \<Rightarrow>
             (case output_case E c d s of Some s \<Rightarrow> s | None \<Rightarrow>
               (case report_case E c d s of Some s \<Rightarrow> s | None \<Rightarrow>
                 (case file_case E c d n s of Some s \<Rightarrow> s | None \<Rightarrow> unknown_command E c s))))"

text \<open>A refused reprogramming of the watchdog leaves a record.\<close>

definition wd_note :: "('c, 'h, 'w) env \<Rightarrow> byte \<Rightarrow> 'w wd \<times> bool \<Rightarrow> ('c, 'h, 'w) cp \<Rightarrow> ('c, 'h, 'w) cp" where
  "wd_note E c = (\<lambda>(w, ok) s. let s = s\<lparr>wd_st := w\<rparr> in if ok then s else tstate E ST_TELEMETRY 0xEE (ucast c) s)"

definition record_command :: "('c, 'h, 'w) env \<Rightarrow> u32 \<Rightarrow> byte \<Rightarrow> byte list \<Rightarrow> ('c, 'h, 'w) cp \<Rightarrow> ('c, 'h, 'w) cp" where
  "record_command E t_rx_us c d s =
     (if c = GET_TELEMETRY_BLOCK_CMD then s
      else let plen = (if 1 \<le> unat (d ! 0) then unat (d ! 0) - 1 else 0)
           in s\<lparr>tel_st := cmd (us E (tick s)) t_rx_us c (lastResponseStatus (the_source (current_source s) s))
                            (slice d 2 plen) (tel_st s), tick := tick s + 1\<rparr>)"

definition handleBinaryCommand :: "('c, 'h, 'w) env \<Rightarrow> parsed_command \<Rightarrow> ('c, 'h, 'w) cp \<Rightarrow> ('c, 'h, 'w) cp" where
  "handleBinaryCommand E pc s =
     (let t_rx_us = us E (tick s); s = s\<lparr>tick := tick s + 1\<rparr>; d = pc_data pc; c = d ! 1
      in if data_len pc \<noteq> unat (d ! 0) + 1 then s
         else
           let s = (hmark E OP_CMD c s)\<lparr>last_cmd_rx_us := t_rx_us\<rparr>;
               s = (if long_op c then wd_note E c (watchdogSuspend (rtw E) (wd_st s)) s else s);
               s = dispatch E c d (data_len pc) s
           in if halted s then s
              else
                let s = hclear E s;
                    s = (if long_op c then wd_note E c (watchdogResume (rtw E) (wd_st s)) s else s)
                in record_command E t_rx_us c d s)"

section \<open>Both sources\<close>

definition blocked :: "source_id \<Rightarrow> ('c, 'h, 'w) cp \<Rightarrow> bool" where
  "blocked i s \<longleftrightarrow> dl_active (xf s) \<and> dl_source (xf s) = i \<or> ul_active (xf s) \<and> ul_source (xf s) = i
     \<or> ar_active (xf s) \<and> ar_source (xf s) = i"

definition take_command :: "('c, 'h, 'w) env \<Rightarrow> source_id \<Rightarrow> ('c, 'h, 'w) cp \<Rightarrow> ('c, 'h, 'w) cp" where
  "take_command E i s =
     (if halted s \<or> \<not> hasCommand (the_source i s) \<or> blocked i s then s
      else
        let s = s\<lparr>current_source := i\<rparr>; pc = parsed_cmd (the_source i s);
            fw = (pc_cmd pc = SET_FIRMWARE_FILE_CMD)
        in if is_bulk pc then
             let s = (if fw then wd_note E (pc_cmd pc) (watchdogSuspend (rtw E) (wd_st s)) s else s);
                 (s, handed_off) = handleBulkWriteCommand E pc s
             in if halted s then s
                else
                  let s = (if fw then wd_note E (pc_cmd pc) (watchdogResume (rtw E) (wd_st s)) s else s)
                  in if handed_off then s else consumed i s
           else
             let s = (if is_stream pc then handleStreamCommand E (pc_data pc) (data_len pc) s else handleBinaryCommand E pc s)
             in if halted s then s else consumed i s)"

definition processCommand :: "('c, 'h, 'w) env \<Rightarrow> ('c, 'h, 'w) cp \<Rightarrow> ('c, 'h, 'w) cp" where
  "processCommand E s = take_command E Ser (take_command E Net s)"

end
