(* ===== verification/MainLoop.thy ===== *)
theory MainLoop
  imports Dispatch
begin

text \<open>
  \<open>src/src/main.cpp\<close>: \<open>setup\<close> and \<open>loop\<close>. One turn of the loop runs every service once, in the
  order of the code; a turn that ends in the reset command, or in a wait that never returns,
  goes no further. The network services are commented out in \<open>loop\<close> (\<open>net.begin\<close>,
  \<open>net.serviceTcp\<close>, \<open>net.flushResponses\<close>), so the turn has none. The boot blink, the interrupt
  priorities and the vector trampolines touch no modelled state.
\<close>

section \<open>Boot\<close>

text \<open>The state after a reset: the member initialisers, and what a reset leaves in memory (the card,
  the watchdog's registers, the breadcrumb, the ISR record and the telemetry ring).\<close>

definition transfer0 :: "'h transfer" where
  "transfer0 = \<lparr>dl_h = None, dl_source = Net, dl_idx = 0, dl_remaining = 0, dl_deadline = 0, dl_active = False,
     ul_h = None, ul_source = Net, ul_idx = 0, ul_remaining = 0, ul_total = 0, ul_deadline = 0, ul_drain_deadline = 0,
     ul_active = False, ul_phase = kWriting, ul_fail_status = 0, ul_fail_msg = [], ul_path = [],
     ar_entries = [], ar_entry_idx = 0, ar_phase = kLocalHeader, ar_h = None, ar_file_remaining = 0, ar_crc = 0,
     ar_cd_offset = 0, ar_cd_size = 0, ar_source = Net, ar_deadline = 0, ar_active = False\<rparr>"

definition analog_out0 :: analog_out where
  "analog_out0 = \<lparr>ao_mv = 0, ao_mode = 0, ao_lut = replicate kAoLutMaxLen 0, ao_lut_len = 0, ao_lut_mode = 0,
     ao_lut_step_hz = 0, ao_lut_idx = 0, ao_lut_last_us = 0\<rparr>"

definition power_on :: "arena_hw \<Rightarrow> 'c \<Rightarrow> 'w wd \<Rightarrow> breadcrumb \<Rightarrow> isr_record \<Rightarrow> tel \<Rightarrow> ('c, 'h, 'w) cp" where
  "power_on b c w bc r t =
     \<lparr>cstate = ALL_OFF, blk = block_byte_count_gs16, refresh_rate_hz = refresh_rate_gs16_default b,
      refresh_rate_explicit = False, panel_disp_mode = 1, frame_buf = replicate (frame_buf_byte_count_max b) 0,
      frame_byte_count = 0, pattern_id = 0, pat_frames = 0, cur_frame = 0, frame_rate_hz = 0, gain = 0, frame_accum = 0, trial_duty = 0,
      last_advance_us = 0, last_sample_us = 0, trial_end_ms = 0, tel_last_frame = 0xFFFF, tel_last_pattern = 0xFFFF,
      frame_buf_is_frame = False, sd_cache_ok = False, sd_skip_same_index = True, last_cmd_rx_us = 0,
      pending_req_us = 0, pending_req_valid = False, frame_req_us = 0, frame_src_flags = 0, buf_presented = True,
      superseded_pending = 0, open_reads = 0, dio_roles = [kOff, kOff], error_until_ms = 0, psram_start = 0,
      psram_count = 1, psram_offset = 0, late_boot_blank_pending = True, ao = analog_out0, xf = transfer0,
      spi_st = spi0, sd_st = sd0 c, tel_st = t, wd_st = w, crumb = bc, hs = stats0, net = source0 b, ser = source0 b,
      current_source = Net, net_pipe = [], ser_pipe = [], dbg_on = False, session_nonce = [0, 0, 0, 0], halted = False,
      isr = r, pins = [], tick = 0\<rparr>"

text \<open>\<open>Health::begin\<close>: \<open>srsr\<close> is the reset-cause register; the watchdog is armed last.\<close>

definition boot_health :: "('c, 'h, 'w) env \<Rightarrow> u32 \<Rightarrow> ('c, 'h, 'w) cp \<Rightarrow> ('c, 'h, 'w) cp" where
  "boot_health E srsr s =
     (let (c, r, st) = health_begin srsr (us E (tick s)) (crumb s) (isr s) (hs s)
      in s\<lparr>crumb := c, isr := r, hs := st, tick := tick s + 1,
           wd_st := (if wd_compiled (wd_st s) \<and> wd_wanted (wd_st s) then rtwdogEarlyArm (rtw E) (wd_st s) else wd_st s)\<rparr>)"

text \<open>\<open>Telemetry::begin\<close> appends at most nine records, each with two clock readings.\<close>

definition boot_telemetry :: "('c, 'h, 'w) env \<Rightarrow> ('c, 'h, 'w) cp \<Rightarrow> ('c, 'h, 'w) cp" where
  "boot_telemetry E s =
     (let clk = (\<lambda>i. (us E (tick s + 2 * i), us E (tick s + 2 * i + 1)))
      in s\<lparr>tel_st := begin_tel (wdog3_mask E) clk (hs s) (tel_st s), tick := tick s + 20\<rparr>)"

definition setup_boot :: "('c, 'h, 'w) env \<Rightarrow> u32 \<Rightarrow> u32 \<Rightarrow> ('c, 'h, 'w) cp \<Rightarrow> ('c, 'h, 'w) cp" where
  "setup_boot E srsr tick_hz s =
     (let s = cp_begin (boot_telemetry E (boot_health E srsr s));
          s = s\<lparr>spi_st := spi_begin (board E) (spi_st s), sd_st := fst (sd_begin (lib E) (sd_st s))\<rparr>;
          s = enterAllOff E s;
          s = s\<lparr>wd_st := watchdogBegin (rtw E) tick_hz (wd_st s)\<rparr>
      in enterAllOff E s)"

section \<open>The loop\<close>

definition tick_loop :: "('c, 'h, 'w) env \<Rightarrow> ('c, 'h, 'w) cp \<Rightarrow> ('c, 'h, 'w) cp" where
  "tick_loop E s = kick E (s\<lparr>hs := loopTick (us E (tick s)) (hs s), tick := tick s + 1\<rparr>)"

definition poll_usb :: "('c, 'h, 'w) env \<Rightarrow> ('c, 'h, 'w) cp \<Rightarrow> ('c, 'h, 'w) cp" where
  "poll_usb E s =
     (let (pipe, src) = serviceUsb (board E) (ser_pipe s @ arrivals E (tick s), ser s)
      in s\<lparr>ser := src, ser_pipe := pipe, tick := tick s + 1\<rparr>)"

text \<open>One reading for the service and one for each of its at most 256 appends.\<close>

definition service_telemetry :: "('c, 'h, 'w) env \<Rightarrow> ('c, 'h, 'w) cp \<Rightarrow> ('c, 'h, 'w) cp" where
  "service_telemetry E s =
     s\<lparr>tel_st := service (us E (tick s)) (\<lambda>k. us E (tick s + 1 + k)) (tel_st s),
       tick := tick s + 1 + kSynthCatchUpMax\<rparr>"

definition unless_halted :: "(('c, 'h, 'w) cp \<Rightarrow> ('c, 'h, 'w) cp) \<Rightarrow> ('c, 'h, 'w) cp \<Rightarrow> ('c, 'h, 'w) cp" where
  "unless_halted f s = (if halted s then s else f s)"

definition loop_services :: "('c, 'h, 'w) env \<Rightarrow> (('c, 'h, 'w) cp \<Rightarrow> ('c, 'h, 'w) cp) list" where
  "loop_services E =
     [tick_loop E, serviceDisconnects E, poll_usb E, processCommand E, serviceDisplay E,
      service_telemetry E, serviceDownload E, serviceUpload E, serviceArchive E, serviceLateBootBlank E,
      flush_usb E]"

definition loop_step :: "('c, 'h, 'w) env \<Rightarrow> ('c, 'h, 'w) cp \<Rightarrow> ('c, 'h, 'w) cp" where
  "loop_step E s = fold unless_halted (loop_services E) s"

end
