(* ===== verification/Streams.thy ===== *)
theory Streams
  imports Transfers SdProps
begin

text \<open>
  What the transfer proofs share: steps reached by iterating a service, the output a source has
  committed to (written, or queued before anything that follows), a link that takes every
  chunk, a clock that is read often enough, and the contract of a card whose files do not
  change while they are read.
\<close>

section \<open>Iterating a service\<close>

definition leads :: "('s \<Rightarrow> 's) \<Rightarrow> 's \<Rightarrow> 's \<Rightarrow> bool" where
  "leads f s t \<longleftrightarrow> (\<exists>k. (f ^^ k) s = t)"

lemma leads_refl [intro]: "leads f s s"
  unfolding leads_def by (rule exI [of _ 0]) simp

lemma leads_step [intro]: "leads f s (f s)"
  unfolding leads_def by (rule exI [of _ 1]) simp

lemma leads_trans [trans]:
  assumes "leads f s t" "leads f t u"
  shows "leads f s u"
proof -
  obtain j k where "(f ^^ j) s = t" "(f ^^ k) t = u" using assms unfolding leads_def by blast
  then have "(f ^^ (k + j)) s = u" by (simp add: funpow_add)
  then show ?thesis unfolding leads_def by blast
qed

lemma leads_first: "leads f (f s) t \<Longrightarrow> leads f s t"
  by (rule leads_trans [OF leads_step])

section \<open>Deadlines that are looked at in time\<close>

lemma not_expired:
  assumes "now - now0 < idle" "idle \<le> 0x7FFFFFFF"
  shows "\<not> expired now (now0 + idle)"
proof -
  define d where "d = now - now0"
  have d: "unat d < unat idle" "unat idle \<le> 0x7FFFFFFF"
    using assms by (simp_all add: d_def word_less_nat_alt word_le_nat_alt)
  have gen: "signed_take_bit 31 (int x - int y) = int x - int y" if "x < y" "y \<le> 0x7FFFFFFF" for x y :: nat
    using that by (intro signed_take_bit_int_eq_self) simp_all
  have "now - (now0 + idle) = d - idle" by (simp add: d_def)
  also have "\<dots> = of_int (int (unat d) - int (unat idle))" by simp
  finally have "sint (now - (now0 + idle)) = signed_take_bit 31 (int (unat d) - int (unat idle))"
    by (simp only: signed_of_int len_of_numeral_defs) simp
  also have "\<dots> = int (unat d) - int (unat idle)" using d by (rule gen)
  finally show ?thesis using assms(1) by (simp add: expired_def d_def word_less_def)
qed

section \<open>The output of a source\<close>

text \<open>What the host will see before anything sent later: the bytes written and the queued reply.\<close>

definition committed :: "source \<Rightarrow> byte list" where
  "committed src = wire_out src @ take (resp_len src) (resp_buf src)"

text \<open>A link that stays up and takes every chunk of at most \<open>n\<close> bytes, after the queued reply.\<close>

definition good_link :: "('c, 'h, 'w) env \<Rightarrow> source_id \<Rightarrow> nat \<Rightarrow> bool" where
  "good_link E i n \<longleftrightarrow> (\<forall>t. isConnected E i t \<and> fst (raw_result E t) \<and> n \<le> fst (snd (raw_result E t)))"

lemma committed_flush [simp]:
  "committed (flushResponses_usb room src) = committed src" "committed (flushResponses_tcp up src) = committed src"
  by (simp_all add: committed_def flushResponses_usb_def flushResponses_tcp_def Let_def)

lemma the_source_upd [simp]:
  "the_source i (on_source i f s) = f (the_source i s)" "the_source i (s\<lparr>xf := x\<rparr>) = the_source i s"
  "the_source i (s\<lparr>tick := n\<rparr>) = the_source i s" "the_source i (s\<lparr>wd_st := w\<rparr>) = the_source i s"
  "the_source i (s\<lparr>crumb := c\<rparr>) = the_source i s" "the_source i (s\<lparr>sd_st := sd\<rparr>) = the_source i s"
  by (simp_all add: the_source_def on_source_def split: source_id.split)

lemma kicks_keep [simp]:
  "xf ((kick E ^^ k) s) = xf s" "sd_st ((kick E ^^ k) s) = sd_st s" "tick ((kick E ^^ k) s) = tick s"
  "the_source i ((kick E ^^ k) s) = the_source i s" "cstate ((kick E ^^ k) s) = cstate s"
  by (induction k) (simp_all add: kick_def)

lemma on_source_keep [simp]:
  "xf (on_source i f s) = xf s" "sd_st (on_source i f s) = sd_st s" "tick (on_source i f s) = tick s"
  "current_source (on_source i f s) = current_source s"
  by (simp_all add: on_source_def split: source_id.split)

lemma marked_keep [simp]:
  "xf (usb_marked E w s) = xf s" "sd_st (usb_marked E w s) = sd_st s" "the_source i (usb_marked E w s) = the_source i s"
  by (simp_all add: usb_marked_def hmark_def hclear_def)

lemma send_raw_good:
  assumes "good_link E i n" "length buf \<le> n"
  shows "snd (send_raw E i buf s) = length buf" "xf (fst (send_raw E i buf s)) = xf s"
    "sd_st (fst (send_raw E i buf s)) = sd_st s"
    "committed (the_source i (fst (send_raw E i buf s))) = committed (the_source i s) @ buf"
proof -
  obtain fl acc ks where r: "raw_result E (tick s) = (fl, acc, ks)" by (cases "raw_result E (tick s)") auto
  have g: "fl" "n \<le> acc" "isConnected E i (tick s)" using assms(1) r unfolding good_link_def by (metis fst_conv snd_conv)+
  have len: "min acc (length buf) = length buf" using g assms(2) by simp
  define src where "src = snd (raw_outcome i True True acc buf (the_source i s))"
  have out: "raw_outcome i True True acc buf (the_source i s) = (length buf, src)"
    by (simp add: src_def raw_outcome_def Let_def len)
  have "committed src = committed (the_source i s) @ buf"
    by (cases i) (auto simp: src_def raw_outcome_def Let_def committed_def flushResponses_usb_def flushResponses_tcp_def len)
  then show "snd (send_raw E i buf s) = length buf" "xf (fst (send_raw E i buf s)) = xf s"
    "sd_st (fst (send_raw E i buf s)) = sd_st s"
    "committed (the_source i (fst (send_raw E i buf s))) = committed (the_source i s) @ buf"
    using g by (simp_all add: send_raw_def r out Let_def)
qed

section \<open>Files that hold still\<close>

text \<open>The card while nothing writes to it: \<open>file_of\<close> gives the bytes of a path, \<open>rest\<close> what a handle has
  yet to read. A read returns a prefix of the rest, empty only at its end (or when nothing was
  asked for), and closing changes nothing.\<close>

locale still_card =
  fixes L :: "('c, 'h) sdlib" and c :: 'c and file_of :: "byte list \<Rightarrow> byte list option" and rest :: "'h \<Rightarrow> byte list"
  assumes opened: "file_of p = Some bs \<Longrightarrow> \<exists>h. sd_open L p c = Some h \<and> rest h = bs \<and> sd_size L h c = length bs"
    and missing: "file_of p = None \<Longrightarrow> sd_open L p c = None"
    and reading: "sd_read L n h c = (h', bs) \<Longrightarrow> rest h = bs @ rest h' \<and> length bs \<le> n \<and> (bs = [] \<longrightarrow> n = 0 \<or> rest h = [])"
    and closing: "sd_close L h c = c"

text \<open>With seeking: a handle stands in a file, and seeking moves it to an offset of that file.\<close>

locale seekable_card = still_card L c file_of rest
  for L :: "('c, 'h) sdlib" and c :: 'c and file_of :: "byte list \<Rightarrow> byte list option" and rest :: "'h \<Rightarrow> byte list" +
  fixes whole :: "'h \<Rightarrow> byte list"
  assumes opened_whole: "sd_open L p c = Some h \<Longrightarrow> whole h = rest h"
    and reading_whole: "sd_read L n h c = (h', bs) \<Longrightarrow> whole h' = whole h"
    and seeking: "sd_seek L n h c = (h', ok) \<Longrightarrow> whole h' = whole h \<and> rest h' = drop n (whole h)"

interpretation flat: still_card flat_card c "\<lambda>_. Some c" "\<lambda>h. drop h c" for c
proof unfold_locales
  fix n h h' bs
  assume "sd_read flat_card n h c = (h', bs)"
  then have "h' = h + n" "bs = take n (drop h c)" by (simp_all add: flat_card_def)
  moreover have "drop (h + n) c = drop n (drop h c)" by (simp add: add.commute)
  ultimately show "drop h c = bs @ drop h' c \<and> length bs \<le> n \<and> (bs = [] \<longrightarrow> n = 0 \<or> drop h c = [])"
    by (simp del: drop_drop)
qed (simp_all add: flat_card_def)

interpretation flat: seekable_card flat_card c "\<lambda>_. Some c" "\<lambda>h. drop h c" "\<lambda>_. c" for c
  by unfold_locales (auto simp: flat_card_def)

end
