(* ===== verification/Bench.thy ===== *)
theory Bench
  imports MainLoop SdProps EngineProps Streams TelemetryProps HealthProps Watchdog
begin

text \<open>
  One concrete environment for the witnesses: a card that opens every path on the same bytes, the
  register file of the watchdog, clocks that count the readings, a link that takes every chunk,
  and a machine fresh from power-on.
\<close>

definition bench :: "arena_hw \<Rightarrow> (byte list, nat, u32 \<times> u32) env" where
  "bench b = \<lparr>board = b, rtw = reg_file, lib = flat_card, us = of_nat, ms = of_nat, pit_free = \<lambda>_. True, nvic_on = \<lambda>_. True,
     i2c_ok = \<lambda>_. True, card_err = \<lambda>_. 0, card_err_data = \<lambda>_. 0, sd_phases = \<lambda>_. (0, 0, 0), sectors_per_cluster = \<lambda>_. 64,
     fat_type = \<lambda>_. 32, pin_level = \<lambda>_ _. False, adc = \<lambda>_. 512, arrivals = \<lambda>_. [], tcp_up = \<lambda>_. True,
     new_client = \<lambda>_. None, raw_result = \<lambda>_. (True, 4096, 0), usb_room = \<lambda>_. 4096, miso = \<lambda>_. [], i2c_bytes = \<lambda>_. [],
     cid = \<lambda>_. None, csd_sectors = \<lambda>_. None, card_kind = \<lambda>_. None, bytes_per_cluster = \<lambda>_. 32768,
     crash_memory = \<lambda>_. [], wdog3_mask = 0, mac_bytes = [], ip_string = [], build_sha = [], build_date = [],
     build_branch = [], build_dirty = False, wait_fuel = 0\<rparr>"

definition machine0 :: "arena_hw \<Rightarrow> byte list \<Rightarrow> (byte list, nat, u32 \<times> u32) cp" where
  "machine0 b c = power_on b c (wd0 True (0x2520, 0)) \<lparr>bc_magic = 0, last_op = 0, op_arg = 0, slow_op = 0, stamp_us = 0,
     slow_us = 0, bc_check = 0\<rparr> isr0 blank_tel"

end
