(* ===== verification/LoopInv.thy ===== *)
theory LoopInv
  imports MainLoop EngineSteps Bench
begin

text \<open>
  The display-engine invariant through the whole firmware: every command of the dispatch, every
  transfer step, the panel programmer, the boot and a turn of the main loop keep it.
\<close>

section \<open>Updates\<close>

lemma engine_upd [simp]:
  "engine_ok b (s\<lparr>xf := x\<rparr>) = engine_ok b s" "engine_ok b (s\<lparr>net := src\<rparr>) = engine_ok b s"
  "engine_ok b (s\<lparr>ser := src\<rparr>) = engine_ok b s" "engine_ok b (s\<lparr>net_pipe := p\<rparr>) = engine_ok b s"
  "engine_ok b (s\<lparr>ser_pipe := p\<rparr>) = engine_ok b s" "engine_ok b (s\<lparr>ao := a\<rparr>) = engine_ok b s"
  "engine_ok b (s\<lparr>pins := ps\<rparr>) = engine_ok b s" "engine_ok b (s\<lparr>dio_roles := rs\<rparr>) = engine_ok b s"
  "engine_ok b (s\<lparr>tel_st := t\<rparr>) = engine_ok b s" "engine_ok b (s\<lparr>wd_st := w\<rparr>) = engine_ok b s"
  "engine_ok b (s\<lparr>crumb := c\<rparr>) = engine_ok b s" "engine_ok b (s\<lparr>hs := h\<rparr>) = engine_ok b s"
  "engine_ok b (s\<lparr>isr := i\<rparr>) = engine_ok b s" "engine_ok b (s\<lparr>halted := v\<rparr>) = engine_ok b s"
  "engine_ok b (s\<lparr>session_nonce := nc\<rparr>) = engine_ok b s" "engine_ok b (s\<lparr>dbg_on := v\<rparr>) = engine_ok b s"
  "engine_ok b (s\<lparr>current_source := i'\<rparr>) = engine_ok b s" "engine_ok b (s\<lparr>trial_duty := d\<rparr>) = engine_ok b s"
  "engine_ok b (s\<lparr>sd_skip_same_index := v\<rparr>) = engine_ok b s" "engine_ok b (s\<lparr>sd_cache_ok := v\<rparr>) = engine_ok b s"
  "engine_ok b (s\<lparr>refresh_rate_hz := hz\<rparr>) = engine_ok b s" "engine_ok b (s\<lparr>refresh_rate_explicit := v\<rparr>) = engine_ok b s"
  "engine_ok b (s\<lparr>last_cmd_rx_us := t'\<rparr>) = engine_ok b s"
  by (simp_all add: engine_ok_def geometry_def playback_def)

lemma engine_sd [simp]: "fits b sd \<Longrightarrow> engine_ok b s \<Longrightarrow> engine_ok b (s\<lparr>sd_st := sd\<rparr>)"
  by (simp add: engine_ok_def geometry_def playback_def)

lemma engine_spi: "wired b sp \<Longrightarrow> armed_hz sp = armed_hz (spi_st s) \<Longrightarrow> engine_ok b s \<Longrightarrow> engine_ok b (s\<lparr>spi_st := sp\<rparr>)"
  by (simp add: engine_ok_def geometry_def playback_def)

lemma engine_fits: "engine_ok b s \<Longrightarrow> fits b (sd_st s)"
  by (simp add: engine_ok_def)

lemma engine_wired: "engine_ok b s \<Longrightarrow> wired b (spi_st s)"
  by (simp add: engine_ok_def)

lemma engine_on_source [simp]: "engine_ok b (on_source i f s) = engine_ok b s"
  by (simp add: on_source_def split: source_id.splits)

lemma engine_calls [simp]:
  "engine_ok b (fst (writeDacMv E mv s)) = engine_ok b s" "engine_ok b (fst (applyAoLut E i s)) = engine_ok b s"
  by (auto elim: same_engine_ok)

lemma engine_dropCache [simp]: "engine_ok b (dropFrameCache s) = engine_ok b s"
  by (simp add: dropFrameCache_def engine_ok_def geometry_def playback_def)

lemma wired_more [simp]:
  "wired b (setSpiClockMhz mhz sp) = wired b sp" "wired b (resetFramesSent sp) = wired b sp"
  by (simp_all add: wired_def gate_pins_def setSpiClockMhz_def resetFramesSent_def Let_def)

lemma armed_more [simp]:
  "armed_hz (setSpiClockMhz mhz sp) = armed_hz sp" "armed_hz (resetFramesSent sp) = armed_hz sp"
  "armed_hz (setFramescanGatePins p q sp) = armed_hz sp" "armed_hz (emit es sp) = armed_hz sp"
  by (simp_all add: setSpiClockMhz_def resetFramesSent_def setFramescanGatePins_def emit_def Let_def)

section \<open>Commands\<close>

lemma fits_step:
  assumes "fits b s"
  shows "fits b (fst (readPatternInfo L i s))" "fits b (fst (deletePattern L i s))" "fits b (fst (purgeMemory L s))"
    "fits b (fst (renamePattern L i nm s))" "fits b (setLegacySeek v s)"
  using sd_step_fits [OF assms, of L "Meta i"] sd_step_fits [OF assms, of L "Delete i"]
    sd_step_fits [OF assms, of L Purge] sd_step_fits [OF assms, of L "RenameTo i nm"]
    sd_step_fits [OF assms, of L "LegacySeek v"] by simp_all

lemma setRefreshRate_ok: "engine_ok (board E) s \<Longrightarrow> engine_ok (board E) (setRefreshRate E d s)"
  unfolding setRefreshRate_def Let_def case_prod_beta
  by (simp add: arm_ok)

lemma setPanelDisplayMode_ok:
  assumes "engine_ok b s"
  shows "engine_ok b (setPanelDisplayMode d s)"
proof -
  have "engine_ok b (patchDispMode (s\<lparr>panel_disp_mode := m\<rparr>))" if "\<not> 3 < m" for m
  proof -
    have "m < 4" using that by (simp add: not_less word_le_nat_alt word_less_nat_alt)
    then have "engine_ok b (s\<lparr>panel_disp_mode := m\<rparr>)" "geometry b (s\<lparr>panel_disp_mode := m\<rparr>)"
      using assms by (simp_all add: engine_ok_def geometry_def playback_def)
    then show ?thesis using patch_lengths(1) [of b "s\<lparr>panel_disp_mode := m\<rparr>"]
      by (simp add: engine_ok_def geometry_def playback_def)
  qed
  then show ?thesis using assms by (simp add: setPanelDisplayMode_def)
qed

lemma setPatternId_ok:
  assumes "engine_ok (board E) s" "reads_bounded (lib E)"
  shows "engine_ok (board E) (setPatternId E d s)"
proof -
  have "engine_ok (board E) (fst (enterPatternMode E SHOW_FRAME i 0 0 0 0 (s\<lparr>trial_duty := 0\<rparr>)))" for i
    by (intro enterPattern_ok same_data_ok [OF engineD [OF assms(1)]] assms(2)) simp_all
  then show ?thesis
    using assms unfolding setPatternId_def Let_def case_prod_beta by simp
qed

lemma cs_pins_free: "35 \<notin> set (cs_of b)" "37 \<notin> set (cs_of b)"
  by (cases b; simp add: cs_of_def panel_sets_10_10_def panel_sets_12_18_def panel_sets_2_10_def)+

lemma applyDioRole_ok [simp]: "engine_ok b s \<Longrightarrow> engine_ok b (applyDioRole port role s)"
  unfolding applyDioRole_def Let_def
  using cs_pins_free [of b]
  by (simp add: engine_ok_def geometry_def playback_def wired_def gate_pins_def setFramescanGatePins_def
      do1_data_pin_def do2_data_pin_def)

lemma engine_fits_step [simp]:
  assumes "engine_ok b s"
  shows "fits b (fst (readPatternInfo L i (sd_st s)))" "fits b (fst (deletePattern L i (sd_st s)))"
    "fits b (fst (purgeMemory L (sd_st s)))" "fits b (fst (renamePattern L i nm ((sd_st s)\<lparr>card := c\<rparr>)))"
    "fits b (setLegacySeek v (sd_st s))" "fits b ((sd_st s)\<lparr>card := c\<rparr>)"
  using engine_fits [OF assms] by (simp_all add: fits_step)

lemma catalogue_ok [simp]:
  assumes "engine_ok b s"
  shows "engine_ok b (getPatternInfo E d s)" "engine_ok b (setPatternFilename E d s)"
    "engine_ok b (deletePatternFile E d s)" "engine_ok b (purgeMemoryCmd E s)"
    "engine_ok b (getPatternFilename d s)" "engine_ok b (getFileCount s)"
  using assms
  unfolding getPatternInfo_def setPatternFilename_def deletePatternFile_def purgeMemoryCmd_def getPatternFilename_def
    getFileCount_def Let_def case_prod_beta
  by (simp_all split: option.split sum.split)

lemma display_params_ok [simp]:
  assumes "engine_ok b s"
  shows "engine_ok b (getRefreshRate s)" "engine_ok b (getPanelDisplayMode s)" "engine_ok b (getFramePosition s)"
    "engine_ok b (getFramesSent s)" "engine_ok b (resetFrames s)" "engine_ok b (setSpiClock d s)" "engine_ok b (getSpiClock s)"
  using assms engine_wired [OF assms]
  by (simp_all add: getRefreshRate_def getPanelDisplayMode_def getFramePosition_def getFramesSent_def resetFrames_def
      setSpiClock_def getSpiClock_def engine_spi Let_def)

lemma outputs_ok [simp]:
  assumes "engine_ok b s"
  shows "engine_ok b (setDigitalOut E d s)" "engine_ok b (getDigitalOut E s)" "engine_ok b (setDioRole d s)"
    "engine_ok b (getDioRole E s)" "engine_ok b (setAoVoltage E d s)" "engine_ok b (setAoMode E d s)"
    "engine_ok b (getAnalogIn E s)" "engine_ok b (getAoVoltage E s)" "engine_ok b (setAoLut E d s)"
  using assms
  unfolding setDigitalOut_def getDigitalOut_def setDioRole_def getDioRole_def setAoVoltage_def setAoMode_def
    getAnalogIn_def getAoVoltage_def setAoLut_def Let_def case_prod_beta
  by simp_all

lemma reports_ok [simp]:
  assumes "engine_ok b s"
  shows "engine_ok b (setDiagOutput d s)" "engine_ok b (getDiagOutput s)" "engine_ok b (handleSetSdDiag E d s)"
    "engine_ok b (handleGetSdInfo E s)" "engine_ok b (handleSetTelemetry E d s)"
    "engine_ok b (handleGetTelemetryBlock E d s)" "engine_ok b (getIp E s)" "engine_ok b (handleGetControllerInfo E s)"
    "engine_ok b (handleGetFirmwareVersion E s)" "engine_ok b (handleGetCrashReport E s)" "engine_ok b (handleGetHealth E s)"
  using assms
  unfolding setDiagOutput_def getDiagOutput_def handleSetSdDiag_def handleGetSdInfo_def handleSetTelemetry_def
    handleGetTelemetryBlock_def getIp_def handleGetControllerInfo_def handleGetFirmwareVersion_def
    handleGetCrashReport_def handleGetHealth_def Let_def case_prod_beta
  by simp_all

section \<open>Transfers\<close>

lemma with_card_ok [simp]: "engine_ok b s \<Longrightarrow> engine_ok b (with_card f s)"
  by (simp add: with_card_def engine_fits)

lemma close_opt_ok [simp]: "engine_ok b s \<Longrightarrow> engine_ok b (close_opt E h s)"
  by (simp add: close_opt_def split: option.split)

lemma source_calls_ok [simp]:
  "engine_ok b (reply_to i c st p s) = engine_ok b s" "engine_ok b (consumed i s) = engine_ok b s"
  "engine_ok b (kick E s) = engine_ok b s" "engine_ok b (usb_marked E w s) = engine_ok b s"
  by (simp_all add: reply_to_def consumed_def kick_def usb_marked_def)

lemma kicks_ok [simp]: "engine_ok b ((kick E ^^ k) s) = engine_ok b s"
  by (induction k) simp_all

lemma raw_io_ok [simp]:
  "engine_ok b (fst (send_raw E i buf s)) = engine_ok b s" "engine_ok b (fst (read_bulk E i n s)) = engine_ok b s"
  by (simp_all add: send_raw_def read_bulk_def Let_def case_prod_beta split: source_id.split)

lemma download_ok [simp]:
  assumes "engine_ok b s"
  shows "engine_ok b (endDownload E s)" "engine_ok b (getPatternFile E d s)" "engine_ok b (serviceDownload E s)"
  using assms unfolding endDownload_def getPatternFile_def serviceDownload_def Let_def case_prod_beta
  by (simp_all split: option.split)

lemma upload_parts_ok [simp]:
  assumes "engine_ok b s"
  shows "engine_ok b (ul_fail E m s)" "engine_ok b (ul_finish st p s)" "engine_ok b (abortUpload E s)"
  using assms by (simp_all add: ul_fail_def ul_finish_def abortUpload_def Let_def)

lemma ul_write_ok [simp]: "engine_ok b s \<Longrightarrow> engine_ok b (ul_write E bs s)"
  unfolding ul_write_def Let_def case_prod_beta by simp

lemma ul_chunk_ok [simp]: "engine_ok b s \<Longrightarrow> engine_ok b (ul_chunk E bs s)"
  unfolding ul_chunk_def Let_def by (simp split: upload_phase.split)

lemma serviceUpload_ok [simp]: "engine_ok b s \<Longrightarrow> engine_ok b (serviceUpload E s)"
  unfolding serviceUpload_def Let_def case_prod_beta by simp

lemma drain_loop_ok: "drain_loop E fuel start t0 n s = Some s' \<Longrightarrow> engine_ok b s' = engine_ok b s"
  by (induction fuel arbitrary: t0 n s) (auto simp: Let_def case_prod_beta split: if_splits)

lemma drain_ok [simp]: "engine_ok b (drainBulkData E n s) = engine_ok b s"
  by (auto simp: drainBulkData_def Let_def drain_loop_ok split: option.split)

lemma reject_ok [simp]: "engine_ok b (reject_bulk E c st m n s) = engine_ok b s"
  by (simp add: reject_bulk_def Let_def)

lemma setPatternFile_ok [simp]: "engine_ok b s \<Longrightarrow> engine_ok b (fst (setPatternFile E pc s))"
  unfolding setPatternFile_def Let_def case_prod_beta by (simp add: arm_upload_def split: option.split)

lemma fw_loop_ok: "fw_loop E fuel crc t n h s = Some (r, crc', n', h', s') \<Longrightarrow> engine_ok b s \<Longrightarrow> engine_ok b s'"
  by (induction fuel arbitrary: crc t n h s) (auto simp: Let_def case_prod_beta split: if_splits)

lemma firmware_ok [simp]:
  assumes "engine_ok b s"
  shows "engine_ok b (handleSetFirmwareFile E n s)" "engine_ok b (handleGetFirmwareInfo E s)"
  using assms unfolding handleSetFirmwareFile_def handleGetFirmwareInfo_def Let_def case_prod_beta
  by (auto split: option.split intro!: with_card_ok elim!: fw_loop_ok)

lemma bulk_ok [simp]: "engine_ok b s \<Longrightarrow> engine_ok b (fst (handleBulkWriteCommand E pc s))"
  by (simp add: handleBulkWriteCommand_def)

lemma archive_start_ok [simp]:
  assumes "engine_ok b s"
  shows "engine_ok b (getSdArchive E s)" "engine_ok b (abortArchive E s)"
  using assms unfolding getSdArchive_def handleGetSdArchive_def abortArchive_def Let_def case_prod_beta by simp_all

lemma ar_sent_ok [simp]: "engine_ok b s \<Longrightarrow> engine_ok b (ar_sent E buf f s)"
  unfolding ar_sent_def Let_def case_prod_beta by simp

lemma archive_phases_ok [simp]:
  assumes "engine_ok b s"
  shows "engine_ok b (ar_local E s)" "engine_ok b (ar_chunk E bs s)" "engine_ok b (ar_descriptor E s)"
    "engine_ok b (ar_central E s)" "engine_ok b (ar_eocd E s)"
  using assms unfolding ar_local_def ar_chunk_def ar_descriptor_def ar_central_def ar_eocd_def Let_def case_prod_beta
  by simp_all

lemma ar_data_ok [simp]: "engine_ok b s \<Longrightarrow> engine_ok b (ar_data E s)"
  unfolding ar_data_def Let_def case_prod_beta by simp

lemma serviceArchive_ok [simp]: "engine_ok b s \<Longrightarrow> engine_ok b (serviceArchive E s)"
  unfolding serviceArchive_def Let_def by (simp split: archive_phase.split)

lemma disconnects_ok [simp]: "engine_ok b s \<Longrightarrow> engine_ok b (serviceDisconnects E s)"
  unfolding serviceDisconnects_def Let_def by simp

section \<open>The panel programmer\<close>

lemma single_engine [simp]:
  "wired b (fst (transferSinglePanel b' p copi sp)) = wired b sp"
  "armed_hz (fst (transferSinglePanel b' p copi sp)) = armed_hz sp"
  by (auto simp: transferSinglePanel_def beginBus_def wired_def gate_pins_def emit_def Let_def split: option.split prod.split)

lemma isp_calls_ok [simp]:
  assumes "engine_ok b s"
  shows "engine_ok b (wait_us u s)" "engine_ok b (wait_ms u s)" "engine_ok b (set_clock mhz s)"
    "engine_ok b (fst (panel_xfer E p copi s))" "engine_ok b (fst (sendCmd E p msg g s))"
proof -
  have x: "engine_ok b (fst (panel_xfer E p copi t))" if "engine_ok b t" for t copi
    using engine_wired [OF that] that by (simp add: panel_xfer_def case_prod_beta engine_spi)
  have w: "engine_ok b (wait_us u t)" "engine_ok b (wait_ms u t)" "engine_ok b (set_clock mhz t)" if "engine_ok b t" for t u mhz
    using engine_wired [OF that] that by (simp_all add: wait_us_def wait_ms_def set_clock_def engine_spi)
  show "engine_ok b (wait_us u s)" "engine_ok b (wait_ms u s)" "engine_ok b (set_clock mhz s)"
    "engine_ok b (fst (panel_xfer E p copi s))" "engine_ok b (fst (sendCmd E p msg g s))"
    using assms by (simp_all add: sendCmd_def x w)
qed

lemma readResp_ok [simp]: "engine_ok b s \<Longrightarrow> engine_ok b (fst (readResp E p n w resp s))"
  unfolding readResp_def Let_def case_prod_beta by (simp split: option.split)

lemma poll_loop_ok:
  "poll_loop E fuel p n pm to t0 resp s = Some r \<Longrightarrow> engine_ok b s \<Longrightarrow> engine_ok b (fst r)"
  by (induction fuel arbitrary: resp s) (auto simp: Let_def case_prod_beta split: if_splits)

lemma pollResp_ok: "pollResp E p n pm to resp s = Some r \<Longrightarrow> engine_ok b s \<Longrightarrow> engine_ok b (fst r)"
  unfolding pollResp_def by (erule poll_loop_ok) simp

lemma alive_loop_ok:
  "alive_loop E fuel p t0 pr s = Some r \<Longrightarrow> engine_ok b s \<Longrightarrow> engine_ok b (fst r)"
  by (induction fuel arbitrary: pr s) (auto simp: Let_def case_prod_beta simp del: insert_iff split: if_splits)

lemma pollPanelAlive_ok: "pollPanelAlive E p s = Some r \<Longrightarrow> engine_ok b s \<Longrightarrow> engine_ok b (fst r)"
  unfolding pollPanelAlive_def by (erule alive_loop_ok) simp

lemma then_phase_ok:
  assumes "engine_ok b (fst r)" "\<And>a s. engine_ok b s \<Longrightarrow> engine_ok b (fst (f a s))"
  shows "engine_ok b (fst (then_phase r f))"
  using assms by (auto simp: then_phase_def split: prod.split phase.split)

lemma break_ok [simp]: "engine_ok b (fst (break m s)) = engine_ok b s"
  by (simp add: break_def)

lemma enter_attempts_ok [simp]: "engine_ok b s \<Longrightarrow> engine_ok b (fst (enter_attempts E p k s))"
  by (induction k arbitrary: s) (auto simp: Let_def case_prod_beta)

lemma begin_session_ok [simp]: "engine_ok b s \<Longrightarrow> engine_ok b (fst (begin_session r s))"
  by (simp add: begin_session_def)

lemma enter_program_ok [simp]: "engine_ok b s \<Longrightarrow> engine_ok b (fst (enter_program E p s))"
  unfolding enter_program_def by (rule then_phase_ok) (auto split: option.split)

lemma write_pages_ok [simp]: "engine_ok b s \<Longrightarrow> engine_ok b (fst (write_pages E p n k i h s))"
  by (induction k arbitrary: i h s) (auto simp: Let_def case_prod_beta)

lemma panel_phases_ok [simp]:
  assumes "engine_ok b s"
  shows "engine_ok b (fst (verify_staged E p im s))" "engine_ok b (fst (commit E p im s))" "engine_ok b (fst (wait_alive E p s))"
proof -
  have x: "engine_ok b (fst (sendCmd E p m g s))" for m g using assms by simp
  show "engine_ok b (fst (verify_staged E p im s))" "engine_ok b (fst (commit E p im s))"
    using x [THEN [2] pollResp_ok] x
    unfolding verify_staged_def commit_def Let_def case_prod_beta
    by (fastforce split: option.split)+
  show "engine_ok b (fst (wait_alive E p s))"
    using assms pollPanelAlive_ok by (fastforce simp: wait_alive_def split: option.split)
qed

lemma timed_ok:
  assumes "\<And>t. engine_ok b t \<Longrightarrow> engine_ok b (fst (f t))" "engine_ok b s"
  shows "engine_ok b (fst (timed E f s))"
  unfolding timed_def Let_def by (rule then_phase_ok) (simp_all add: assms)

lemma after_stream_ok [simp]: "engine_ok b s \<Longrightarrow> engine_ok b (fst (after_stream E p im t0 st s))"
  unfolding after_stream_def Let_def by (intro then_phase_ok timed_ok) simp_all

lemma flash_ok [simp]:
  assumes "engine_ok b s"
  shows "engine_ok b (fst (snd (flash E p h im t0 s)))"
proof -
  have e: "engine_ok b (fst (enter_program E p s))" using assms by simp
  obtain t r where r: "enter_program E p s = (t, r)" by fastforce
  have t: "engine_ok b t" using e r by simp
  have w: "engine_ok b (fst (write_pages E p n k i h' (t\<lparr>tick := m\<rparr>)))" for n k i h' m using t by simp
  show ?thesis
    unfolding flash_def r Let_def case_prod_beta using t w
    by (cases r) (auto intro!: then_phase_ok simp: case_prod_beta)
qed

lemma read_footer_ok [simp]: "engine_ok b s \<Longrightarrow> engine_ok b (fst (read_footer E s))"
  unfolding read_footer_def Let_def case_prod_beta by (simp split: option.split)

lemma programPanel_ok [simp]: "engine_ok b s \<Longrightarrow> engine_ok b (fst (programPanel E p s))"
proof -
  assume s: "engine_ok b s"
  obtain t r where r: "read_footer E s = (t, r)" by fastforce
  have t: "engine_ok b t" using read_footer_ok [OF s, of E] r by simp
  show ?thesis
    unfolding programPanel_def r Let_def using t by (cases r) (simp_all add: case_prod_beta)
qed

lemma ask_crc_ok [simp]: "engine_ok b s \<Longrightarrow> engine_ok b (fst (ask_crc E p im s))"
proof -
  assume "engine_ok b s"
  then have x: "engine_ok b (fst (sendCmd E p m g s))" for m g by simp
  show ?thesis
    using x [THEN [2] pollResp_ok] x unfolding ask_crc_def Let_def case_prod_beta
    by (fastforce split: option.split)
qed

lemma verify_running_ok [simp]: "engine_ok b s \<Longrightarrow> engine_ok b (fst (verify_running E p im s))"
  unfolding verify_running_def by (rule then_phase_ok) (auto intro!: then_phase_ok)

lemma verifyPanel_ok [simp]: "engine_ok b s \<Longrightarrow> engine_ok b (fst (verifyPanel E p s))"
proof -
  assume s: "engine_ok b s"
  obtain t r where r: "read_footer E s = (t, r)" by fastforce
  have t: "engine_ok b t" using read_footer_ok [OF s, of E] r by simp
  show ?thesis
    unfolding verifyPanel_def r Let_def using t by (cases r) (simp_all add: case_prod_beta split: phase.split)
qed

lemma isp_commands_ok [simp]:
  assumes "engine_ok b s"
  shows "engine_ok b (handleProgramPanel E d n s)" "engine_ok b (handleVerifyPanel E d n s)"
  using assms unfolding handleProgramPanel_def handleVerifyPanel_def isp_command_def Let_def case_prod_beta by simp_all

section \<open>Dispatch\<close>

lemma flush_ok [simp]: "engine_ok b (flush_usb E s) = engine_ok b s"
  by (simp add: flush_usb_def Let_def)

lemma disarm_ok [simp]: "engine_ok b s \<Longrightarrow> engine_ok b (disarm E s)"
  by (simp add: engine_ok_def geometry_def playback_def)

lemma reset_ok [simp]: "engine_ok b s \<Longrightarrow> engine_ok b (reset_system E s)"
  by (simp add: reset_system_def Let_def)

lemma allOn_engine [simp]: "engine_ok (board E) s \<Longrightarrow> engine_ok (board E) (enterAllOn E s)"
  by (intro enterAllOn_ok data_pre engineD)

lemma unknown_ok [simp]: "engine_ok (board E) s \<Longrightarrow> engine_ok (board E) (unknown_command E c s)"
  by (simp add: unknown_command_def showErr_ok)

lemma panel_op_ok [simp]: "engine_ok b s \<Longrightarrow> engine_ok b (f s) \<Longrightarrow> engine_ok b (panel_op c why f s)"
  by (simp add: panel_op_def)

lemma display_case_ok:
  assumes "engine_ok (board E) s" "reads_bounded (lib E)" "display_case E c d s = Some s'"
  shows "engine_ok (board E) s'"
  using assms(3) allOff_ok [OF assms(1) refl] assms(1) trialParams_ok [OF assms(1,2)] setFramePosition_ok [OF assms(1,2)]
    setPatternId_ok [OF assms(1,2)] setRefreshRate_ok [OF assms(1)] setPanelDisplayMode_ok [OF assms(1)]
    psramIndex_ok [OF assms(1)] psramPlayCmd_ok [OF assms(1)]
  unfolding display_case_def by (auto split: if_splits)

lemma other_cases_ok:
  assumes "engine_ok b s"
  shows "output_case E c d s = Some s' \<Longrightarrow> engine_ok b s'" "report_case E c d s = Some s' \<Longrightarrow> engine_ok b s'"
    "file_case E c d n s = Some s' \<Longrightarrow> engine_ok b s'"
  using assms unfolding output_case_def report_case_def file_case_def by (auto split: if_splits)

lemma dispatch_ok:
  assumes "engine_ok (board E) s" "reads_bounded (lib E)"
  shows "engine_ok (board E) (dispatch E c d n s)"
  using assms display_case_ok other_cases_ok [OF assms(1)]
  by (fastforce simp: dispatch_def split: option.split)

lemma wd_note_ok [simp]: "engine_ok b (wd_note E c r s) = engine_ok b s"
  by (simp add: wd_note_def Let_def case_prod_beta)

lemma record_ok [simp]: "engine_ok b (record_command E t c d s) = engine_ok b s"
  by (simp add: record_command_def Let_def)

lemma binary_ok:
  assumes "engine_ok (board E) s" "reads_bounded (lib E)"
  shows "engine_ok (board E) (handleBinaryCommand E pc s)"
  unfolding handleBinaryCommand_def Let_def
  using assms dispatch_ok [OF _ assms(2)] by simp

lemma take_command_ok:
  assumes "engine_ok (board E) s" "reads_bounded (lib E)"
  shows "engine_ok (board E) (take_command E i s)"
  unfolding take_command_def Let_def case_prod_beta
  using assms by (simp add: binary_ok stream_ok)

lemma processCommand_ok: "engine_ok (board E) s \<Longrightarrow> reads_bounded (lib E) \<Longrightarrow> engine_ok (board E) (processCommand E s)"
  by (simp add: processCommand_def take_command_ok)

section \<open>The loop\<close>

lemma loop_services_ok:
  assumes "f \<in> set (loop_services E)" "engine_ok (board E) s" "reads_bounded (lib E)"
  shows "engine_ok (board E) (f s)"
proof -
  have "engine_ok (board E) (tick_loop E s)" "engine_ok (board E) (poll_usb E s)" "engine_ok (board E) (service_telemetry E s)"
    using assms(2) by (simp_all add: tick_loop_def poll_usb_def service_telemetry_def Let_def case_prod_beta)
  then show ?thesis
    using assms processCommand_ok display_ok lateBlank_ok by (auto simp: loop_services_def)
qed

lemma loop_step_ok:
  assumes "engine_ok (board E) s" "reads_bounded (lib E)"
  shows "engine_ok (board E) (loop_step E s)"
proof -
  have "engine_ok (board E) (fold unless_halted fs s)" if "set fs \<subseteq> set (loop_services E)" for fs
    using that assms
    by (induction fs arbitrary: s) (auto simp: unless_halted_def loop_services_ok)
  then show ?thesis by (simp add: loop_step_def)
qed

interpretation engine: invariant_machine "\<lambda>_ :: unit. loop_step E" "\<lambda>s. reads_bounded (lib E) \<longrightarrow> engine_ok (board E) s" for E
  by unfold_locales (simp add: loop_step_ok)

section \<open>Boot\<close>

lemma fold_wired: "(\<And>x sp. wired b (g x sp) = wired b sp) \<Longrightarrow> wired b (fold g xs sp) = wired b sp"
  by (induction xs arbitrary: sp) simp_all

lemma spi_begin_wired [simp]: "wired b (spi_begin b' sp) = wired b sp"
proof -
  have "wired b (sp\<lparr>instance_set := v\<rparr>) = wired b sp" for v sp by (simp add: wired_def gate_pins_def)
  then show ?thesis by (simp add: spi_begin_def Let_def fold_wired)
qed

lemma boot_parts_ok [simp]:
  "engine_ok b (boot_health E srsr s) = engine_ok b s" "engine_ok b (boot_telemetry E s) = engine_ok b s"
  "engine_ok b s \<Longrightarrow> engine_ok b (cp_begin s)"
  by (simp_all add: boot_health_def boot_telemetry_def cp_begin_def Let_def case_prod_beta)

lemma boot_ok:
  fixes E :: "('c, 'h, 'w) env"
  assumes "reads_bounded (lib E)"
  shows "engine_ok (board E) (setup_boot E srsr hz (power_on (board E) c w bc r t))"
proof -
  let ?b = "board E" and ?p = "power_on (board E) c w bc r t :: ('c, 'h, 'w) cp"
  have p: "engine_ok ?b ?p"
    by (simp add: power_on_def engine_ok_def geometry_def playback_def block_byte_count_gs16_def fits_def sd0_def wired_def
        spi0_def gate_pins_def)
  define s1 where "s1 = cp_begin (boot_telemetry E (boot_health E srsr ?p))"
  have s1: "engine_ok ?b s1"
    using p by (simp add: s1_def)
  define s2 where "s2 = s1\<lparr>spi_st := spi_begin ?b (spi_st s1), sd_st := fst (sd_begin (lib E) (sd_st s1))\<rparr>"
  have "fits ?b (fst (sd_begin (lib E) (sd_st s1)))" using sd_step_fits [OF engine_fits [OF s1], of "lib E" Mount] by simp
  then have "pre_ok ?b s2"
    using data_pre [OF engineD [OF s1]] by (simp add: s2_def pre_ok_def playback_def)
  then have s3: "engine_ok ?b (enterAllOff E s2)" by (rule enterAllOff_ok)
  have "engine_ok ?b ((enterAllOff E s2)\<lparr>wd_st := watchdogBegin (rtw E) hz (wd_st (enterAllOff E s2))\<rparr>)"
    using s3 by simp
  then show ?thesis
    unfolding setup_boot_def Let_def s1_def [symmetric] s2_def [symmetric] by (intro enterAllOff_ok data_pre engineD)
qed



end
