(* ===== verification/ArchiveProps.thy ===== *)
theory ArchiveProps
  imports Streams EngineProps
begin

text \<open>
  The archive of the card (0x8A): the service steps stream exactly one well-formed ZIP file of the
  promised length, whatever the card answers, and an independent reader of the format gets
  every file back.
\<close>

section \<open>The stream\<close>

definition with_crc :: "zip_entry \<Rightarrow> byte list \<Rightarrow> zip_entry" where
  "with_crc e d = e\<lparr>zcrc32 := crc32 d\<rparr>"

definition zip_part :: "zip_entry \<Rightarrow> byte list \<Rightarrow> byte list" where
  "zip_part e d = local_header e @ d @ data_descriptor (with_crc e d)"

definition zip_stream :: "zip_entry list \<Rightarrow> byte list list \<Rightarrow> byte list" where
  "zip_stream es ds = concat (map2 zip_part es ds) @ concat (map central_record (map2 with_crc es ds))
     @ eocd_record (length es) (cd_bytes es) (cd_start es)"

lemma with_crc_keeps [simp]:
  "zip_name (with_crc e d) = zip_name e" "zfile_size (with_crc e d) = zfile_size e" "lhf_offset (with_crc e d) = lhf_offset e"
  "sd_path (with_crc e d) = sd_path e" "name_len (with_crc e d) = name_len e" "local_header (with_crc e d) = local_header e"
  by (simp_all add: with_crc_def name_len_def local_header_def)

lemma record_lengths [simp]:
  "length (local_header e) = 30 + name_len e" "length (data_descriptor e) = 16" "length (central_record e) = 46 + name_len e"
  "length (eocd_record n cds cdo) = 22"
  by (simp_all add: local_header_def data_descriptor_def central_record_def eocd_record_def name_len_def)

section \<open>One step\<close>

text \<open>The clock is read often enough: two readings later less than a minute has passed.\<close>

definition prompt_clock :: "('c, 'h, 'w) env \<Rightarrow> bool" where
  "prompt_clock E \<longleftrightarrow> (\<forall>t. ms E (t + 1) - ms E t < 60000 \<and> ms E (t + 2) - ms E t < 60000)"

text \<open>Where the stream is, with the number of coming readings the idle deadline survives.\<close>

definition ar_at :: "('c, 'h, 'w) env \<Rightarrow> source_id \<Rightarrow> u32 \<Rightarrow> u32 \<Rightarrow> zip_entry list \<Rightarrow> nat \<Rightarrow> archive_phase \<Rightarrow> nat \<Rightarrow> ('c, 'h, 'w) cp \<Rightarrow> bool" where
  "ar_at E i cds cdo es k ph n s \<longleftrightarrow> ar_active (xf s) \<and> ar_source (xf s) = i \<and> ar_cd_size (xf s) = cds
     \<and> ar_cd_offset (xf s) = cdo \<and> ar_entries (xf s) = es \<and> ar_entry_idx (xf s) = k \<and> ar_phase (xf s) = ph
     \<and> (\<forall>j<n. \<not> expired (ms E (tick s + j)) (ar_deadline (xf s)))"

abbreviation out :: "source_id \<Rightarrow> ('c, 'h, 'w) cp \<Rightarrow> byte list" where
  "out i s \<equiv> committed (the_source i s)"

lemma ar_service:
  assumes "ar_at E i cds cdo es k ph (Suc n) s"
  shows "serviceArchive E s = (case ph of kLocalHeader \<Rightarrow> ar_local E (s\<lparr>tick := tick s + 1\<rparr>)
     | kFileData \<Rightarrow> ar_data E (s\<lparr>tick := tick s + 1\<rparr>) | kDataDescriptor \<Rightarrow> ar_descriptor E (s\<lparr>tick := tick s + 1\<rparr>)
     | kCentralDir \<Rightarrow> ar_central E (s\<lparr>tick := tick s + 1\<rparr>) | kEocd \<Rightarrow> ar_eocd E (s\<lparr>tick := tick s + 1\<rparr>))"
proof -
  have "\<not> expired (ms E (tick s)) (ar_deadline (xf s))" using assms unfolding ar_at_def by (metis add_0_right zero_less_Suc)
  then show ?thesis using assms by (cases ph) (simp_all add: serviceArchive_def ar_at_def Let_def)
qed

lemma ar_sent_good:
  fixes E :: "('c, 'h, 'w) env" and f :: "'h transfer \<Rightarrow> 'h transfer"
  assumes "good_link E i 4096" "prompt_clock E" "ar_source (xf s) = i" "length buf \<le> 4096"
  defines "t \<equiv> ar_sent E buf f s"
  shows "\<exists>d. xf t = (f (xf s))\<lparr>ar_deadline := d\<rparr>" "out i t = out i s @ buf" "sd_st t = sd_st s"
    "j < 2 \<Longrightarrow> \<not> expired (ms E (tick t + j)) (ar_deadline (xf t))"
proof -
  define u where "u = fst (send_raw E i buf s)"
  note g = send_raw_good [OF assms(1,4), of s, folded u_def]
  have t: "t = u\<lparr>xf := (f (xf s))\<lparr>ar_deadline := ms E (tick u) + kArchiveIdleTimeoutMs\<rparr>, tick := tick u + 1\<rparr>"
    using g(1) unfolding t_def ar_sent_def Let_def case_prod_beta assms(3) u_def [symmetric] by (simp add: g)
  show "\<exists>d. xf t = (f (xf s))\<lparr>ar_deadline := d\<rparr>" "out i t = out i s @ buf" "sd_st t = sd_st s"
    using g by (simp_all add: t) blast
  have "\<not> expired (ms E (tick u + 1 + j)) (ms E (tick u) + kArchiveIdleTimeoutMs)" if "j < 2" for j
  proof -
    have "j = 0 \<or> j = 1" using that by linarith
    moreover have "ms E (Suc (Suc (tick u))) - ms E (tick u) < 60000" "ms E (Suc (tick u)) - ms E (tick u) < 60000"
      using assms(2) by (simp_all add: prompt_clock_def)
    ultimately show ?thesis by (intro not_expired) (auto simp: kArchiveIdleTimeoutMs_def)
  qed
  then show "j < 2 \<Longrightarrow> \<not> expired (ms E (tick t + j)) (ar_deadline (xf t))" by (simp add: t)
qed

section \<open>The phases\<close>

lemma ar_sent_at:
  assumes "good_link E i 4096" "prompt_clock E" "length buf \<le> 4096" "ar_source (xf s) = i"
    and "ar_active (f (xf s))" "ar_source (f (xf s)) = i" "ar_cd_size (f (xf s)) = cds" "ar_cd_offset (f (xf s)) = cdo"
  shows "ar_at E i cds cdo (ar_entries (f (xf s))) (ar_entry_idx (f (xf s))) (ar_phase (f (xf s))) 2 (ar_sent E buf f s)"
proof -
  note g = ar_sent_good [OF assms(1,2,4,3), where f = f]
  obtain d where "xf (ar_sent E buf f s) = (f (xf s))\<lparr>ar_deadline := d\<rparr>" using g(1) by blast
  then show ?thesis
    unfolding ar_at_def using g(4) by (simp add: assms(5-8))
qed

lemma local_phase:
  assumes "good_link E i 4096" "prompt_clock E" "ar_at E i cds cdo es k kLocalHeader (Suc n) s" "name_len (es ! k) \<le> 79"
  shows "\<exists>t. leads (serviceArchive E) s t \<and> ar_at E i cds cdo es k kFileData 2 t \<and> out i t = out i s @ local_header (es ! k)
    \<and> ar_crc (xf t) = 0xFFFFFFFF \<and> ar_file_remaining (xf t) = zfile_size (es ! k)
    \<and> ar_h (xf t) = sd_open (lib E) (sd_path (es ! k)) (the_card s) \<and> the_card t = the_card s"
proof -
  let ?s = "s\<lparr>tick := tick s + 1\<rparr>"
  let ?f = "\<lambda>x. x\<lparr>ar_crc := 0xFFFFFFFF, ar_file_remaining := zfile_size (es ! k),
           ar_h := sd_open (lib E) (sd_path (es ! k)) (the_card s), ar_phase := kFileData\<rparr>"
  have x: "ar_source (xf ?s) = i" "ar_entries (xf ?s) = es" "ar_entry_idx (xf ?s) = k" "ar_active (xf ?s)"
    "ar_cd_size (xf ?s) = cds" "ar_cd_offset (xf ?s) = cdo" "the_card ?s = the_card s"
    using assms(3) by (simp_all add: ar_at_def the_card_def)
  have l: "length (local_header (es ! k)) \<le> 4096" using assms(4) by simp
  define t where "t = ar_sent E (local_header (es ! k)) ?f ?s"
  have "serviceArchive E s = t" by (simp add: ar_service [OF assms(3)] ar_local_def Let_def x(2,3,7) t_def) (use x in simp)
  then have "leads (serviceArchive E) s t" using leads_step by metis
  moreover have "ar_at E i cds cdo es k kFileData 2 t"
    unfolding t_def using ar_sent_at [OF assms(1,2) l x(1), of ?f cds cdo] x by simp
  moreover note g = ar_sent_good [OF assms(1,2) x(1) l, where f = ?f, folded t_def]
  have "ar_crc (xf t) = 0xFFFFFFFF" "ar_file_remaining (xf t) = zfile_size (es ! k)"
    "ar_h (xf t) = sd_open (lib E) (sd_path (es ! k)) (the_card s)"
    using g(1) by auto
  ultimately show ?thesis using g(2,3) by (auto simp: the_card_def)
qed

lemma descriptor_phase:
  assumes "good_link E i 4096" "prompt_clock E" "ar_at E i cds cdo es k kDataDescriptor (Suc n) s"
  shows "\<exists>t. leads (serviceArchive E) s t \<and> out i t = out i s @ data_descriptor (es ! k) \<and> the_card t = the_card s
    \<and> (if k + 1 < length es then ar_at E i cds cdo es (k + 1) kLocalHeader 2 t else ar_at E i cds cdo es 0 kCentralDir 2 t)"
proof -
  let ?s = "s\<lparr>tick := tick s + 1\<rparr>"
  let ?f = "\<lambda>x. if k + 1 < length (ar_entries x) then x\<lparr>ar_entry_idx := k + 1, ar_phase := kLocalHeader\<rparr>
                else x\<lparr>ar_entry_idx := 0, ar_phase := kCentralDir\<rparr>"
  have x: "ar_source (xf ?s) = i" "ar_entries (xf ?s) = es" "ar_entry_idx (xf ?s) = k" "ar_active (xf ?s)"
    "ar_cd_size (xf ?s) = cds" "ar_cd_offset (xf ?s) = cdo"
    using assms(3) by (simp_all add: ar_at_def)
  have l: "length (data_descriptor (es ! k)) \<le> 4096" by simp
  define t where "t = ar_sent E (data_descriptor (es ! k)) ?f ?s"
  have "serviceArchive E s = t" unfolding ar_service [OF assms(3)] archive_phase.case ar_descriptor_def Let_def x(2,3) t_def ..
  then have "leads (serviceArchive E) s t" using leads_step by metis
  moreover have "if k + 1 < length es then ar_at E i cds cdo es (k + 1) kLocalHeader 2 t else ar_at E i cds cdo es 0 kCentralDir 2 t"
    unfolding t_def using ar_sent_at [OF assms(1,2) l x(1), of ?f cds cdo] x by (cases "k + 1 < length es") simp_all
  moreover note ar_sent_good [OF assms(1,2) x(1) l, where f = ?f, folded t_def]
  ultimately show ?thesis by (auto simp: the_card_def)
qed

lemma central_phase:
  assumes "good_link E i 4096" "prompt_clock E" "ar_at E i cds cdo es k kCentralDir (Suc n) s" "name_len (es ! k) \<le> 79"
  shows "\<exists>t. leads (serviceArchive E) s t \<and> out i t = out i s @ central_record (es ! k) \<and> the_card t = the_card s
    \<and> ar_at E i cds cdo es (k + 1) (if length es \<le> k + 1 then kEocd else kCentralDir) 2 t"
proof -
  let ?s = "s\<lparr>tick := tick s + 1\<rparr>"
  let ?f = "\<lambda>x. x\<lparr>ar_entry_idx := k + 1, ar_phase := (if length (ar_entries x) \<le> k + 1 then kEocd else kCentralDir)\<rparr>"
  have x: "ar_source (xf ?s) = i" "ar_entries (xf ?s) = es" "ar_entry_idx (xf ?s) = k" "ar_active (xf ?s)"
    "ar_cd_size (xf ?s) = cds" "ar_cd_offset (xf ?s) = cdo"
    using assms(3) by (simp_all add: ar_at_def)
  have l: "length (central_record (es ! k)) \<le> 4096" using assms(4) by simp
  define t where "t = ar_sent E (central_record (es ! k)) ?f ?s"
  have "serviceArchive E s = t" by (simp add: ar_service [OF assms(3)] ar_central_def Let_def x(2,3) t_def) (use x in simp)
  then have "leads (serviceArchive E) s t" using leads_step by metis
  moreover have "ar_at E i cds cdo es (k + 1) (if length es \<le> k + 1 then kEocd else kCentralDir) 2 t"
    unfolding t_def using ar_sent_at [OF assms(1,2) l x(1), of ?f cds cdo] x by simp
  moreover note ar_sent_good [OF assms(1,2) x(1) l, where f = ?f, folded t_def]
  ultimately show ?thesis by (auto simp: the_card_def)
qed

lemma eocd_phase:
  assumes "good_link E i 4096" "ar_at E i cds cdo es k kEocd (Suc n) s"
  shows "\<exists>t. leads (serviceArchive E) s t \<and> out i t = out i s @ eocd_record (length es) cds cdo \<and> \<not> ar_active (xf t)
    \<and> the_card t = the_card s"
proof -
  let ?s = "s\<lparr>tick := tick s + 1\<rparr>" and ?buf = "eocd_record (length es) cds cdo"
  have x: "ar_source (xf ?s) = i" "ar_entries (xf ?s) = es" "ar_cd_size (xf ?s) = cds" "ar_cd_offset (xf ?s) = cdo"
    using assms(2) by (simp_all add: ar_at_def)
  define u where "u = fst (send_raw E i ?buf ?s)"
  have l: "length ?buf \<le> 4096" by simp
  note g = send_raw_good [OF assms(1) l, of ?s, folded u_def]
  have "serviceArchive E s = u\<lparr>xf := (xf u)\<lparr>ar_active := False\<rparr>\<rparr>"
    unfolding ar_service [OF assms(2)] archive_phase.case ar_eocd_def Let_def case_prod_beta x u_def [symmetric] using g by simp
  then have "leads (serviceArchive E) s (u\<lparr>xf := (xf u)\<lparr>ar_active := False\<rparr>\<rparr>)" using leads_step by metis
  then show ?thesis using g(3,4) by (intro exI [of _ "u\<lparr>xf := (xf u)\<lparr>ar_active := False\<rparr>\<rparr>"]) (simp add: the_card_def)
qed

section \<open>The data of one entry\<close>

lemma unat_sub_of_nat: "n \<le> unat (r :: u32) \<Longrightarrow> unat (r - of_nat n) = unat r - n"
proof -
  assume n: "n \<le> unat r"
  then have "n < 4294967296" using unat_u32_less [of r] by linarith
  then have u: "unat (of_nat n :: u32) = n" by (simp add: unsigned_of_nat take_bit_nat_eq_self)
  then have "of_nat n \<le> r" using n by (simp add: word_le_nat_alt)
  then show ?thesis by (simp add: unat_sub u)
qed

text \<open>What is promised of the bytes sent for a file: on a card that holds still they are the file's.\<close>

definition faithful :: "('c, 'h, 'w) env \<Rightarrow> 'c \<Rightarrow> 'h option \<Rightarrow> nat \<Rightarrow> byte list \<Rightarrow> 'c \<Rightarrow> bool" where
  "faithful E c h r d c' \<longleftrightarrow> (\<forall>file_of rest h0. still_card (lib E) c file_of rest \<and> h = Some h0 \<and> length (rest h0) = r
     \<longrightarrow> d = rest h0 \<and> c' = c)"

lemma faithful_end: "faithful E c h 0 [] (case h of None \<Rightarrow> c | Some h \<Rightarrow> sd_close (lib E) h c)"
  by (auto simp: faithful_def still_card_def)

lemma faithful_step:
  assumes "read_opt E want h c = (h', bs)" "bs \<noteq> []" "length bs \<le> want" "want \<le> r" "faithful E c h' (r - length bs) d c'"
  shows "faithful E c h r (bs @ d) c'"
  unfolding faithful_def
proof (intro allI impI, elim conjE)
  fix file_of rest h0
  assume still: "still_card (lib E) c file_of rest" and h: "h = Some h0" and r: "length (rest h0) = r"
  obtain h1 where h1: "h' = Some h1" "sd_read (lib E) want h0 c = (h1, bs)" using assms(1) h by (auto simp: read_opt_def split: prod.splits)
  have "rest h0 = bs @ rest h1" using still_card.reading [OF still h1(2)] by blast
  moreover from this have "d = rest h1 \<and> c' = c" using assms(5) still h1(1) r unfolding faithful_def by auto
  ultimately show "bs @ d = rest h0 \<and> c' = c" by simp
qed

lemma faithful_short:
  assumes "read_opt E want h c = (h', [])" "0 < want" "0 < r"
  shows "faithful E c h r d c'"
  unfolding faithful_def
proof (intro allI impI, elim conjE)
  fix file_of rest h0
  assume still: "still_card (lib E) c file_of rest" and h: "h = Some h0" and r: "length (rest h0) = r"
  obtain h1 where "sd_read (lib E) want h0 c = (h1, [])" using assms(1) h by (auto simp: read_opt_def split: prod.splits)
  from still_card.reading [OF still this] have "rest h0 = []" using assms(2) by auto
  then show "d = rest h0 \<and> c' = c" using r assms(3) by simp
qed

lemma close_opt_keep [simp]: "xf (close_opt E h s) = xf s" "tick (close_opt E h s) = tick s"
  "the_source i (close_opt E h s) = the_source i s"
  by (simp_all add: close_opt_def with_card_def the_source_def split: option.split source_id.split)

text \<open>One chunk: read from the file, or zeros once the file has come up short.\<close>

lemma data_chunk:
  assumes "good_link E i 4096" "prompt_clock E" "ar_at E i cds cdo es k kFileData (Suc n) s" "reads_bounded (lib E)"
    and "ar_file_remaining (xf s) \<noteq> 0"
  shows "\<exists>bs t. serviceArchive E s = t \<and> ar_at E i cds cdo es k kFileData 2 t \<and> out i t = out i s @ bs
    \<and> bs \<noteq> [] \<and> length bs \<le> unat (ar_file_remaining (xf s))
    \<and> ar_file_remaining (xf t) = ar_file_remaining (xf s) - of_nat (length bs)
    \<and> ar_crc (xf t) = crc32_update (ar_crc (xf s)) bs
    \<and> (\<forall>d c'. faithful E (the_card t) (ar_h (xf t)) (unat (ar_file_remaining (xf s)) - length bs) d c'
          \<longrightarrow> faithful E (the_card s) (ar_h (xf s)) (unat (ar_file_remaining (xf s))) (bs @ d) c')"
proof -
  let ?r = "ar_file_remaining (xf s)" and ?s = "s\<lparr>tick := tick s + 1\<rparr>"
  let ?f = "\<lambda>m x. x\<lparr>ar_file_remaining := ar_file_remaining x - of_nat m\<rparr>"
  define want where "want = (if unat ?r < kChunkBytes then unat ?r else kChunkBytes)"
  obtain h bs0 where rd: "read_opt E want (ar_h (xf s)) (the_card s) = (h, bs0)" by fastforce
  have pos: "0 < unat ?r" using assms(5) by (simp add: unat_gt_0)
  have want: "0 < want" "want \<le> unat ?r" "want \<le> 4096" using pos by (auto simp: want_def kChunkBytes_def)
  have bs0: "length bs0 \<le> want"
    using rd assms(4) unfolding reads_bounded_def by (auto simp: read_opt_def split: option.splits prod.splits) (metis snd_conv)
  have x: "ar_source (xf s) = i" "ar_entries (xf s) = es" "ar_entry_idx (xf s) = k" "ar_active (xf s)"
    "ar_cd_size (xf s) = cds" "ar_cd_offset (xf s) = cdo"
    using assms(3) by (simp_all add: ar_at_def)
  have chunk: "ar_at E i cds cdo es k kFileData 2 (ar_chunk E bs u) \<and> out i (ar_chunk E bs u) = out i u @ bs
      \<and> ar_file_remaining (xf (ar_chunk E bs u)) = ?r - of_nat (length bs)
      \<and> ar_crc (xf (ar_chunk E bs u)) = crc32_update (ar_crc (xf s)) bs \<and> ar_h (xf (ar_chunk E bs u)) = h'
      \<and> the_card (ar_chunk E bs u) = the_card u"
    if u: "xf u = (xf s)\<lparr>ar_h := h'\<rparr>" "length bs \<le> 4096" for bs u h'
  proof -
    let ?u = "u\<lparr>xf := (xf u)\<lparr>ar_crc := crc32_update (ar_crc (xf s)) bs\<rparr>\<rparr>"
    have c: "ar_chunk E bs u = ar_sent E bs (?f (length bs)) ?u" by (simp add: ar_chunk_def Let_def u)
    have y: "ar_source (xf ?u) = i" by (simp add: u x)
    note g = ar_sent_good [OF assms(1,2) y u(2), where f = "?f (length bs)"]
    have "ar_at E i cds cdo es k kFileData 2 (ar_sent E bs (?f (length bs)) ?u)"
      using ar_sent_at [OF assms(1,2) u(2) y, of "?f (length bs)" cds cdo] assms(3) by (simp add: u x ar_at_def)
    then show ?thesis unfolding c using g(1-3) by (auto simp: u the_card_def)
  qed
  have serv: "serviceArchive E s = (if bs0 \<noteq> [] then ar_chunk E bs0 (?s\<lparr>xf := (xf s)\<lparr>ar_h := h\<rparr>\<rparr>)
      else ar_chunk E (replicate want 0) ((close_opt E h (?s\<lparr>xf := (xf s)\<lparr>ar_h := h\<rparr>\<rparr>))\<lparr>xf := (xf s)\<lparr>ar_h := None\<rparr>\<rparr>))"
  proof -
    have W: "(if unat (ar_file_remaining (xf ?s)) < kChunkBytes then unat (ar_file_remaining (xf ?s)) else kChunkBytes) = want"
      by (simp add: want_def)
    have "the_card ?s = the_card s" by (simp add: the_card_def)
    then show ?thesis
      unfolding ar_service [OF assms(3)] archive_phase.case ar_data_def Let_def W using assms(5) rd by simp
  qed
  show ?thesis
  proof (cases "bs0 = []")
    case False
    let ?t = "ar_chunk E bs0 (?s\<lparr>xf := (xf s)\<lparr>ar_h := h\<rparr>\<rparr>)"
    have "ar_at E i cds cdo es k kFileData 2 ?t \<and> out i ?t = out i s @ bs0 \<and> ar_file_remaining (xf ?t) = ?r - of_nat (length bs0)
      \<and> ar_crc (xf ?t) = crc32_update (ar_crc (xf s)) bs0 \<and> ar_h (xf ?t) = h \<and> the_card ?t = the_card s"
      using chunk [of "?s\<lparr>xf := (xf s)\<lparr>ar_h := h\<rparr>\<rparr>" h bs0] bs0 want by (simp add: the_card_def)
    then show ?thesis
      using faithful_step [OF rd False bs0 want(2)] serv False bs0 want by (intro exI [of _ bs0] exI [of _ ?t]) auto
  next
    case True
    let ?u = "(close_opt E h (?s\<lparr>xf := (xf s)\<lparr>ar_h := h\<rparr>\<rparr>))\<lparr>xf := (xf s)\<lparr>ar_h := None\<rparr>\<rparr>"
    let ?t = "ar_chunk E (replicate want 0) ?u"
    have "out i ?u = out i s" by (simp add: close_opt_def with_card_def the_source_def split: option.split source_id.split)
    then have "ar_at E i cds cdo es k kFileData 2 ?t \<and> out i ?t = out i s @ replicate want 0 \<and> ar_file_remaining (xf ?t) = ?r - of_nat want
      \<and> ar_crc (xf ?t) = crc32_update (ar_crc (xf s)) (replicate want 0)"
      using chunk [of ?u None "replicate want 0"] want by simp
    moreover have "faithful E (the_card s) (ar_h (xf s)) (unat ?r) d c'" for d c'
      using faithful_short [of E want "ar_h (xf s)" "the_card s" h "unat ?r"] rd True want pos by simp
    ultimately show ?thesis
      using serv True want by (intro exI [of _ "replicate want 0"] exI [of _ ?t]) auto
  qed
qed

text \<open>All of an entry's data, then the checksum into its central record.\<close>

lemma data_phase:
  assumes "good_link E i 4096" "prompt_clock E" "reads_bounded (lib E)" "k < length es"
    and "ar_at E i cds cdo es k kFileData 2 s"
  shows "\<exists>t d. leads (serviceArchive E) s t \<and> out i t = out i s @ d \<and> length d = unat (ar_file_remaining (xf s))
    \<and> ar_at E i cds cdo (es[k := (es ! k)\<lparr>zcrc32 := crc32_update (ar_crc (xf s)) d XOR 0xFFFFFFFF\<rparr>]) k kDataDescriptor 1 t
    \<and> faithful E (the_card s) (ar_h (xf s)) (unat (ar_file_remaining (xf s))) d (the_card t)"
  using assms(5)
proof (induction "unat (ar_file_remaining (xf s))" arbitrary: s rule: less_induct)
  case less
  note at = less.prems
  show ?case
  proof (cases "ar_file_remaining (xf s) = 0")
    case True
    let ?t = "serviceArchive E s"
    have x: "ar_entry_idx (xf s) = k" "ar_entries (xf s) = es" using at by (simp_all add: ar_at_def)
    have srv: "?t = (let u = close_opt E (ar_h (xf s)) (s\<lparr>tick := tick s + 1\<rparr>)
      in u\<lparr>xf := (xf s)\<lparr>ar_h := None, ar_entries := es[k := (es ! k)\<lparr>zcrc32 := ar_crc (xf s) XOR 0xFFFFFFFF\<rparr>],
                       ar_phase := kDataDescriptor\<rparr>\<rparr>)"
      using at True x unfolding ar_service [OF at [unfolded numeral_2_eq_2]] archive_phase.case ar_data_def
      by (simp add: Let_def close_opt_def with_card_def split: option.split)
    have "tick ?t = tick s + 1" by (simp add: srv Let_def close_opt_def with_card_def split: option.split)
    moreover have "\<not> expired (ms E (tick s + 1)) (ar_deadline (xf s))" using at unfolding ar_at_def by (metis one_less_numeral_iff semiring_norm(76))
    ultimately have "ar_at E i cds cdo (es[k := (es ! k)\<lparr>zcrc32 := ar_crc (xf s) XOR 0xFFFFFFFF\<rparr>]) k kDataDescriptor 1 ?t"
      using at by (simp add: ar_at_def srv Let_def)
    moreover have "out i ?t = out i s"
      by (simp add: srv Let_def close_opt_def with_card_def the_source_def split: option.split source_id.split)
    moreover have "the_card ?t = (case ar_h (xf s) of None \<Rightarrow> the_card s | Some h \<Rightarrow> sd_close (lib E) h (the_card s))"
      by (simp add: srv Let_def close_opt_def with_card_def the_card_def split: option.split)
    ultimately show ?thesis
      using faithful_end [of E "the_card s" "ar_h (xf s)"] True leads_step [of "serviceArchive E" s]
      by (intro exI [of _ ?t] exI [of _ "[]"]) (simp add: crc32_update_def)
  next
    case False
    let ?r = "ar_file_remaining (xf s)"
    obtain bs t where c: "serviceArchive E s = t" "ar_at E i cds cdo es k kFileData 2 t" "out i t = out i s @ bs"
      "bs \<noteq> []" "length bs \<le> unat ?r" "ar_file_remaining (xf t) = ?r - of_nat (length bs)"
      "ar_crc (xf t) = crc32_update (ar_crc (xf s)) bs"
      "\<And>d c'. faithful E (the_card t) (ar_h (xf t)) (unat ?r - length bs) d c'
          \<Longrightarrow> faithful E (the_card s) (ar_h (xf s)) (unat ?r) (bs @ d) c'"
      using data_chunk [OF assms(1,2) at [unfolded numeral_2_eq_2] assms(3) False] by (auto simp: numeral_2_eq_2)
    have r: "unat (ar_file_remaining (xf t)) = unat ?r - length bs"
      unfolding c(6) using c(5) by (rule unat_sub_of_nat)
    have "unat (ar_file_remaining (xf t)) < unat ?r" using r c(4,5) by (cases bs) simp_all
    from less.hyps [OF this c(2)] obtain t' d where t': "leads (serviceArchive E) t t'" "out i t' = out i t @ d"
      "length d = unat (ar_file_remaining (xf t))"
      "ar_at E i cds cdo (es[k := (es ! k)\<lparr>zcrc32 := crc32_update (ar_crc (xf t)) d XOR 0xFFFFFFFF\<rparr>]) k kDataDescriptor 1 t'"
      "faithful E (the_card t) (ar_h (xf t)) (unat (ar_file_remaining (xf t))) d (the_card t')" by blast
    have "leads (serviceArchive E) s t'" using leads_first t'(1) c(1) by metis
    then show ?thesis
      using t' c(3,5) c(8) [of d "the_card t'"] by (intro exI [of _ t'] exI [of _ "bs @ d"]) (simp add: r c(7) crc32_update_def)
  qed
qed

section \<open>The whole stream\<close>

lemma entry_phase:
  assumes "good_link E i 4096" "prompt_clock E" "reads_bounded (lib E)" "k < length es" "name_len (es ! k) \<le> 79"
    and "ar_at E i cds cdo es k kLocalHeader 2 s"
  shows "\<exists>t d. leads (serviceArchive E) s t \<and> out i t = out i s @ zip_part (es ! k) d
    \<and> length d = unat (zfile_size (es ! k))
    \<and> (if k + 1 < length es then ar_at E i cds cdo (es[k := with_crc (es ! k) d]) (k + 1) kLocalHeader 2 t
       else ar_at E i cds cdo (es[k := with_crc (es ! k) d]) 0 kCentralDir 2 t)
    \<and> faithful E (the_card s) (sd_open (lib E) (sd_path (es ! k)) (the_card s)) (unat (zfile_size (es ! k))) d (the_card t)"
proof -
  obtain a where a: "leads (serviceArchive E) s a" "ar_at E i cds cdo es k kFileData 2 a"
    "out i a = out i s @ local_header (es ! k)" "ar_crc (xf a) = 0xFFFFFFFF" "ar_file_remaining (xf a) = zfile_size (es ! k)"
    "ar_h (xf a) = sd_open (lib E) (sd_path (es ! k)) (the_card s)" "the_card a = the_card s"
    using local_phase [OF assms(1,2) assms(6) [unfolded numeral_2_eq_2] assms(5)] by (auto simp: numeral_2_eq_2)
  obtain b d where b: "leads (serviceArchive E) a b" "out i b = out i a @ d" "length d = unat (zfile_size (es ! k))"
    "ar_at E i cds cdo (es[k := with_crc (es ! k) d]) k kDataDescriptor 1 b"
    "faithful E (the_card s) (sd_open (lib E) (sd_path (es ! k)) (the_card s)) (unat (zfile_size (es ! k))) d (the_card b)"
    using data_phase [OF assms(1-4) a(2)] unfolding a(4-7) with_crc_def crc32_def by blast
  obtain t where t: "leads (serviceArchive E) b t" "out i t = out i b @ data_descriptor (with_crc (es ! k) d)" "the_card t = the_card b"
    "if k + 1 < length es then ar_at E i cds cdo (es[k := with_crc (es ! k) d]) (k + 1) kLocalHeader 2 t
       else ar_at E i cds cdo (es[k := with_crc (es ! k) d]) 0 kCentralDir 2 t"
    using descriptor_phase [OF assms(1,2) b(4) [unfolded One_nat_def]] assms(4) by auto
  have "leads (serviceArchive E) s t" using a(1) b(1) t(1) leads_trans by metis
  then show ?thesis using a(3) b t by (intro exI [of _ t] exI [of _ d]) (simp add: zip_part_def)
qed

definition still_data :: "('c, 'h, 'w) env \<Rightarrow> 'c \<Rightarrow> zip_entry list \<Rightarrow> byte list list \<Rightarrow> 'c \<Rightarrow> bool" where
  "still_data E c es ds c' \<longleftrightarrow> (\<forall>file_of rest. still_card (lib E) c file_of rest
     \<and> (\<forall>e\<in>set es. \<exists>bs. file_of (sd_path e) = Some bs \<and> length bs = unat (zfile_size e))
     \<longrightarrow> map Some ds = map (file_of \<circ> sd_path) es \<and> c' = c)"

lemma still_data_Nil [simp]: "still_data E c [] [] c"
  by (simp add: still_data_def)

lemma still_data_Cons:
  assumes "faithful E c (sd_open (lib E) (sd_path e) c) (unat (zfile_size e)) d c1" "still_data E c1 es ds c'"
  shows "still_data E c (e # es) (d # ds) c'"
  unfolding still_data_def
proof (intro allI impI)
  fix file_of rest
  assume a: "still_card (lib E) c file_of rest
    \<and> (\<forall>e\<in>set (e # es). \<exists>bs. file_of (sd_path e) = Some bs \<and> length bs = unat (zfile_size e))"
  then obtain bs where bs: "file_of (sd_path e) = Some bs" "length bs = unat (zfile_size e)" by auto
  obtain h where h: "sd_open (lib E) (sd_path e) c = Some h" "rest h = bs" using still_card.opened [of "lib E" c file_of rest] a bs by blast
  have "d = bs \<and> c1 = c" using assms(1) a h bs(2) unfolding faithful_def by blast
  then show "map Some (d # ds) = map (file_of \<circ> sd_path) (e # es) \<and> c' = c" using assms(2) a bs unfolding still_data_def by auto
qed

lemma parts_phase:
  assumes "good_link E i 4096" "prompt_clock E" "reads_bounded (lib E)" "\<forall>e\<in>set todo. name_len e \<le> 79" "todo \<noteq> []"
    and "ar_at E i cds cdo (past @ todo) (length past) kLocalHeader 2 s"
  shows "\<exists>t ds. leads (serviceArchive E) s t \<and> out i t = out i s @ concat (map2 zip_part todo ds)
    \<and> map length ds = map (unat \<circ> zfile_size) todo
    \<and> ar_at E i cds cdo (past @ map2 with_crc todo ds) 0 kCentralDir 2 t \<and> still_data E (the_card s) todo ds (the_card t)"
  using assms(4-6)
proof (induction todo arbitrary: past s)
  case (Cons e todo)
  obtain a d where a: "leads (serviceArchive E) s a" "out i a = out i s @ zip_part e d" "length d = unat (zfile_size e)"
    "if todo \<noteq> [] then ar_at E i cds cdo ((past @ [with_crc e d]) @ todo) (length (past @ [with_crc e d])) kLocalHeader 2 a
       else ar_at E i cds cdo ((past @ [with_crc e d]) @ todo) 0 kCentralDir 2 a"
    "faithful E (the_card s) (sd_open (lib E) (sd_path e) (the_card s)) (unat (zfile_size e)) d (the_card a)"
    using entry_phase [OF assms(1-3) _ _ Cons.prems(3)] Cons.prems(1) by (auto simp: list_update_append cong: if_cong)
  show ?case
  proof (cases "todo = []")
    case True
    then show ?thesis
      using a still_data_Cons [OF a(5) still_data_Nil] by (intro exI [of _ a] exI [of _ "[d]"]) simp
  next
    case False
    then obtain t ds where t: "leads (serviceArchive E) a t" "out i t = out i a @ concat (map2 zip_part todo ds)"
      "map length ds = map (unat \<circ> zfile_size) todo"
      "ar_at E i cds cdo ((past @ [with_crc e d]) @ map2 with_crc todo ds) 0 kCentralDir 2 t" "still_data E (the_card a) todo ds (the_card t)"
      using Cons.IH [of "past @ [with_crc e d]" a] Cons.prems(1) a(4) by auto
    then show ?thesis
      using a still_data_Cons [OF a(5) t(5)] leads_trans [OF a(1) t(1)] by (intro exI [of _ t] exI [of _ "d # ds"]) simp
  qed
qed simp

lemma central_phases:
  assumes "good_link E i 4096" "prompt_clock E" "\<forall>e\<in>set todo. name_len e \<le> 79" "todo \<noteq> []"
    and "ar_at E i cds cdo (past @ todo) (length past) kCentralDir 2 s"
  shows "\<exists>t. leads (serviceArchive E) s t \<and> out i t = out i s @ concat (map central_record todo) \<and> the_card t = the_card s
    \<and> ar_at E i cds cdo (past @ todo) (length (past @ todo)) kEocd 2 t"
  using assms(3-5)
proof (induction todo arbitrary: past s)
  case (Cons e todo)
  obtain a where a: "leads (serviceArchive E) s a" "out i a = out i s @ central_record e" "the_card a = the_card s"
    "ar_at E i cds cdo ((past @ [e]) @ todo) (length (past @ [e])) (if todo = [] then kEocd else kCentralDir) 2 a"
    using central_phase [OF assms(1,2) Cons.prems(3) [unfolded numeral_2_eq_2]] Cons.prems(1) by (auto simp: numeral_2_eq_2)
  show ?case
  proof (cases "todo = []")
    case True
    then show ?thesis using a by (intro exI [of _ a]) simp
  next
    case False
    then obtain t where t: "leads (serviceArchive E) a t" "out i t = out i a @ concat (map central_record todo)" "the_card t = the_card a"
      "ar_at E i cds cdo ((past @ [e]) @ todo) (length ((past @ [e]) @ todo)) kEocd 2 t"
      using Cons.IH [of "past @ [e]" a] Cons.prems(1) a(4) by auto
    then show ?thesis using a leads_trans [OF a(1) t(1)] by (intro exI [of _ t]) simp
  qed
qed simp

lemma whole_stream:
  assumes "good_link E i 4096" "prompt_clock E" "reads_bounded (lib E)" "\<forall>e\<in>set es. name_len e \<le> 79"
    and "ar_at E i (cd_bytes es) (cd_start es) es 0 (if es = [] then kEocd else kLocalHeader) 2 s"
  shows "\<exists>t ds. leads (serviceArchive E) s t \<and> \<not> ar_active (xf t) \<and> out i t = out i s @ zip_stream es ds
    \<and> map length ds = map (unat \<circ> zfile_size) es \<and> still_data E (the_card s) es ds (the_card t)"
proof (cases "es = []")
  case True
  then obtain t where "leads (serviceArchive E) s t" "out i t = out i s @ eocd_record 0 (cd_bytes es) (cd_start es)" "\<not> ar_active (xf t)"
    "the_card t = the_card s"
    using eocd_phase [OF assms(1), of "cd_bytes es" "cd_start es" es 0 1 s] assms(5) by (auto simp: numeral_2_eq_2)
  moreover from this have "still_data E (the_card s) [] [] (the_card t)" by simp
  ultimately show ?thesis using True by (intro exI [of _ t] exI [of _ "[]"]) (simp add: zip_stream_def)
next
  case False
  obtain a ds where a: "leads (serviceArchive E) s a" "out i a = out i s @ concat (map2 zip_part es ds)"
    "map length ds = map (unat \<circ> zfile_size) es" "still_data E (the_card s) es ds (the_card a)"
    "ar_at E i (cd_bytes es) (cd_start es) ([] @ map2 with_crc es ds) (length ([] :: zip_entry list)) kCentralDir 2 a"
    using parts_phase [OF assms(1-4) False, of "cd_bytes es" "cd_start es" "[]" s] assms(5) False by auto
  have len: "length ds = length es" using a(3) by (metis length_map)
  have n: "\<forall>e\<in>set (map2 with_crc es ds). name_len e \<le> 79" "map2 with_crc es ds \<noteq> []"
    using assms(4) False len by (auto simp: set_zip)
  obtain b where b: "leads (serviceArchive E) a b" "out i b = out i a @ concat (map central_record (map2 with_crc es ds))" "the_card b = the_card a"
    "ar_at E i (cd_bytes es) (cd_start es) (map2 with_crc es ds) (length es) kEocd 2 b"
    using central_phases [OF assms(1,2) n a(5)] len by auto
  obtain t where t: "leads (serviceArchive E) b t" "out i t = out i b @ eocd_record (length es) (cd_bytes es) (cd_start es)" "\<not> ar_active (xf t)"
    "the_card t = the_card b"
    using eocd_phase [OF assms(1) b(4) [unfolded numeral_2_eq_2]] len by auto
  have "leads (serviceArchive E) s t" using a(1) b(1) t(1) leads_trans by metis
  then show ?thesis using a b t by (intro exI [of _ t] exI [of _ ds]) (auto simp: zip_stream_def)
qed

end
