(* ===== verification/ArchiveSpec.thy ===== *)
theory ArchiveSpec
  imports ArchiveProps Bench
begin

text \<open>
  A reader of ZIP files, written from the format and not from the sender: the end record, then the
  central directory, then each local file, with every signature, name, size and checksum
  looked at. The archive sent by 0x8A is read back by it.
\<close>

section \<open>The reader\<close>

definition f16 :: "byte list \<Rightarrow> nat \<Rightarrow> nat" where
  "f16 z p = unat (get16 (z ! p) (z ! (p + 1)))"

definition f32 :: "byte list \<Rightarrow> nat \<Rightarrow> u32" where
  "f32 z p = get32 (z ! p) (z ! (p + 1)) (z ! (p + 2)) (z ! (p + 3))"

text \<open>The stored member whose central record is at \<open>p\<close>; it has to end before \<open>limit\<close>.\<close>

definition member :: "nat \<Rightarrow> byte list \<Rightarrow> nat \<Rightarrow> (byte list \<times> byte list) option" where
  "member limit z p =
     (let nm = slice z (p + 46) (f16 z (p + 28)); loc = unat (f32 z (p + 42)); size = unat (f32 z (p + 24));
          start = loc + 30 + f16 z (loc + 26) + f16 z (loc + 28); d = slice z start size
      in if slice z p 4 = [0x50, 0x4B, 1, 2] \<and> f16 z (p + 10) = 0 \<and> f32 z (p + 20) = f32 z (p + 24)
            \<and> slice z loc 4 = [0x50, 0x4B, 3, 4] \<and> slice z (loc + 30) (f16 z (loc + 26)) = nm
            \<and> start + size \<le> limit \<and> crc32 d = f32 z (p + 16)
         then Some (nm, d) else None)"

fun directory :: "nat \<Rightarrow> byte list \<Rightarrow> nat \<Rightarrow> nat \<Rightarrow> (byte list \<times> byte list) list option" where
  "directory limit z 0 p = (if p + 22 = length z then Some [] else None)"
| "directory limit z (Suc n) p =
     (case member limit z p of None \<Rightarrow> None
      | Some x \<Rightarrow> map_option (Cons x) (directory limit z n (p + 46 + f16 z (p + 28) + f16 z (p + 30) + f16 z (p + 32))))"

definition unzip :: "byte list \<Rightarrow> (byte list \<times> byte list) list option" where
  "unzip z =
     (let e = length z - 22
      in if 22 \<le> length z \<and> slice z e 4 = [0x50, 0x4B, 5, 6] \<and> f16 z (e + 20) = 0
         then directory (unat (f32 z (e + 16))) z (f16 z (e + 10)) (unat (f32 z (e + 16))) else None)"

section \<open>Records found in a byte list\<close>

definition holds_at :: "byte list \<Rightarrow> nat \<Rightarrow> byte list \<Rightarrow> bool" where
  "holds_at z p r \<longleftrightarrow> (\<exists>a b. z = a @ r @ b \<and> length a = p)"

lemma holds_append: "holds_at z p (r1 @ r2) \<Longrightarrow> holds_at z p r1 \<and> holds_at z (p + length r1) r2"
  unfolding holds_at_def by (metis append.assoc length_append)

lemma holds_slice: "holds_at z p r \<Longrightarrow> slice z p (length r) = r"
  by (auto simp: holds_at_def slice_def)

lemma holds_part:
  assumes "holds_at z p r" "j + n \<le> length r"
  shows "slice z (p + j) n = slice r j n"
  using assms by (auto simp: holds_at_def slice_def)

lemma holds_nth: "holds_at z p r \<Longrightarrow> j < length r \<Longrightarrow> z ! (p + j) = r ! j"
  by (auto simp: holds_at_def nth_append)

lemma holds_f16: "holds_at z p r \<Longrightarrow> j + 1 < length r \<Longrightarrow> f16 z (p + j) = f16 r j"
  using holds_nth [of z p r j] holds_nth [of z p r "j + 1"] by (simp add: f16_def add.assoc)

lemma holds_f32: "holds_at z p r \<Longrightarrow> j + 3 < length r \<Longrightarrow> f32 z (p + j) = f32 r j"
  using holds_nth [of z p r j] holds_nth [of z p r "j + 1"] holds_nth [of z p r "j + 2"] holds_nth [of z p r "j + 3"]
  by (simp add: f32_def add.assoc)

lemma f32_skip: "f32 (xs @ ys) (length xs + j) = f32 ys j"
  by (simp add: f32_def nth_append)

lemma f32_put32 [simp]: "f32 (put32 v @ ys) 0 = v"
  using get32_put32 [of v] by (simp add: f32_def nth_append numeral_2_eq_2)

lemma f16_small: "n < 256 \<Longrightarrow> f16 (of_nat n # 0 # ys) 0 = n"
  by (simp add: f16_def get16_def unsigned_ucast_eq unsigned_of_nat take_bit_nat_eq_self)

lemma local_fields:
  assumes "name_len e \<le> 79"
  shows "slice (local_header e) 0 4 = [0x50, 0x4B, 3, 4]" "f16 (local_header e) 26 = name_len e" "f16 (local_header e) 28 = 0"
    "slice (local_header e) 30 (name_len e) = zip_name e"
proof -
  have n: "f16 [of_nat (name_len e), 0] 0 = name_len e" using assms by (intro f16_small) simp
  show "slice (local_header e) 0 4 = [0x50, 0x4B, 3, 4]" by (simp add: slice_def local_header_def)
  show "f16 (local_header e) 26 = name_len e" using n by (simp add: f16_def local_header_def nth_append)
  show "f16 (local_header e) 28 = 0" by (simp add: f16_def local_header_def nth_append get16_def)
  show "slice (local_header e) 30 (name_len e) = zip_name e" by (simp add: slice_def local_header_def name_len_def)
qed

lemma central_fields:
  assumes "name_len e \<le> 79"
  shows "slice (central_record e) 0 4 = [0x50, 0x4B, 1, 2]" "f16 (central_record e) 10 = 0" "f32 (central_record e) 16 = zcrc32 e"
    "f32 (central_record e) 20 = zfile_size e" "f32 (central_record e) 24 = zfile_size e" "f16 (central_record e) 28 = name_len e"
    "f16 (central_record e) 30 = 0" "f16 (central_record e) 32 = 0" "f32 (central_record e) 42 = lhf_offset e"
    "slice (central_record e) 46 (name_len e) = zip_name e"
proof -
  let ?c = "central_record e"
  have n: "f16 [of_nat (name_len e), 0] 0 = name_len e" using assms by (intro f16_small) simp
  have g: "get32 (put32 v ! 0) (put32 v ! Suc 0) (put32 v ! Suc (Suc 0)) (put32 v ! 3) = v" for v
    using get32_put32 [of v] by (simp add: numeral_2_eq_2)
  have g': "get32 (put32 v ! 0) (put32 v ! Suc 0) (put32 v ! Suc (Suc 0)) (put32 v ! Suc (Suc (Suc 0))) = v" for v
    using get32_put32 [of v] by (simp add: numeral_2_eq_2 numeral_3_eq_3)
  show "slice ?c 0 4 = [0x50, 0x4B, 1, 2]" by (simp add: slice_def central_record_def)
  show "f16 ?c 10 = 0" by (simp add: f16_def central_record_def nth_append get16_def)
  show "f32 ?c 16 = zcrc32 e" by (simp add: f32_def central_record_def nth_append g g')
  show "f32 ?c 20 = zfile_size e" by (simp add: f32_def central_record_def nth_append g g')
  show "f32 ?c 24 = zfile_size e" by (simp add: f32_def central_record_def nth_append g g')
  show "f16 ?c 28 = name_len e" using n by (simp add: f16_def central_record_def nth_append)
  show "f16 ?c 30 = 0" by (simp add: f16_def central_record_def nth_append get16_def)
  show "f16 ?c 32 = 0" by (simp add: f16_def central_record_def nth_append get16_def)
  show "f32 ?c 42 = lhf_offset e" by (simp add: f32_def central_record_def nth_append g g')
  show "slice ?c 46 (name_len e) = zip_name e" by (simp add: slice_def central_record_def name_len_def)
qed

section \<open>Offsets that do not wrap\<close>

definition plain_span :: "zip_entry \<Rightarrow> nat" where "plain_span e = 46 + name_len e + unat (zfile_size e)"

definition archive_bytes :: "zip_entry list \<Rightarrow> nat" where
  "archive_bytes es = (\<Sum>e\<leftarrow>es. plain_span e) + (\<Sum>e\<leftarrow>es. 46 + name_len e) + 22"

lemma unat_plus: "unat (a :: u32) + unat b < 4294967296 \<Longrightarrow> unat (a + b) = unat a + unat b"
  by (simp add: unat_word_ariths)

lemma unat_of_nat32: "n < 4294967296 \<Longrightarrow> unat (of_nat n :: u32) = n"
  by (simp add: unsigned_of_nat take_bit_nat_eq_self)

lemma unat_span: "plain_span e < 4294967296 \<Longrightarrow> unat (entry_span e) = plain_span e"
proof -
  assume s: "plain_span e < 4294967296"
  have n: "unat (of_nat (name_len e) :: u32) = name_len e" using s by (intro unat_of_nat32) (simp add: plain_span_def)
  have a: "unat (30 + of_nat (name_len e) :: u32) = 30 + name_len e" using s by (subst unat_plus) (simp_all add: n plain_span_def)
  have b: "unat (30 + of_nat (name_len e) + zfile_size e) = 30 + name_len e + unat (zfile_size e)"
    using s by (subst unat_plus) (simp_all add: a plain_span_def)
  show ?thesis using s unfolding entry_span_def by (subst unat_plus) (simp_all add: b plain_span_def)
qed

lemma unat_spans: "(\<Sum>e\<leftarrow>es. plain_span e) < 4294967296 \<Longrightarrow> unat (cd_start es) = (\<Sum>e\<leftarrow>es. plain_span e)"
  unfolding cd_start_def
proof (induction es)
  case (Cons e es)
  then have "unat (entry_span e) = plain_span e" using unat_span [of e] by simp
  then show ?case using Cons by (subst list.map, subst sum_list.Cons, subst unat_plus) simp_all
qed simp

lemma unat_cd_bytes: "(\<Sum>e\<leftarrow>es. 46 + name_len e) < 4294967296 \<Longrightarrow> unat (cd_bytes es) = (\<Sum>e\<leftarrow>es. 46 + name_len e)"
  unfolding cd_bytes_def
proof (induction es)
  case (Cons e es)
  have "unat (of_nat (name_len e) :: u32) = name_len e" using Cons.prems by (intro unat_of_nat32) simp
  then have e: "unat (46 + of_nat (name_len e) :: u32) = 46 + name_len e" using Cons.prems by (subst unat_plus) simp_all
  show ?case using Cons e by (subst list.map, subst sum_list.Cons, subst unat_plus) simp_all
qed simp

lemma lay_out_keeps [simp]: "length (lay_out off es) = length es" "map zip_name (lay_out off es) = map zip_name es"
  "map sd_path (lay_out off es) = map sd_path es" "map zfile_size (lay_out off es) = map zfile_size es"
  by (induction es arbitrary: off) simp_all

lemma lay_out_sums [simp]: "(\<Sum>e\<leftarrow>lay_out off es. plain_span e) = (\<Sum>e\<leftarrow>es. plain_span e)"
  "(\<Sum>e\<leftarrow>lay_out off es. 46 + name_len e) = (\<Sum>e\<leftarrow>es. 46 + name_len e)" "cd_start (lay_out off es) = cd_start es"
  "cd_bytes (lay_out off es) = cd_bytes es"
  by (induction es arbitrary: off) (simp_all add: plain_span_def name_len_def cd_start_def cd_bytes_def entry_span_def)

lemma lay_out_names [simp]: "(\<forall>e\<in>set (lay_out off es). name_len e \<le> n) = (\<forall>e\<in>set es. name_len e \<le> n)"
  by (induction es arbitrary: off) (simp_all add: name_len_def)

text \<open>Every member lies where its central record says.\<close>

definition in_place :: "nat \<Rightarrow> byte list \<Rightarrow> zip_entry \<Rightarrow> byte list \<Rightarrow> bool" where
  "in_place limit z e d \<longleftrightarrow> holds_at z (unat (lhf_offset e)) (zip_part e d) \<and> unat (lhf_offset e) + plain_span e \<le> limit
     \<and> length d = unat (zfile_size e) \<and> name_len e \<le> 79"

lemma parts_in_place:
  assumes "map length ds = map (unat \<circ> zfile_size) es" "\<forall>e\<in>set es. name_len e \<le> 79"
    and "holds_at z (unat off) (concat (map2 zip_part (lay_out off es) ds))" "unat off + (\<Sum>e\<leftarrow>es. plain_span e) \<le> limit" "limit < 4294967296"
  shows "list_all2 (in_place limit z) (lay_out off es) ds"
  using assms(1-4)
proof (induction es arbitrary: off ds)
  case (Cons e es)
  obtain d ds' where ds: "ds = d # ds'" using Cons.prems(1) by (cases ds) auto
  let ?e = "e\<lparr>lhf_offset := off\<rparr>"
  have sp: "unat (entry_span e) = plain_span e" using Cons.prems(4) assms(5) by (intro unat_span) simp
  have off: "unat (off + entry_span e) = unat off + plain_span e" using Cons.prems(4) assms(5) sp by (subst unat_plus) simp_all
  have len: "length (zip_part ?e d) = plain_span e" using Cons.prems(1) by (simp add: ds zip_part_def plain_span_def name_len_def)
  have h: "holds_at z (unat off) (zip_part ?e d)" "holds_at z (unat off + plain_span e) (concat (map2 zip_part (lay_out (off + entry_span e) es) ds'))"
    using holds_append [of z "unat off" "zip_part ?e d"] Cons.prems(3) len by (simp_all add: ds)
  have "in_place limit z ?e d" using h(1) Cons.prems(1,2,4) by (simp add: in_place_def ds plain_span_def name_len_def)
  moreover have "list_all2 (in_place limit z) (lay_out (off + entry_span e) es) ds'"
    using Cons.prems h(2) by (intro Cons.IH) (simp_all add: ds off)
  ultimately show ?case by (simp add: ds)
qed simp

lemma member_in_place:
  assumes "in_place limit z e d" "holds_at z p (central_record (with_crc e d))"
  shows "member limit z p = Some (zip_name e, d)" "f16 z (p + 28) = name_len e" "f16 z (p + 30) = 0" "f16 z (p + 32) = 0"
proof -
  let ?e = "with_crc e d" and ?o = "unat (lhf_offset e)"
  have n: "name_len e \<le> 79" "name_len ?e \<le> 79" and d: "length d = unat (zfile_size e)" using assms(1) by (simp_all add: in_place_def)
  note c = central_fields [OF n(2)]
  note p = holds_f16 [OF assms(2)] holds_f32 [OF assms(2)]
  show f: "f16 z (p + 28) = name_len e" "f16 z (p + 30) = 0" "f16 z (p + 32) = 0" using p c by simp_all
  have g: "f16 z (p + 10) = 0" "f32 z (p + 20) = zfile_size e" "f32 z (p + 24) = zfile_size e" "f32 z (p + 42) = lhf_offset e"
    "f32 z (p + 16) = crc32 d"
    using p c by (simp_all add: with_crc_def)
  have s: "slice z p 4 = [0x50, 0x4B, 1, 2]" "slice z (p + 46) (name_len e) = zip_name e"
    using holds_part [OF assms(2), of 0 4] holds_part [OF assms(2), of 46 "name_len e"] c by simp_all
  have h: "holds_at z ?o (local_header e)" "holds_at z (?o + (30 + name_len e)) d"
    using assms(1) holds_append [of z ?o "local_header e" "d @ data_descriptor ?e"] holds_append [of z "?o + (30 + name_len e)" d "data_descriptor ?e"]
    by (simp_all add: in_place_def zip_part_def)
  note l = local_fields [OF n(1)]
  have k: "slice z ?o 4 = [0x50, 0x4B, 3, 4]" "f16 z (?o + 26) = name_len e" "f16 z (?o + 28) = 0" "slice z (?o + 30) (name_len e) = zip_name e"
    using holds_part [OF h(1), of 0 4] holds_part [OF h(1), of 30 "name_len e"] holds_f16 [OF h(1), of 26] holds_f16 [OF h(1), of 28] l by simp_all
  have "slice z (?o + 30 + name_len e) (unat (zfile_size e)) = d" using holds_slice [OF h(2)] by (simp add: d add.assoc)
  moreover have "?o + 30 + name_len e + unat (zfile_size e) \<le> limit" using assms(1) by (simp add: in_place_def plain_span_def)
  ultimately show "member limit z p = Some (zip_name e, d)" unfolding member_def Let_def f g k by (simp add: s k)
qed

lemma directory_reads:
  assumes "list_all2 (in_place limit z) es ds" "holds_at z p (concat (map central_record (map2 with_crc es ds)))"
    and "p + (\<Sum>e\<leftarrow>es. 46 + name_len e) + 22 = length z"
  shows "directory limit z (length es) p = Some (zip (map zip_name es) ds)"
  using assms
proof (induction es ds arbitrary: p rule: list_all2_induct)
  case (Cons e es d ds)
  have h: "holds_at z p (central_record (with_crc e d))" "holds_at z (p + (46 + name_len e)) (concat (map central_record (map2 with_crc es ds)))"
    using holds_append [of z p "central_record (with_crc e d)" "concat (map central_record (map2 with_crc es ds))"] Cons.prems(1) by simp_all
  note m = member_in_place [OF Cons.hyps(1) h(1)]
  have "directory limit z (length es) (p + (46 + name_len e)) = Some (zip (map zip_name es) ds)"
    using Cons.prems(2) by (intro Cons.IH [OF h(2)]) simp
  then show ?case by (simp add: m add.assoc)
qed simp

lemma parts_length:
  "map length ds = map (unat \<circ> zfile_size) es \<Longrightarrow> length (concat (map2 zip_part (lay_out off es) ds)) = (\<Sum>e\<leftarrow>es. plain_span e)"
proof (induction es arbitrary: ds off)
  case (Cons e es)
  then show ?case by (cases ds) (simp_all add: zip_part_def plain_span_def name_len_def)
qed simp

lemma centrals_length:
  "length ds = length es \<Longrightarrow> length (concat (map central_record (map2 with_crc es ds))) = (\<Sum>e\<leftarrow>es. 46 + name_len e)"
proof (induction es arbitrary: ds)
  case (Cons e es)
  then show ?case by (cases ds) simp_all
qed simp

lemma eocd_fields:
  assumes "n < 65536"
  shows "slice (eocd_record n cds cdo) 0 4 = [0x50, 0x4B, 5, 6]" "f16 (eocd_record n cds cdo) 10 = n"
    "f32 (eocd_record n cds cdo) 16 = cdo" "f16 (eocd_record n cds cdo) 20 = 0"
proof -
  let ?r = "eocd_record n cds cdo"
  have g: "get32 (put32 v ! 0) (put32 v ! Suc 0) (put32 v ! Suc (Suc 0)) (put32 v ! Suc (Suc (Suc 0))) = v" for v
    using get32_put32 [of v] by (simp add: numeral_2_eq_2 numeral_3_eq_3)
  have n: "unat (of_nat n :: u16) = n" using assms by (simp add: unsigned_of_nat take_bit_nat_eq_self)
  show "slice ?r 0 4 = [0x50, 0x4B, 5, 6]" by (simp add: slice_def eocd_record_def)
  show "f16 ?r 10 = n" by (simp add: f16_def eocd_record_def nth_append n)
  show "f32 ?r 16 = cdo" using g [of cdo] by (simp add: f32_def eocd_record_def nth_append numeral_3_eq_3 numeral_2_eq_2)
  show "f16 ?r 20 = 0" by (simp add: f16_def eocd_record_def nth_append get16_def)
qed

lemma unzip_stream:
  assumes "map length ds = map (unat \<circ> zfile_size) es" "\<forall>e\<in>set es. name_len e \<le> 79" "archive_bytes es < 4294967296"
    and "length es < 65536"
  shows "length (zip_stream (lay_out 0 es) ds) = archive_bytes es"
    "unzip (zip_stream (lay_out 0 es) ds) = Some (zip (map zip_name es) ds)"
proof -
  let ?es = "lay_out 0 es"
  define A where "A = concat (map2 zip_part ?es ds)"
  define C where "C = concat (map central_record (map2 with_crc ?es ds))"
  define R where "R = eocd_record (length es) (cd_bytes es) (cd_start es)"
  define z where "z = zip_stream ?es ds"
  have z: "z = A @ C @ R" by (simp add: z_def A_def C_def R_def zip_stream_def)
  have ds: "length ds = length es" using assms(1) by (metis length_map)
  have cds: "unat (cd_start es) = (\<Sum>e\<leftarrow>es. plain_span e)" "unat (cd_bytes es) = (\<Sum>e\<leftarrow>es. 46 + name_len e)"
    using assms(3) by (simp_all add: unat_spans unat_cd_bytes archive_bytes_def)
  have A: "length A = unat (cd_start es)"
    unfolding cds(1) A_def using assms(1) by (rule parts_length)
  have C: "length C = unat (cd_bytes es)" unfolding cds(2) C_def using centrals_length [of ds ?es] ds by simp
  have R: "length R = 22" by (simp add: R_def)
  show len: "length z = archive_bytes es" by (simp add: z A C R cds archive_bytes_def)
  have "holds_at z (length ([] :: byte list)) A" unfolding holds_at_def z by (intro exI [of _ "[]"] exI [of _ "C @ R"]) simp
  then have hA: "holds_at z (unat 0) A" by simp
  have "holds_at z (length (A @ C)) R" unfolding holds_at_def z by (intro exI [of _ "A @ C"] exI [of _ "[]"]) simp
  then have hR: "holds_at z (length z - 22) R" by (simp add: z R)
  have "holds_at z (length A) C" unfolding holds_at_def z by (intro exI [of _ A] exI [of _ R]) simp
  then have hC: "holds_at z (unat (cd_start es)) C" by (simp add: A)
  have "list_all2 (in_place (unat (cd_start es)) z) ?es ds"
    using hA assms(1-3) cds(1) by (intro parts_in_place) (simp_all add: A_def archive_bytes_def)
  then have "directory (unat (cd_start es)) z (length ?es) (unat (cd_start es)) = Some (zip (map zip_name ?es) ds)"
    using hC by (intro directory_reads) (simp_all add: C_def len cds archive_bytes_def)
  then have dir: "directory (unat (cd_start es)) z (length es) (unat (cd_start es)) = Some (zip (map zip_name es) ds)" by simp
  let ?e = "length z - 22"
  note r = eocd_fields [OF assms(4), of "cd_bytes es" "cd_start es", folded R_def]
  have f: "f16 z (?e + 10) = length es" "f32 z (?e + 16) = cd_start es" "f16 z (?e + 20) = 0"
    using holds_f16 [OF hR, of 10] holds_f16 [OF hR, of 20] holds_f32 [OF hR, of 16] r R by simp_all
  have "slice z ?e 4 = [0x50, 0x4B, 5, 6]" using holds_part [OF hR, of 0 4] r R by simp
  moreover have "22 \<le> length z" by (simp add: z R)
  ultimately show "unzip z = Some (zip (map zip_name es) ds)" unfolding unzip_def Let_def f using dir by simp
qed

section \<open>What 0x8A sends\<close>

lemma collect_small:
  "let (c', es') = fold (collect_step E) nps (c, es) in
     (\<forall>e\<in>set es. name_len e \<le> 79) \<and> length es \<le> 258 \<longrightarrow> (\<forall>e\<in>set es'. name_len e \<le> 79) \<and> length es' \<le> 258"
proof (induction nps arbitrary: c es)
  case (Cons np nps)
  obtain zn path where np: "np = (zn, path)" by fastforce
  obtain c1 es1 where step: "collect_step E np (c, es) = (c1, es1)" by fastforce
  have "(\<forall>e\<in>set es. name_len e \<le> 79) \<and> length es \<le> 258 \<longrightarrow> (\<forall>e\<in>set es1. name_len e \<le> 79) \<and> length es1 \<le> 258"
    using step unfolding np collect_step_def kArchiveMaxEntries_def archive_entry_def
    by (auto simp: name_len_def split: if_splits option.splits)
  then show ?case using Cons.IH [of c1 es1] step by (auto simp: Let_def)
qed simp

lemma collected:
  "e \<in> set (snd (collect_entries E nps c)) \<Longrightarrow> name_len e \<le> 79" "length (snd (collect_entries E nps c)) \<le> 258"
  using collect_small [of E nps c "[]"] unfolding collect_entries_def by (auto simp: Let_def case_prod_beta)

text \<open>The files of a card that holds still, under the names the archive gives them.\<close>

fun present :: "(byte list \<Rightarrow> byte list option) \<Rightarrow> (byte list \<times> byte list) list \<Rightarrow> (byte list \<times> byte list) list" where
  "present file_of [] = []"
| "present file_of ((nm, path) # nps) =
     (case file_of path of None \<Rightarrow> present file_of nps | Some bs \<Rightarrow> (take 79 nm, bs) # present file_of nps)"

definition entry_of :: "byte list \<Rightarrow> byte list \<Rightarrow> byte list \<Rightarrow> zip_entry" where
  "entry_of nm path bs = \<lparr>zip_name = take 79 nm, sd_path = path, zfile_size = of_nat (length bs), zcrc32 = 0, lhf_offset = 0\<rparr>"

fun entries_of :: "(byte list \<Rightarrow> byte list option) \<Rightarrow> (byte list \<times> byte list) list \<Rightarrow> zip_entry list" where
  "entries_of file_of [] = []"
| "entries_of file_of ((nm, path) # nps) =
     (case file_of path of None \<Rightarrow> entries_of file_of nps | Some bs \<Rightarrow> entry_of nm path bs # entries_of file_of nps)"

lemma collect_still:
  assumes "still_card (lib E) c file_of rest" "length es + length nps \<le> 258"
  shows "fold (collect_step E) nps (c, es) = (c, es @ entries_of file_of nps)"
  using assms(2)
proof (induction nps arbitrary: es)
  case (Cons np nps)
  obtain nm path where np: "np = (nm, path)" by fastforce
  show ?case
  proof (cases "file_of path")
    case None
    then have "collect_step E np (c, es) = (c, es)"
      using still_card.missing [OF assms(1) None] by (simp add: np collect_step_def archive_entry_def)
    then show ?thesis using Cons by (simp add: np None)
  next
    case (Some bs)
    then have "collect_step E np (c, es) = (c, es @ [entry_of nm path bs])"
      using still_card.opened [OF assms(1) Some] still_card.closing [OF assms(1)] Cons.prems
      by (auto simp: np collect_step_def archive_entry_def entry_of_def kArchiveMaxEntries_def)
    then show ?thesis using Cons by (simp add: np Some)
  qed
qed simp

lemma present_entries:
  assumes "map Some ds = map (file_of \<circ> sd_path) (entries_of file_of nps)"
  shows "zip (map zip_name (entries_of file_of nps)) ds = present file_of nps"
  using assms
proof (induction nps arbitrary: ds)
  case (Cons np nps)
  obtain nm path where np: "np = (nm, path)" by fastforce
  show ?case
  proof (cases "file_of path")
    case (Some bs)
    then show ?thesis using Cons by (cases ds) (auto simp: np entry_of_def)
  qed (use Cons in \<open>simp add: np\<close>)
qed simp

lemma entries_sized:
  assumes "\<forall>p bs. file_of p = Some bs \<longrightarrow> length bs < 4294967296"
  shows "\<forall>e\<in>set (entries_of file_of nps). \<exists>bs. file_of (sd_path e) = Some bs \<and> length bs = unat (zfile_size e)"
  proof (induction nps)
  case (Cons np nps)
  then show ?case using assms by (cases np) (auto simp: entry_of_def unat_of_nat32 split: option.splits)
qed simp

lemma handle_archive:
  assumes "prompt_clock E" "length (resp_buf (the_source i s)) = RESP_BUF_SIZE" "i = current_source s"
  defines "t \<equiv> handleGetSdArchive E s" and "es \<equiv> lay_out 0 (snd (collect_entries E (archive_names s) (the_card s)))"
  shows "ar_at E i (cd_bytes es) (cd_start es) es 0 (if es = [] then kEocd else kLocalHeader) 2 t"
    "the_card t = fst (collect_entries E (archive_names s) (the_card s))"
    "out i t = wire_out (the_source i s) @ [10, 0, GET_SD_ARCHIVE_CMD] @ put64 (archive_total es)"
proof -
  obtain c es0 where ce: "collect_entries E (archive_names s) (the_card s) = (c, es0)" by fastforce
  have es: "es = lay_out 0 es0" by (simp add: es_def ce)
  let ?u = "reply GET_SD_ARCHIVE_CMD 0 (put64 (archive_total es)) (with_card (\<lambda>_. c) s)"
  have t: "t = ?u\<lparr>xf := (xf s)\<lparr>ar_entries := es, ar_entry_idx := 0, ar_phase := (if es = [] then kEocd else kLocalHeader),
                        ar_cd_offset := cd_start es, ar_cd_size := cd_bytes es, ar_source := i,
                        ar_deadline := ms E (tick s) + kArchiveIdleTimeoutMs, ar_active := True\<rparr>, tick := tick s + 1\<rparr>"
    unfolding t_def handleGetSdArchive_def ce Let_def prod.case es [symmetric] by (simp add: reply_def with_card_def assms(3))
  have e: "\<not> expired (ms E (tick s + 1 + j)) (ms E (tick s) + kArchiveIdleTimeoutMs)" if "j < 2" for j
  proof -
    have "j = 0 \<or> j = 1" using that by linarith
    then show ?thesis using assms(1) by (intro not_expired) (auto simp: prompt_clock_def kArchiveIdleTimeoutMs_def)
  qed
  show "ar_at E i (cd_bytes es) (cd_start es) es 0 (if es = [] then kEocd else kLocalHeader) 2 t"
    unfolding ar_at_def t using e by simp
  show "the_card t = fst (collect_entries E (archive_names s) (the_card s))"
    unfolding ce by (simp add: t the_card_def reply_def with_card_def)
  have p: "length (put64 v) = 8" for v by (simp add: put64_def)
  have w: "the_source i (with_card (\<lambda>_. c) s) = the_source i s" by (simp add: with_card_def the_source_def split: source_id.split)
  have c: "current_source (with_card (\<lambda>_. c) s) = i" by (simp add: with_card_def assms(3))
  have "put64 (archive_total es) \<noteq> []" using p [of "archive_total es"] by (metis list.size(3) zero_neq_numeral)
  then show "out i t = wire_out (the_source i s) @ [10, 0, GET_SD_ARCHIVE_CMD] @ put64 (archive_total es)"
    using assms(2) by (simp add: t reply_def c w committed_def sendResponse_def Let_def p RESP_BUF_SIZE_def byte_count_per_response_max_def blit_def)
qed

lemma archive_total_bytes:
  assumes "archive_bytes es < 4294967296"
  shows "archive_total (lay_out off es) = of_nat (archive_bytes es)"
proof -
  have "unat (cd_start es) = (\<Sum>e\<leftarrow>es. plain_span e)" "unat (cd_bytes es) = (\<Sum>e\<leftarrow>es. 46 + name_len e)"
    using assms by (simp_all add: unat_spans unat_cd_bytes archive_bytes_def)
  then have "(of_nat (archive_bytes es) :: u64) = of_nat (unat (cd_start es)) + of_nat (unat (cd_bytes es)) + 22"
    by (simp add: archive_bytes_def)
  then show ?thesis by (simp add: archive_total_def of_nat_unat)
qed

lemma laid_out_sized:
  "\<forall>e\<in>set es. \<exists>bs. file_of (sd_path e) = Some bs \<and> length bs = unat (zfile_size e)
   \<Longrightarrow> \<forall>e\<in>set (lay_out off es). \<exists>bs. file_of (sd_path e) = Some bs \<and> length bs = unat (zfile_size e)"
  by (induction es arbitrary: off) simp_all

lemma bench_archive [simp]:
  "good_link (bench b) i 4096" "prompt_clock (bench b)" "reads_bounded (lib (bench b))" "current_source (machine0 b c) = Net"
  "length (resp_buf (the_source Net (machine0 b c))) = RESP_BUF_SIZE" "wire_out (the_source Net (machine0 b c)) = []"
  "still_card (lib (bench b)) c (\<lambda>_. Some c) (\<lambda>h. drop h c)"
  "archive_names (machine0 b c) = [(str ''MANIFEST.bin'', manifest_bin_path), (str ''MANIFEST.txt'', manifest_txt_path)]"
  "length (names (sd_st (machine0 b c))) = 0" "the_card (machine0 b c) = c"
  using flat.still_card_axioms [of c]
  by (simp_all add: good_link_def prompt_clock_def reads_bounded_def bench_def isConnected_def flat_card_def machine0_def power_on_def
    the_source_def source0_def the_card_def sd0_def archive_names_def split: source_id.split)

lemma bench_names [simp]:
  "zip_name (entry_of nm p bs) = take 79 nm" "zfile_size (entry_of nm p bs) = of_nat (length bs)"
  "take 79 (str ''MANIFEST.bin'') = str ''MANIFEST.bin''" "take 79 (str ''MANIFEST.txt'') = str ''MANIFEST.txt''"
  by (simp_all add: entry_of_def str_def)

lemma bench_entries [simp]:
  "collect_entries (bench b) [(nm, p), (nm', p')] c = (c, [entry_of nm p c, entry_of nm' p' c])"
  by (simp add: collect_entries_def collect_step_def archive_entry_def bench_def flat_card_def entry_of_def kArchiveMaxEntries_def)

lemma bench_bytes [simp]:
  "archive_bytes [entry_of (str ''MANIFEST.bin'') p [1, 2, 3], entry_of (str ''MANIFEST.txt'') p' [1, 2, 3]] = 260"
  by (simp add: archive_bytes_def plain_span_def entry_of_def name_len_def str_def)





end
