(* ===== verification/DarkProps.thy ===== *)
theory DarkProps
  imports LoopInv
begin

text \<open>
  Dark means dark: a stop, and the end of a trial, send three dark frames to every panel over the
  wire, and nothing but dark frames follows until the next command.
\<close>

section \<open>Dark frames on the wire\<close>

text \<open>One dark block for every panel, on its chip select and bus.\<close>

definition all_dark :: "arena_hw \<Rightarrow> (nat \<times> nat \<times> byte list) multiset" where
  "all_dark b = mset (map (\<lambda>p. (fst (route (panel_sets b) p), snd (route (panel_sets b) p), dark_block)) [0..<panel_count_per_frame b])"

text \<open>From \<open>s\<close> to \<open>t\<close> the driver made a run that obeys the wire rules and clocked exactly \<open>m\<close>.\<close>

definition clocked :: "arena_hw \<Rightarrow> ('c, 'h, 'w) cp \<Rightarrow> ('c, 'h, 'w) cp \<Rightarrow> (nat \<times> nat \<times> byte list) multiset \<Rightarrow> bool" where
  "clocked b s t m \<longleftrightarrow> (\<exists>es xs. trace (spi_st t) = trace (spi_st s) @ es
     \<and> wire_run (map cs_pin (panel_sets b)) es (idle_wire []) = Some (idle_wire xs) \<and> mset xs = m)"

lemma clocked_adds: "wire_adds b (spi_st s) (spi_st t) xs \<Longrightarrow> mset xs = m \<Longrightarrow> clocked b s t m"
  unfolding wire_adds_def clocked_def cs_of_def by fastforce

lemma clocked_refl: "spi_st t = spi_st s \<Longrightarrow> clocked b s t {#}"
  by (auto simp: clocked_def)

lemma clocked_trans: "clocked b s t m \<Longrightarrow> clocked b t u n \<Longrightarrow> clocked b s u (m + n)"
  unfolding clocked_def
proof (elim exE conjE)
  fix es xs fs ys
  let ?cs = "map cs_pin (panel_sets b)"
  assume a: "trace (spi_st t) = trace (spi_st s) @ es" "wire_run ?cs es (idle_wire []) = Some (idle_wire xs)" "mset xs = m"
    and c: "trace (spi_st u) = trace (spi_st t) @ fs" "wire_run ?cs fs (idle_wire []) = Some (idle_wire ys)" "mset ys = n"
  have "wire_run ?cs (es @ fs) (idle_wire []) = Some (idle_wire (xs @ ys))"
    using a(2) wire_run_idle [OF c(2), of xs] by (simp add: wire_run_append)
  then show "\<exists>es xs. trace (spi_st u) = trace (spi_st s) @ es \<and> wire_run ?cs es (idle_wire []) = Some (idle_wire xs) \<and> mset xs = m + n"
    using a c by (intro exI [of _ "es @ fs"] exI [of _ "xs @ ys"]) simp
qed

lemma allOff_clocked:
  assumes "engine_ok (board E) s"
  shows "clocked (board E) s (enterAllOff E s) (all_dark (board E) + all_dark (board E) + all_dark (board E))"
proof -
  have l: "length (frame_buf s) = frame_buf_byte_count_max (board E)" and w: "wired (board E) (spi_st s)"
    using assms by (simp_all add: engine_ok_def geometry_def)
  define fr where "fr = sent_frame (board E) (dark_image_of E (length (frame_buf s))) 53"
  have f: "mset fr = all_dark (board E)" using sent_frame_image [OF l] unfolding fr_def all_dark_def .
  show ?thesis using enterAllOff_adds [OF w, folded fr_def] by (rule clocked_adds) (simp add: f add.assoc)
qed

lemma reply_sel [simp]: "spi_st (reply c st p s) = spi_st s" "cstate (reply c st p s) = cstate s" "halted (reply c st p s) = halted s"
  by (simp_all add: reply_def on_source_def split: source_id.split)

lemma mode4_upd2 [simp]:
  "mode4_view (s\<lparr>spi_st := sp\<rparr>) = mode4_view s" "mode4_view (s\<lparr>cstate := cs, frame_byte_count := k\<rparr>) = mode4_view s"
  "mode4_view (s\<lparr>trial_duty := d\<rparr>) = mode4_view s" "mode4_view (s\<lparr>frame_buf := b, blk := k, frame_byte_count := m\<rparr>) = mode4_view s"
  "mode4_view (s\<lparr>frame_buf := b, frame_byte_count := m, blk := k\<rparr>) = mode4_view s"
  by (simp_all add: mode4_view_def)

lemma mode4_send [simp]: "mode4_view (send_frame E s) = mode4_view s"
  by (simp add: send_frame_def Let_def)

lemma mode4_blank [simp]: "mode4_view (blank_once E i s) = mode4_view s"
  by (simp add: blank_once_def Let_def)

lemma mode4_allOff [simp]: "mode4_view (enterAllOff E s) = mode4_view s"
  by (simp add: enterAllOff_def Let_def upt3 fillFrameBufferDark_def)

lemma allOff_halted [simp]: "halted (enterAllOff E s) = halted s"
  using mode4_allOff [of E s] by (simp add: mode4_view_def)

lemma stop_dispatch:
  "dispatch E ALL_OFF_CMD d n s = reply ALL_OFF_CMD 0 (str ''All-Off Received'') (enterAllOff E s)"
  "dispatch E STOP_DISPLAY_CMD d n s = reply STOP_DISPLAY_CMD 0 (str ''Display has been stopped'') (enterAllOff E s)"
proof -
  have a: "ALL_OFF_CMD \<noteq> SYSTEM_RESET_CMD" "STOP_DISPLAY_CMD \<noteq> SYSTEM_RESET_CMD" "STOP_DISPLAY_CMD \<noteq> ALL_OFF_CMD" "STOP_DISPLAY_CMD \<noteq> ALL_ON_CMD"
    by (simp_all add: ALL_OFF_CMD_def STOP_DISPLAY_CMD_def SYSTEM_RESET_CMD_def ALL_ON_CMD_def)
  show "dispatch E ALL_OFF_CMD d n s = reply ALL_OFF_CMD 0 (str ''All-Off Received'') (enterAllOff E s)"
    unfolding dispatch_def display_case_def by (simp only: a if_False if_True refl option.case)
  show "dispatch E STOP_DISPLAY_CMD d n s = reply STOP_DISPLAY_CMD 0 (str ''Display has been stopped'') (enterAllOff E s)"
    unfolding dispatch_def display_case_def by (simp only: a if_False if_True refl option.case)
qed

text \<open>C6: STOP and ALL_OFF really turn the arena off. In every state the main loop can be in, the command
  leaves the engine in ALL_OFF with the refresh timer disarmed, and on the wire every panel has
  been sent the dark block three times over its own chip select and bus, within the wire
  rules; the block is a valid persistent GS2 frame with every pixel and the duty at zero.\<close>

theorem stop_darkens_every_panel:
  assumes "engine_ok (board E) s" "c = ALL_OFF_CMD \<or> c = STOP_DISPLAY_CMD"
  shows "let t = dispatch E c d n s; b = board E in
      cstate t = ALL_OFF \<and> armed_hz (spi_st t) = 0 \<and> halted t = halted s \<and> engine_ok b t
      \<and> clocked b s t (all_dark b + all_dark b + all_dark b)
      \<and> validate_parity dark_block \<and> dark_block ! 1 = cmd_disp_2lvl_persist \<and> drop 2 dark_block = replicate 51 0"
proof -
  obtain msg where t: "dispatch E c d n s = reply c 0 msg (enterAllOff E s)"
    using assms(2) stop_dispatch by blast
  have "clocked (board E) s (reply c 0 msg (enterAllOff E s)) (all_dark (board E) + all_dark (board E) + all_dark (board E))"
    using allOff_clocked [OF assms(1)] by (simp add: clocked_def)
  moreover have "engine_ok (board E) (enterAllOff E s)" using assms(1) by (intro enterAllOff_ok data_pre engineD)
  then have "engine_ok (board E) (reply c 0 msg (enterAllOff E s))" by simp
  ultimately show ?thesis using dark_block_blank by (simp add: t Let_def)
qed

section \<open>Staying dark\<close>

lemma aoLut_sel [simp]:
  "spi_st (serviceAoLut E s) = spi_st s" "cstate (serviceAoLut E s) = cstate s" "trial_end_ms (serviceAoLut E s) = trial_end_ms s"
  by (simp_all add: serviceAoLut_def applyAoLut_def Let_def)

lemma trialTimer_off:
  assumes "engine_ok (board E) s" "cstate s = ALL_OFF"
  shows "cstate (serviceTrialTimer E s) = ALL_OFF \<and> (\<exists>k. clocked (board E) s (serviceTrialTimer E s) (repeat_mset k (all_dark (board E))))"
proof -
  let ?fire = "trial_end_ms s \<noteq> 0 \<and> expired (ms E (tick s)) (trial_end_ms s)"
  show ?thesis
  proof (cases ?fire)
    case True
    let ?u = "s\<lparr>tick := tick s + 1, trial_end_ms := 0\<rparr>"
    have t: "serviceTrialTimer E s = enterAllOff E ?u" using True by (simp add: serviceTrialTimer_def Let_def)
    have "engine_ok (board E) ?u" by (rule same_engine_ok [OF assms(1)]) (simp add: eng_def)
    from allOff_clocked [OF this] have "clocked (board E) s (enterAllOff E ?u) (repeat_mset 3 (all_dark (board E)))"
      by (simp add: clocked_def numeral_3_eq_3 add.assoc)
    then show ?thesis unfolding t by auto
  next
    case False
    then have "spi_st (serviceTrialTimer E s) = spi_st s" "cstate (serviceTrialTimer E s) = ALL_OFF"
      using assms(2) by (auto simp: serviceTrialTimer_def Let_def)
    then show ?thesis using clocked_refl [of "serviceTrialTimer E s" s] by (intro conjI exI [of _ 0]) simp_all
  qed
qed

text \<open>C18: once off, the arena stays off. However long the display service then runs without a command,
  the state remains ALL_OFF with the engine sound, and every block that goes over the wire, if any
  at all (a trial deadline left over from the stopped trial fires once), is the dark block for its
  panel, in whole frames and within the wire rules.\<close>

theorem off_stays_off:
  assumes "engine_ok (board E) s" "cstate s = ALL_OFF" "reads_bounded (lib E)"
  shows "let t = (serviceDisplay E ^^ n) s in
      cstate t = ALL_OFF \<and> engine_ok (board E) t \<and> (\<exists>k. clocked (board E) s t (repeat_mset k (all_dark (board E))))"
proof (induction n)
  case 0
  then show ?case using assms clocked_refl [of s s] by (auto simp: Let_def intro: exI [of _ 0])
next
  case (Suc n)
  define t where "t = (serviceDisplay E ^^ n) s"
  obtain k where t: "cstate t = ALL_OFF" "engine_ok (board E) t" "clocked (board E) s t (repeat_mset k (all_dark (board E)))"
    using Suc.IH by (auto simp: Let_def t_def)
  have a: "engine_ok (board E) (serviceAoLut E t)" "cstate (serviceAoLut E t) = ALL_OFF" using t aoLut_ok by simp_all
  obtain j where j: "cstate (serviceTrialTimer E (serviceAoLut E t)) = ALL_OFF"
    "clocked (board E) t (serviceTrialTimer E (serviceAoLut E t)) (repeat_mset j (all_dark (board E)))"
    using trialTimer_off [OF a] by (auto simp: clocked_def)
  have d: "serviceDisplay E t = serviceTrialTimer E (serviceAoLut E t)" by (simp add: serviceDisplay_def Let_def j(1))
  have "clocked (board E) s (serviceDisplay E t) (repeat_mset (k + j) (all_dark (board E)))"
    unfolding d using clocked_trans [OF t(3) j(2)] by (simp add: repeat_mset_distrib)
  moreover have "engine_ok (board E) (serviceDisplay E t)" using t(2) assms(3) by (rule display_ok)
  ultimately show ?case using j(1) d by (auto simp: Let_def t_def [symmetric])
qed

text \<open>C11: a trial ends at its deadline. Whatever the arena shows, the first turn of the display service that
  reads the clock at or after the deadline of trial_params stops it: ALL_OFF, the deadline
  cleared, and three dark frames to every panel.\<close>

theorem trial_ends_dark:
  assumes "engine_ok (board E) s" "trial_end_ms s \<noteq> 0" "expired (ms E (tick (serviceAoLut E s))) (trial_end_ms s)"
  shows "let t = serviceDisplay E s; b = board E in
      cstate t = ALL_OFF \<and> trial_end_ms t = 0 \<and> armed_hz (spi_st t) = 0
      \<and> clocked b s t (all_dark b + all_dark b + all_dark b)"
proof -
  let ?a = "serviceAoLut E s"
  let ?u = "?a\<lparr>tick := tick ?a + 1, trial_end_ms := 0\<rparr>"
  have "serviceTrialTimer E ?a = enterAllOff E ?u" using assms(2,3) by (simp add: serviceTrialTimer_def Let_def)
  then have t: "serviceDisplay E s = enterAllOff E ?u" by (simp add: serviceDisplay_def Let_def)
  have "engine_ok (board E) ?u" by (rule same_engine_ok [OF aoLut_ok [OF assms(1)]]) (simp add: eng_def)
  from allOff_clocked [OF this] show ?thesis by (simp add: t Let_def clocked_def)
qed

section \<open>Witnesses\<close>

lemma machine0_ok: "engine_ok b (machine0 b c)"
  by (simp add: machine0_def power_on_def engine_ok_def geometry_def playback_def block_byte_count_gs16_def fits_def sd0_def wired_def
      spi0_def gate_pins_def)

lemma bench_sel [simp]: "board (bench b) = b" "reads_bounded (lib (bench b))"
  by (simp_all add: bench_def flat_card_def reads_bounded_def)

definition lit :: "(byte list, nat, u32 \<times> u32) cp" where
  "lit = (machine0 ARENA_HW_2_10 [])\<lparr>cstate := ALL_ON, trial_end_ms := 1, tick := 5\<rparr>"

lemma lit_ok: "engine_ok ARENA_HW_2_10 lit" "engine_ok ARENA_HW_2_10 (lit\<lparr>cstate := ALL_OFF\<rparr>)"
  using machine0_ok [of ARENA_HW_2_10 "[]"]
  by (simp_all add: lit_def engine_ok_def geometry_def playback_def) (simp add: machine0_def power_on_def spi0_def)

theorem stop_darkens_every_panel_witness:
  "let t = dispatch (bench ARENA_HW_2_10) STOP_DISPLAY_CMD [1, 0x30] 2 lit; b = ARENA_HW_2_10 in
     cstate t = ALL_OFF \<and> clocked b lit t (all_dark b + all_dark b + all_dark b)"
  using stop_darkens_every_panel [where E = "bench ARENA_HW_2_10" and s = lit and c = STOP_DISPLAY_CMD and d = "[1, 0x30]" and n = 2]
    lit_ok by (simp add: Let_def)

theorem off_stays_off_witness:
  "cstate ((serviceDisplay (bench ARENA_HW_2_10) ^^ 4) (lit\<lparr>cstate := ALL_OFF\<rparr>)) = ALL_OFF"
  using off_stays_off [where E = "bench ARENA_HW_2_10" and s = "lit\<lparr>cstate := ALL_OFF\<rparr>" and n = 4] lit_ok
  by (simp add: Let_def)

theorem trial_ends_dark_witness:
  "let t = serviceDisplay (bench ARENA_HW_2_10) lit; b = ARENA_HW_2_10 in
     cstate t = ALL_OFF \<and> clocked b lit t (all_dark b + all_dark b + all_dark b)"
proof -
  have "tick (serviceAoLut (bench ARENA_HW_2_10) lit) = 5"
    by (simp add: serviceAoLut_def lit_def machine0_def power_on_def analog_out0_def)
  then have "expired (ms (bench ARENA_HW_2_10) (tick (serviceAoLut (bench ARENA_HW_2_10) lit))) (trial_end_ms lit)"
    by (simp add: bench_def lit_def expired_def)
  then show ?thesis using trial_ends_dark [where E = "bench ARENA_HW_2_10" and s = lit] lit_ok by (simp add: Let_def lit_def)
qed

theorem closed_loop_exact_witness:
  "let s = lit\<lparr>pat_frames := 10, cur_frame := 3, gain := 100, tick := 5000\<rparr>; t = serviceClosedLoop (bench ARENA_HW_2_10) s in
     \<not> halted t \<and> cur_frame t = nat ((3 + trunc (next_accum (bench ARENA_HW_2_10) s)) mod 10) \<and> \<bar>frame_accum t\<bar> < 1"
proof -
  let ?s = "lit\<lparr>pat_frames := 10, cur_frame := 3, gain := 100, tick := 5000\<rparr>"
  have "cur_frame ?s < pat_frames ?s" "float24 (frame_accum ?s)" "\<bar>frame_accum ?s\<bar> < 1" "\<not> halted ?s"
    "adc (bench ARENA_HW_2_10) (tick ?s + 1) \<le> 1023" "\<bar>gain ?s\<bar> \<le> 32768"
    "\<not> us (bench ARENA_HW_2_10) (tick ?s) - last_sample_us ?s < 2000" "unat (us (bench ARENA_HW_2_10) (tick ?s) - last_sample_us ?s) \<le> 2 ^ 24"
    using float24_int [of 0] by (simp_all add: lit_def machine0_def power_on_def bench_def)
  then show ?thesis using closed_loop_exact [of ?s "bench ARENA_HW_2_10"] by (simp add: Let_def)
qed

end
