(* ===== verification/IspProps.thy ===== *)
theory IspProps
  imports Isp Streams Bench "HOL-Library.Sublist"
begin

text \<open>
  What reprogramming a panel puts on the wire: the commands in their order, the image page by page,
  and no step before the one it depends on has been answered.
\<close>

section \<open>Commands on the wire\<close>

text \<open>The messages to single panels in a trace; all-zero transfers only clock a reply out.\<close>

definition message :: "spi_ev \<Rightarrow> byte list option" where
  "message e = (case e of Xfer r bs \<Rightarrow> if set bs \<subseteq> {0} then None else Some bs | _ \<Rightarrow> None)"

definition commands :: "spi_ev list \<Rightarrow> byte list list" where
  "commands es = List.map_filter message es"

text \<open>From \<open>s\<close> to \<open>t\<close> exactly the messages \<open>ws\<close> were sent; the session and the card are untouched.\<close>

definition says :: "('c, 'h, 'w) cp \<Rightarrow> ('c, 'h, 'w) cp \<Rightarrow> byte list list \<Rightarrow> bool" where
  "says s t ws \<longleftrightarrow> (\<exists>es. trace (spi_st t) = trace (spi_st s) @ es \<and> commands es = ws) \<and> the_card t = the_card s"

definition keeps_nonce :: "('c, 'h, 'w) cp \<Rightarrow> ('c, 'h, 'w) cp \<Rightarrow> bool" where
  "keeps_nonce s t \<longleftrightarrow> session_nonce t = session_nonce s"

lemma commands_simps [simp]:
  "commands [] = []" "commands (es @ fs) = commands es @ commands fs"
  "commands (e # es) = (case message e of None \<Rightarrow> commands es | Some m \<Rightarrow> m # commands es)"
  by (simp_all add: commands_def List.map_filter_def split: option.split)

lemma message_simps [simp]:
  "message (Xfer r bs) = (if set bs \<subseteq> {0} then None else Some bs)" "message (DelayNs d) = None" "message (PinWrite p v) = None"
  "message (BeginTxn r hz) = None" "message (EndTxn r) = None" "message (Throwaway r) = None"
  by (simp_all add: message_def)

lemma says_refl [simp]: "says s s []"
  unfolding says_def by (auto intro: exI [of _ "[]"])

lemma says_trans [trans]: "says s t ws \<Longrightarrow> says t u ns \<Longrightarrow> says s u (ws @ ns)"
  unfolding says_def by force

lemma says_quiet:
  "spi_st t = spi_st s \<Longrightarrow> the_card t = the_card s \<Longrightarrow> says s t []"
  unfolding says_def by (auto intro: exI [of _ "[]"])

lemma quiet_steps [simp]:
  "says s (wait_us u s) []" "says s (wait_ms u s) []" "says s (set_clock mhz s) []" "says s (kick E s) []" "says s (s\<lparr>tick := n\<rparr>) []"
  "keeps_nonce s (wait_us u s)" "keeps_nonce s (wait_ms u s)" "keeps_nonce s (set_clock mhz s)" "keeps_nonce s (kick E s)"
  "keeps_nonce s (s\<lparr>tick := n\<rparr>)" "keeps_nonce s s" "keeps_nonce s (s\<lparr>halted := h\<rparr>)" "says s (s\<lparr>halted := h\<rparr>) []"
  by (auto simp: says_def keeps_nonce_def wait_us_def wait_ms_def set_clock_def kick_def the_card_def emit_def setSpiClockMhz_def Let_def
    intro: exI [of _ "[DelayNs (u * 1000)]"] exI [of _ "[DelayNs (u * 1000000)]"] exI [of _ "[]"])

lemma keeps_trans [trans]: "keeps_nonce s t \<Longrightarrow> keeps_nonce t u \<Longrightarrow> keeps_nonce s u"
  by (simp add: keeps_nonce_def)

lemma panel_xfer_says:
  assumes "panel_xfer E p copi s = (t, ok)"
  shows "says s t (if ok \<and> \<not> set copi \<subseteq> {0} then [copi] else [])" "keeps_nonce s t"
    "ok \<longleftrightarrow> p < panel_count_per_frame (board E)"
proof -
  show "says s t (if ok \<and> \<not> set copi \<subseteq> {0} then [copi] else [])"
    using assms by (auto simp: panel_xfer_def transferSinglePanel_def beginBus_def emit_def Let_def says_def the_card_def case_prod_beta
      split: option.splits prod.splits if_splits)
  show "keeps_nonce s t" using assms by (auto simp: panel_xfer_def keeps_nonce_def case_prod_beta)
  show "ok \<longleftrightarrow> p < panel_count_per_frame (board E)"
    using assms bd.find_panel_total [of "board E" p]
    by (auto simp: panel_xfer_def transferSinglePanel_def case_prod_beta Let_def split: option.splits)
qed

lemma stamp_nonzero: "\<not> set (buildMsg c pl) \<subseteq> {0}"
proof
  assume z: "set (buildMsg c pl) \<subseteq> {0}"
  have "buildMsg c pl ! 0 AND 0x7F = header_version_v1 AND 0x7F" unfolding buildMsg_def by (simp add: stamp_low_bits)
  moreover have "length (buildMsg c pl) > 0" by (simp add: buildMsg_def)
  then have "buildMsg c pl ! 0 = 0" using z nth_mem by blast
  ultimately show False by (simp add: header_version_v1_def)
qed

lemma sendCmd_says:
  assumes "sendCmd E p (buildMsg c pl) gap s = (t, ok)"
  shows "says s t (if ok then [buildMsg c pl] else [])" "keeps_nonce s t" "ok \<longleftrightarrow> p < panel_count_per_frame (board E)"
proof -
  let ?u = "set_clock kIspClockAMhz (wait_us gap s)"
  have x: "panel_xfer E p (buildMsg c pl) ?u = (t, ok)" using assms by (simp add: sendCmd_def)
  have "says s ?u []" using says_trans [OF quiet_steps(1) quiet_steps(3)] by simp
  from says_trans [OF this panel_xfer_says(1) [OF x]] show "says s t (if ok then [buildMsg c pl] else [])"
    using stamp_nonzero [of c pl] by (auto split: if_splits)
  show "keeps_nonce s t" using keeps_trans [OF keeps_trans [OF quiet_steps(6) quiet_steps(8)] panel_xfer_says(2) [OF x]] .
  show "ok \<longleftrightarrow> p < panel_count_per_frame (board E)" by (rule panel_xfer_says(3) [OF x])
qed

section \<open>The parts of a session\<close>

lemma readResp_says:
  assumes "readResp E p n w resp s = (t, resp', st)"
  shows "says s t [] \<and> keeps_nonce s t"
proof -
  let ?a = "if w \<noteq> 0 then wait_us w s else s"
  let ?b = "set_clock kIspClockBMhz ?a"
  have b: "says s ?b []" "keeps_nonce s ?b"
    using says_trans [OF quiet_steps(1) quiet_steps(3)] keeps_trans [OF quiet_steps(6) quiet_steps(8)] by auto
  obtain u ok where x: "panel_xfer E p (replicate (n + 1) 0) ?b = (u, ok)" by fastforce
  have "says ?b u []" "keeps_nonce ?b u" using panel_xfer_says [OF x] by (auto simp: set_replicate_conv_if split: if_splits)
  then have u: "says s u []" "keeps_nonce s u" using says_trans [OF b(1)] keeps_trans [OF b(2)] by fastforce+
  have "says s (u\<lparr>tick := k\<rparr>) []" "keeps_nonce s (u\<lparr>tick := k\<rparr>)" for k
    using says_trans [OF u(1) quiet_steps(5)] keeps_trans [OF u(2) quiet_steps(10)] by fastforce+
  then show ?thesis using assms u b x by (auto simp: readResp_def Let_def split: if_splits option.splits)
qed

lemma poll_loop_says:
  "poll_loop E fuel p n pm to t0 resp s = Some (t, resp', st) \<Longrightarrow> says s t [] \<and> keeps_nonce s t"
proof (induction fuel arbitrary: resp s)
  case (Suc fuel)
  obtain u r st' where rr: "readResp E p n 0 resp (kick E s) = (u, r, st')" by (metis prod_cases3)
  have u: "says s u []" "keeps_nonce s u"
    using says_trans [OF quiet_steps(4)] keeps_trans [OF quiet_steps(9)] readResp_says [OF rr] by fastforce+
  have k: "says s (u\<lparr>tick := i\<rparr>) []" "keeps_nonce s (u\<lparr>tick := i\<rparr>)" "says s (wait_ms m (u\<lparr>tick := i\<rparr>)) []" "keeps_nonce s (wait_ms m (u\<lparr>tick := i\<rparr>))" for i m
    using says_trans [OF says_trans [OF u(1) quiet_steps(5)] quiet_steps(2)] says_trans [OF u(1) quiet_steps(5)]
      keeps_trans [OF u(2) quiet_steps(10)] keeps_trans [OF keeps_trans [OF u(2) quiet_steps(10)] quiet_steps(7)] by auto
  show ?case
  proof (cases "st' \<noteq> None \<or> to \<le> ms E (tick u) - t0")
    case True
    then show ?thesis using Suc.prems u k rr by (auto simp: Let_def split: if_splits)
  next
    case False
    then have "poll_loop E fuel p n pm to t0 r (wait_ms (pm + ms E (tick u + 1) mod 5) (u\<lparr>tick := tick u + 2\<rparr>)) = Some (t, resp', st)"
      using Suc.prems rr by (simp add: Let_def)
    from Suc.IH [OF this] show ?thesis using says_trans [OF k(3)] keeps_trans [OF k(4)] by fastforce
  qed
qed simp

lemma pollResp_says:
  assumes "pollResp E p n pm to resp s = Some (t, resp', st)"
  shows "says s t []" "keeps_nonce s t"
  using says_trans [OF quiet_steps(5)] keeps_trans [OF quiet_steps(10)] poll_loop_says [OF assms [unfolded pollResp_def]] by fastforce+

lemma comm_check_nonzero: "\<not> set comm_check \<subseteq> {0}"
  using stamp_nonzero [of kCommCheckCmd] by (simp add: comm_check_def buildMsg_def)

lemma alive_loop_says:
  "alive_loop E fuel p t0 pr s = Some (t, alive) \<Longrightarrow> \<exists>j. says s t (replicate j comm_check) \<and> keeps_nonce s t
    \<and> (alive \<longrightarrow> p < panel_count_per_frame (board E) \<and> (if pr then 1 else 2) \<le> j)"
proof (induction fuel arbitrary: pr s)
  case (Suc fuel)
  obtain u ok where x: "panel_xfer E p comm_check (set_clock kIspClockBMhz s) = (u, ok)" by fastforce
  note okp = panel_xfer_says(3) [OF x]
  obtain j where u: "says s u (replicate j comm_check)" and jok: "ok \<longrightarrow> j = 1"
    using says_trans [OF quiet_steps(3) panel_xfer_says(1) [OF x]] that [of 0] that [of 1] comm_check_nonzero by (auto split: if_splits)
  have n: "keeps_nonce s u" by (rule keeps_trans [OF quiet_steps(8) panel_xfer_says(2) [OF x]])
  define v1 v2 v3 where "v1 = u\<lparr>tick := tick u + 1\<rparr>" and "v2 = v1\<lparr>tick := tick v1 + 1\<rparr>" and "v3 = wait_ms kAlivePollMs (kick E v2)"
  have k1: "says s v1 (replicate j comm_check)" "keeps_nonce s v1"
    unfolding v1_def using says_trans [OF u quiet_steps(5)] keeps_trans [OF n quiet_steps(10)] by simp_all
  have k2: "says s v2 (replicate j comm_check)" "keeps_nonce s v2"
    unfolding v2_def using says_trans [OF k1(1) quiet_steps(5)] keeps_trans [OF k1(2) quiet_steps(10)] by simp_all
  have k3: "says s v3 (replicate j comm_check)" "keeps_nonce s v3"
    unfolding v3_def using says_trans [OF says_trans [OF k2(1) quiet_steps(4)] quiet_steps(2)]
      keeps_trans [OF keeps_trans [OF k2(2) quiet_steps(9)] quiet_steps(7)] by simp_all
  define hit where "hit = (ok \<and> pr \<and> (\<exists>bits\<in>{0, 1, 2}. aligned bits 3 (captured E 202 (tick u)) = comm_expected))"
  define late where "late = (kAliveTimeoutMs \<le> ms E (tick v1) - t0)"
  have step: "alive_loop E (Suc fuel) p t0 pr s = (if hit then Some (v1, True) else if late then Some (v2, False)
      else alive_loop E fuel p t0 True v3)"
    by (simp only: alive_loop.simps x Let_def prod.case hit_def late_def v1_def v2_def v3_def)
  have run: "(if hit then Some (v1, True) else if late then Some (v2, False) else alive_loop E fuel p t0 True v3) = Some (t, alive)"
    using Suc.prems by (simp only: step)
  show ?case
  proof (cases hit)
    case True
    then have "t = v1" "alive" using run by simp_all
    then show ?thesis using True k1 okp jok by (intro exI [of _ j]) (auto simp: hit_def)
  next
    case miss: False
    show ?thesis
    proof (cases late)
      case True
      then have "t = v2" "\<not> alive" using run miss by simp_all
      then show ?thesis using k2 by blast
    next
      case False
      then have "alive_loop E fuel p t0 True v3 = Some (t, alive)" using run miss by simp
      from Suc.IH [OF this] obtain i where i: "says v3 t (replicate i comm_check)" "keeps_nonce v3 t"
        and a: "alive \<longrightarrow> p < panel_count_per_frame (board E) \<and> 1 \<le> i" by auto
      have "says s t (replicate (j + i) comm_check)" using says_trans [OF k3(1) i(1)] unfolding replicate_add .
      moreover have "keeps_nonce s t" by (rule keeps_trans [OF k3(2) i(2)])
      moreover have "alive \<longrightarrow> p < panel_count_per_frame (board E) \<and> (if pr then 1 else 2) \<le> j + i" using a okp jok by auto
      ultimately show ?thesis by blast
    qed
  qed
qed simp

section \<open>Pages\<close>

primrec page_msgs :: "byte list \<Rightarrow> u32 \<Rightarrow> byte list list \<Rightarrow> byte list list" where
  "page_msgs nonce i [] = []"
| "page_msgs nonce i (d # ds) = page_msg nonce i d # page_msgs nonce (i + 1) ds"

primrec sized :: "u32 \<Rightarrow> u32 \<Rightarrow> byte list list \<Rightarrow> bool" where
  "sized n i [] = True"
| "sized n i (d # ds) = (length d = page_want n i \<and> sized n (i + 1) ds)"

lemma write_pages_says:
  assumes "write_pages E p n k i h s = (t, h', r)"
  shows "\<exists>ds. says s t (page_msgs (session_nonce s) i ds) \<and> keeps_nonce s t \<and> sized n i ds \<and> length ds \<le> k \<and> r \<noteq> Hang
    \<and> (r = Next () \<longrightarrow> length ds = k)
    \<and> (\<forall>file_of rest whole. seekable_card (lib E) (the_card s) file_of rest whole \<longrightarrow> (\<exists>tl. rest h = concat ds @ tl))"
  using assms
proof (induction k arbitrary: i h s)
  case 0
  then show ?case by (intro exI [of _ "[]"]) auto
next
  case (Suc k)
  let ?s = "kick E s"
  have ks: "the_card ?s = the_card s" "session_nonce ?s = session_nonce s" by (simp_all add: kick_def the_card_def)
  obtain h1 data where rd: "sd_read (lib E) (page_want n i) h (the_card s) = (h1, data)" by fastforce
  obtain u ok where x: "sendCmd E p (page_msg (session_nonce s) i data) kPageGapUs ?s = (u, ok)" by fastforce
  obtain v resp st where y: "readResp E p 2 kPageReplyWaitUs (replicate 20 0) u = (v, resp, st)" by (metis prod_cases3)
  note xs = sendCmd_says [OF x [unfolded page_msg_def Let_def], folded page_msg_def [unfolded Let_def]]
  have u: "says s u (if ok then [page_msg (session_nonce s) i data] else [])" "keeps_nonce s u"
    using says_trans [OF quiet_steps(4) xs(1)] keeps_trans [OF quiet_steps(9) xs(2)] by simp_all
  have v: "says s v (if ok then [page_msg (session_nonce s) i data] else [])" "keeps_nonce s v"
    using says_trans [OF u(1)] keeps_trans [OF u(2)] readResp_says [OF y] by fastforce+
  have first: "rest h = data @ rest h1" if "seekable_card (lib E) (the_card s) file_of rest whole" for file_of rest whole
    using still_card.reading [OF seekable_card.axioms(1) [OF that] rd] by simp
  consider (short) "length data \<noteq> page_want n i" | (lost) "length data = page_want n i" "\<not> ok"
    | (bad) "length data = page_want n i" "ok" "st \<noteq> Some 0" | (good) "length data = page_want n i" "ok" "st = Some 0" by blast
  then show ?case
  proof cases
    case short
    then have "t = ?s" "r = Break (str ''SD read error'')" using Suc.prems rd ks by (simp_all add: Let_def)
    then show ?thesis by (intro exI [of _ "[]"]) simp
  next
    case lost
    then have "t = u" "r = Break (str ''write-page send failed'')" using Suc.prems rd x ks by (simp_all add: Let_def)
    then show ?thesis using u lost by (intro exI [of _ "[]"]) simp
  next
    case bad
    then have "t = v" "r = Break (str ''ISP_WRITE_PAGE '' @ dec (unat i) @ str '' failed'')"
      using Suc.prems rd x y ks by (simp_all add: Let_def)
    moreover have "\<forall>file_of rest whole. seekable_card (lib E) (the_card s) file_of rest whole \<longrightarrow> (\<exists>tl. rest h = concat [data] @ tl)"
    proof (intro allI impI)
      fix file_of rest whole
      assume "seekable_card (lib E) (the_card s) file_of rest whole"
      then show "\<exists>tl. rest h = concat [data] @ tl" using first by (intro exI [of _ "rest h1"]) simp
    qed
    ultimately show ?thesis using v bad by (intro exI [of _ "[data]"]) simp
  next
    case good
    then have "write_pages E p n k (i + 1) h1 v = (t, h', r)" using Suc.prems rd x y ks by (simp add: Let_def)
    from Suc.IH [OF this] obtain ds where ds: "says v t (page_msgs (session_nonce v) (i + 1) ds)" "keeps_nonce v t" "sized n (i + 1) ds"
      "length ds \<le> k" "r \<noteq> Hang" "r = Next () \<longrightarrow> length ds = k"
      "\<forall>file_of rest whole. seekable_card (lib E) (the_card v) file_of rest whole \<longrightarrow> (\<exists>tl. rest h1 = concat ds @ tl)" by blast
    have nv: "session_nonce v = session_nonce s" "the_card v = the_card s" using v by (simp_all add: keeps_nonce_def says_def)
    have "says s t (page_msgs (session_nonce s) i (data # ds))" using says_trans [OF v(1) ds(1)] good by (simp add: nv)
    moreover have "\<forall>file_of rest whole. seekable_card (lib E) (the_card s) file_of rest whole \<longrightarrow> (\<exists>tl. rest h = concat (data # ds) @ tl)"
    proof (intro allI impI)
      fix file_of rest whole
      assume c: "seekable_card (lib E) (the_card s) file_of rest whole"
      then obtain tl where "rest h1 = concat ds @ tl" using ds(7) nv by metis
      then show "\<exists>tl. rest h = concat (data # ds) @ tl" using first [OF c] by auto
    qed
    ultimately show ?thesis using ds good keeps_trans [OF v(2)] by (intro exI [of _ "data # ds"]) simp
  qed
qed

section \<open>Phases in sequence\<close>

text \<open>A phase that sends \<open>full\<close> when it goes on, and a beginning of it in any case.\<close>

definition phased :: "('c, 'h, 'w) cp \<Rightarrow> ('c, 'h, 'w) cp \<times> 'a phase \<Rightarrow> byte list list \<Rightarrow> bool" where
  "phased s tr full \<longleftrightarrow> (\<exists>ws. says s (fst tr) ws \<and> prefix ws full \<and> (\<forall>a. snd tr = Next a \<longrightarrow> ws = full \<and> keeps_nonce s (fst tr)))"

lemma phased_then:
  assumes "phased s r f1" "\<And>t a. r = (t, Next a) \<Longrightarrow> keeps_nonce s t \<Longrightarrow> phased t (g a t) f2"
  shows "phased s (then_phase r g) (f1 @ f2)"
proof -
  obtain t x where r: "r = (t, x)" by fastforce
  obtain ws where w: "says s t ws" "prefix ws f1" "\<And>a. x = Next a \<Longrightarrow> ws = f1 \<and> keeps_nonce s t" using assms(1) by (auto simp: phased_def r)
  show ?thesis
  proof (cases x)
    case (Next a)
    then have n: "ws = f1" "keeps_nonce s t" using w(3) by blast+
    obtain vs where v: "says t (fst (g a t)) vs" "prefix vs f2" "\<And>b. snd (g a t) = Next b \<Longrightarrow> vs = f2 \<and> keeps_nonce t (fst (g a t))"
      using assms(2) [of t a] r Next n(2) by (auto simp: phased_def)
    then show ?thesis using says_trans [OF w(1) v(1)] keeps_trans [OF n(2)] n(1) Next
      unfolding phased_def r then_phase_def by (intro exI [of _ "f1 @ vs"]) auto
  next
    case (Break m)
    then show ?thesis using w unfolding phased_def r then_phase_def by (intro exI [of _ ws]) auto
  next
    case Hang
    then show ?thesis using w unfolding phased_def r then_phase_def by (intro exI [of _ ws]) auto
  qed
qed

lemma phased_tick: "phased (s\<lparr>tick := n\<rparr>) r f \<Longrightarrow> phased s r f"
  unfolding phased_def using says_trans [OF quiet_steps(5) [of s n]] keeps_trans [OF quiet_steps(10) [of s n]] by fastforce

lemma timed_phased:
  assumes "phased (s\<lparr>tick := tick s + 1\<rparr>) (f (s\<lparr>tick := tick s + 1\<rparr>)) full"
  shows "phased s (timed E f s) full"
proof -
  have "phased s (timed E f s) (full @ [])"
    unfolding timed_def Let_def
    by (rule phased_then) (rule phased_tick, rule assms, auto simp: phased_def intro: exI [of _ "[]"])
  then show ?thesis by simp
qed

lemma asked:
  assumes "sendCmd E p (buildMsg c pl) gap s = (u, ok)" "ok"
  shows "says s (u\<lparr>halted := h\<rparr>) [buildMsg c pl]" "pollResp E p n pm to resp0 u = Some (v, resp, st) \<Longrightarrow> says s v [buildMsg c pl] \<and> keeps_nonce s v"
proof -
  note x = sendCmd_says [OF assms(1)]
  show "says s (u\<lparr>halted := h\<rparr>) [buildMsg c pl]" using says_trans [OF x(1) quiet_steps(13)] assms(2) by simp
  assume "pollResp E p n pm to resp0 u = Some (v, resp, st)"
  note y = pollResp_says [OF this]
  show "says s v [buildMsg c pl] \<and> keeps_nonce s v" using says_trans [OF x(1) y(1)] keeps_trans [OF x(2) y(2)] assms(2) by simp
qed

lemma phased_stop: "says s t ws \<Longrightarrow> prefix ws full \<Longrightarrow> r = Break m \<or> r = Hang \<Longrightarrow> phased s (t, r) full"
  by (auto simp: phased_def)

lemma phased_next: "says s t full \<and> keeps_nonce s t \<Longrightarrow> phased s (t, Next a) full"
  by (auto simp: phased_def)

lemma verify_staged_phased: "phased s (verify_staged E p im s) [staged_msg (session_nonce s) im]"
proof -
  obtain u ok where x: "sendCmd E p (staged_msg (session_nonce s) im) kCmdGapUs s = (u, ok)" by fastforce
  note a = asked [OF x [unfolded staged_msg_def], folded staged_msg_def]
  have n: "phased s (u, Break m) [staged_msg (session_nonce s) im]" for m
    using sendCmd_says(1) [OF x [unfolded staged_msg_def], folded staged_msg_def]
    by (intro phased_stop [where ws = "if ok then [staged_msg (session_nonce s) im] else []"]) auto
  have b: "phased s (v, Break m) [staged_msg (session_nonce s) im]" if "pollResp E p k pm to resp0 u = Some (v, resp, st)" ok for m v k pm to resp0 resp st
    using a(2) [OF that(2,1)] by (intro phased_stop [where ws = "[staged_msg (session_nonce s) im]"]) auto
  show ?thesis
    unfolding verify_staged_def x Let_def prod.case break_def
    using n a b by (auto split: option.split intro: phased_stop phased_next)
qed

lemma commit_phased: "phased s (commit E p im s) [commit_msg (session_nonce s) im]"
proof -
  obtain u ok where x: "sendCmd E p (commit_msg (session_nonce s) im) kCmdGapUs s = (u, ok)" by fastforce
  note a = asked [OF x [unfolded commit_msg_def], folded commit_msg_def]
  have n: "phased s (u, Break m) [commit_msg (session_nonce s) im]" for m
    using sendCmd_says(1) [OF x [unfolded commit_msg_def], folded commit_msg_def]
    by (intro phased_stop [where ws = "if ok then [commit_msg (session_nonce s) im] else []"]) auto
  have b: "phased s (v, Break m) [commit_msg (session_nonce s) im]" if "pollResp E p k pm to resp0 u = Some (v, resp, st)" ok for m v k pm to resp0 resp st
    using a(2) [OF that(2,1)] by (intro phased_stop [where ws = "[commit_msg (session_nonce s) im]"]) auto
  show ?thesis
    unfolding commit_def x Let_def prod.case break_def
    using n a b by (auto split: option.split intro: phased_stop phased_next)
qed

lemma wait_alive_phased:
  "\<exists>j. phased s (wait_alive E p s) (replicate j comm_check) \<and> (snd (wait_alive E p s) = Next () \<longrightarrow> 2 \<le> j)"
proof (cases "pollPanelAlive E p s")
  case None
  then have "phased s (wait_alive E p s) []" "snd (wait_alive E p s) = Hang"
    using phased_stop [OF quiet_steps(13), of "[]" "Hang :: unit phase" _ s True] by (simp_all add: wait_alive_def)
  then show ?thesis by (intro exI [of _ 0]) simp
next
  case (Some r)
  then obtain t alive where r: "pollPanelAlive E p s = Some (t, alive)" by (cases r) auto
  obtain j where j: "says s t (replicate j comm_check)" "keeps_nonce s t" "alive \<longrightarrow> 2 \<le> j"
    using alive_loop_says [OF r [unfolded pollPanelAlive_def]] says_trans [OF quiet_steps(5)] keeps_trans [OF quiet_steps(10)] by fastforce
  then have "phased s (wait_alive E p s) (replicate j comm_check)"
    unfolding wait_alive_def r break_def by (auto intro: phased_next phased_stop [OF j(1)])
  moreover have "snd (wait_alive E p s) = Next () \<longrightarrow> alive" by (simp add: wait_alive_def r break_def)
  ultimately show ?thesis using j(3) by blast
qed

text \<open>A valid reply of \<open>n\<close> bytes with status 0 among the readings of the line.\<close>

definition accepted :: "('c, 'h, 'w) env \<Rightarrow> nat \<Rightarrow> byte list \<Rightarrow> bool" where
  "accepted E n resp \<longleftrightarrow> crc_valid resp \<and> resp ! 0 = 0 \<and> (\<exists>i. \<exists>bits\<in>{0, 1, 2}. resp = aligned bits n (captured E (n + 1) i))"

lemma readResp_accepted:
  assumes "readResp E p n w r0 s = (t, resp, Some 0)"
  shows "accepted E n resp"
proof -
  have "\<exists>i bits. find (\<lambda>bits. crc_valid (aligned bits n (captured E (n + 1) i))) [0, 1, 2] = Some bits
      \<and> resp = aligned bits n (captured E (n + 1) i) \<and> resp ! 0 = 0"
    using assms by (auto simp: readResp_def Let_def split: if_splits option.splits prod.splits)
  then show ?thesis unfolding accepted_def find_Some_iff by (auto simp: less_Suc_eq numeral_3_eq_3)
qed

lemma poll_loop_accepted:
  "poll_loop E fuel p n pm to t0 r0 s = Some (t, resp, Some 0) \<Longrightarrow> accepted E n resp"
proof (induction fuel arbitrary: r0 s)
  case (Suc fuel)
  obtain u r st where rr: "readResp E p n 0 r0 (kick E s) = (u, r, st)" by (metis prod_cases3)
  show ?case using Suc.prems Suc.IH readResp_accepted [of E p n 0 r0 "kick E s" u r] rr
    by (auto simp: Let_def split: if_splits)
qed simp

lemma verified: "snd (verify_staged E p im s) = Next a \<Longrightarrow> \<exists>resp. accepted E 6 resp"
  unfolding verify_staged_def pollResp_def break_def
  by (auto simp: case_prod_beta Let_def split: if_splits option.splits dest!: poll_loop_accepted)

lemma committed_ok: "snd (commit E p im s) = Next a \<Longrightarrow> \<exists>resp. accepted E 2 resp"
  unfolding commit_def pollResp_def break_def
  by (auto simp: case_prod_beta Let_def split: if_splits option.splits dest!: poll_loop_accepted)

section \<open>A session\<close>

text \<open>What may be on the wire for one panel: at most two session starts; the pages of \<open>body\<close> in order under
  the nonce of the panel's reply; the staged check only when the whole body has gone out and pages were
  acknowledged; the commit only when the panel accepted the staged image; then the liveness checks. A
  session that succeeded got through all of it.\<close>

definition isp_session :: "('c, 'h, 'w) env \<Rightarrow> image \<Rightarrow> byte list \<Rightarrow> bool \<Rightarrow> byte list list \<Rightarrow> bool" where
  "isp_session E im body ok ws \<longleftrightarrow> (\<exists>e nonce ds tl j.
     ws = replicate e enter_msg @ page_msgs nonce 0 ds @ tl \<and> e \<le> 2
     \<and> (ds @ tl \<noteq> [] \<longrightarrow> 1 \<le> e \<and> (\<exists>resp. accepted E 19 resp \<and> nonce = slice resp 1 4))
     \<and> prefix (concat ds) body \<and> sized (im_size im) 0 ds
     \<and> (tl \<noteq> [] \<longrightarrow> concat ds = body \<and> (\<exists>resp. accepted E 2 resp))
     \<and> prefix tl ([staged_msg nonce im, commit_msg nonce im] @ replicate j comm_check)
     \<and> (2 \<le> length tl \<longrightarrow> (\<exists>resp. accepted E 6 resp))
     \<and> (ok \<longrightarrow> 2 \<le> j \<and> tl = [staged_msg nonce im, commit_msg nonce im] @ replicate j comm_check))"

lemma timed_next: "snd (timed E f s) = Next a \<Longrightarrow> \<exists>b. snd (f (s\<lparr>tick := tick s + 1\<rparr>)) = Next b"
  by (cases "f (s\<lparr>tick := tick s + 1\<rparr>)") (auto simp: timed_def then_phase_def Let_def split: phase.split_asm)

lemma says_unique: "says s t ws \<Longrightarrow> says s t vs \<Longrightarrow> ws = vs"
  by (auto simp: says_def)

lemma then_phase_simps [simp]:
  "then_phase (s, Next a) f = f a s" "then_phase (s, Break m) f = (s, Break m)" "then_phase (s, Hang) f = (s, Hang)"
  by (simp_all add: then_phase_def)

lemma then_phase_next: "snd (then_phase r f) = Next b \<Longrightarrow> \<exists>a. snd r = Next a"
  by (cases r; cases "snd r") auto

lemma commit_alive_phased:
  fixes E :: "('c, 'h, 'w) env" and p :: nat and im :: image
    and g :: "u32 \<Rightarrow> u32 \<Rightarrow> ('c, 'h, 'w) cp \<Rightarrow> ('c, 'h, 'w) cp \<times> 'a phase"
  assumes g: "\<And>cm boot v. phased v (g cm boot v) []"
  defines "run u \<equiv> then_phase (timed E (commit E p im) u) (\<lambda>cm v. then_phase (timed E (wait_alive E p) v) (g cm))"
  shows "\<exists>j. phased u (run u) ([commit_msg (session_nonce u) im] @ replicate j comm_check) \<and> (\<forall>m. snd (run u) = Next m \<longrightarrow> 2 \<le> j)"
proof -
  have cp: "phased u (timed E (commit E p im) u) [commit_msg (session_nonce u) im]"
    using commit_phased [of "u\<lparr>tick := tick u + 1\<rparr>" E p im] by (intro timed_phased) simp
  obtain w rc where w: "timed E (commit E p im) u = (w, rc)" by fastforce
  obtain j where j: "phased (w\<lparr>tick := tick w + 1\<rparr>) (wait_alive E p (w\<lparr>tick := tick w + 1\<rparr>)) (replicate j comm_check)"
    "snd (wait_alive E p (w\<lparr>tick := tick w + 1\<rparr>)) = Next () \<longrightarrow> 2 \<le> j" using wait_alive_phased by blast
  have tl: "phased w (then_phase (timed E (wait_alive E p) w) (g cm)) (replicate j comm_check @ [])" for cm
    by (rule phased_then [OF timed_phased [where f = "wait_alive E p" and s = w, OF j(1)] g])
  have "phased u (run u) ([commit_msg (session_nonce u) im] @ (replicate j comm_check @ []))"
    unfolding run_def by (rule phased_then [OF cp]) (use tl w in auto)
  moreover have "2 \<le> j" if n: "snd (run u) = Next m" for m
  proof -
    obtain cm where "rc = Next cm" using then_phase_next [OF n [unfolded run_def]] w by auto
    then have "snd (then_phase (timed E (wait_alive E p) w) (g cm)) = Next m" using n by (simp add: run_def w)
    from then_phase_next [OF this] obtain b where "snd (timed E (wait_alive E p) w) = Next b" ..
    from timed_next [OF this] j(2) show ?thesis by auto
  qed
  ultimately show ?thesis by (intro exI [of _ j]) auto
qed

lemma after_stream_says:
  assumes "after_stream E p im t0 st s = (t, r)"
  shows "\<exists>ws j. says s t ws \<and> prefix ws ([staged_msg (session_nonce s) im, commit_msg (session_nonce s) im] @ replicate j comm_check)
    \<and> (2 \<le> length ws \<longrightarrow> (\<exists>resp. accepted E 6 resp))
    \<and> (\<forall>m. r = Next m \<longrightarrow> 2 \<le> j \<and> ws = [staged_msg (session_nonce s) im, commit_msg (session_nonce s) im] @ replicate j comm_check)"
proof -
  have vp: "phased s (timed E (verify_staged E p im) s) [staged_msg (session_nonce s) im]"
    using verify_staged_phased [of "s\<lparr>tick := tick s + 1\<rparr>" E p im] by (intro timed_phased) simp
  obtain u rv where v: "timed E (verify_staged E p im) s = (u, rv)" by fastforce
  show ?thesis
  proof (cases rv)
    case (Next vms)
    have acc: "\<exists>resp. accepted E 6 resp" using timed_next [of E "verify_staged E p im" s vms] verified v Next by fastforce
    have u: "says s u [staged_msg (session_nonce s) im]" "session_nonce u = session_nonce s"
      using vp v Next by (auto simp: phased_def keeps_nonce_def)
    define g where "g = (\<lambda>cm boot v :: ('a, 'b, 'c) cp. (v\<lparr>tick := tick v + 2\<rparr>, Next (flash_report E p (im_size im) t0 st vms cm boot (tick v))))"
    have gp: "phased v' (g cm boot v') []" for cm boot v' unfolding g_def by (rule phased_next) simp
    have tr: "(t, r) = then_phase (timed E (commit E p im) u) (\<lambda>cm v. then_phase (timed E (wait_alive E p) v) (g cm))"
      using assms by (simp add: after_stream_def v Next g_def)
    obtain j ws where ws: "says u t ws" "prefix ws ([commit_msg (session_nonce s) im] @ replicate j comm_check)"
      "\<And>m. r = Next m \<Longrightarrow> ws = [commit_msg (session_nonce s) im] @ replicate j comm_check \<and> 2 \<le> j"
      using commit_alive_phased [where g = g and u = u and E = E and p = p and im = im, OF gp] unfolding phased_def tr [symmetric] u(2) by auto
    show ?thesis
    proof (intro exI conjI)
      show "says s t ([staged_msg (session_nonce s) im] @ ws)" by (rule says_trans [OF u(1) ws(1)])
      show "prefix ([staged_msg (session_nonce s) im] @ ws)
        ([staged_msg (session_nonce s) im, commit_msg (session_nonce s) im] @ replicate j comm_check)" using ws(2) by simp
    qed (use acc ws(3) in auto)
  next
    case (Break m)
    then have "(t, r) = (u, Break m)" using assms by (simp add: after_stream_def v)
    then show ?thesis using vp v Break by (auto simp: phased_def prefix_Cons)
  next
    case Hang
    then have "(t, r) = (u, Hang)" using assms by (simp add: after_stream_def v)
    then show ?thesis using vp v Hang by (auto simp: phased_def prefix_Cons)
  qed
qed

lemma enter_attempts_says:
  "enter_attempts E p k s = (t, r) \<Longrightarrow> \<exists>e. e \<le> k \<and> says s t (replicate e enter_msg) \<and> r \<noteq> Hang
    \<and> (\<forall>resp. r = Next (resp, Some 0) \<longrightarrow> 1 \<le> e \<and> accepted E 19 resp)"
proof (induction k arbitrary: s)
  case (Suc k)
  obtain u ok where x: "sendCmd E p enter_msg kCmdGapUs s = (u, ok)" by fastforce
  note u = sendCmd_says(1) [OF x [unfolded enter_msg_def], folded enter_msg_def]
  show ?case
  proof (cases ok)
    case False
    then show ?thesis using Suc.prems u x by (intro exI [of _ 0]) (auto simp: break_def)
  next
    case True
    obtain v resp st where y: "readResp E p 19 kPageReplyWaitUs (replicate 20 0) u = (v, resp, st)" by (metis prod_cases3)
    have v: "says s v (replicate 1 enter_msg)" using says_trans [OF u] readResp_says [OF y] True by fastforce
    show ?thesis
    proof (cases "st \<noteq> None \<or> k = 0")
      case True
      then have "t = v" "r = Next (resp, st)" using Suc.prems x y \<open>ok\<close> by (auto simp: Let_def)
      then show ?thesis using v readResp_accepted [of E p 19 kPageReplyWaitUs "replicate 20 0" u v resp] y
        by (intro exI [of _ 1]) auto
    next
      case False
      then have "enter_attempts E p k (wait_ms kEnterRetryDelayMs v) = (t, r)" using Suc.prems x y \<open>ok\<close> by (simp add: Let_def)
      from Suc.IH [OF this] obtain e where e: "e \<le> k" "says (wait_ms kEnterRetryDelayMs v) t (replicate e enter_msg)" "r \<noteq> Hang"
        "\<forall>resp. r = Next (resp, Some 0) \<longrightarrow> 1 \<le> e \<and> accepted E 19 resp" by blast
      have "says s t (replicate (1 + e) enter_msg)"
        using says_trans [OF says_trans [OF v quiet_steps(2)] e(2)] unfolding replicate_add by simp
      then show ?thesis using e by (intro exI [of _ "1 + e"]) auto
    qed
  qed
qed (auto intro: exI [of _ 0])

lemma enter_program_says:
  assumes "enter_program E p s = (t, r)"
  shows "\<exists>e. e \<le> 2 \<and> says s t (replicate e enter_msg) \<and> r \<noteq> Hang
    \<and> (r = Next () \<longrightarrow> 1 \<le> e \<and> (\<exists>resp. accepted E 19 resp \<and> session_nonce t = slice resp 1 4))"
proof -
  obtain u x where a: "enter_attempts E p 2 s = (u, x)" by fastforce
  obtain e where e: "e \<le> 2" "says s u (replicate e enter_msg)" "x \<noteq> Hang"
    "\<And>resp. x = Next (resp, Some 0) \<Longrightarrow> 1 \<le> e \<and> accepted E 19 resp" using enter_attempts_says [OF a] by blast
  show ?thesis
  proof (cases "\<exists>resp. x = Next (resp, Some 0)")
    case True
    then obtain resp where x: "x = Next (resp, Some 0)" ..
    then have tr: "t = u\<lparr>session_nonce := slice resp 1 4\<rparr>" "r = Next ()" using assms a by (simp_all add: enter_program_def begin_session_def)
    have "says u t []" unfolding tr by (rule says_quiet) (simp_all add: the_card_def)
    from says_trans [OF e(2) this] show ?thesis using e(1) e(4) [OF x] tr by auto
  next
    case False
    then have "t = u" "\<exists>m. r = Break m" using assms a e(3)
      by (cases x; auto simp: enter_program_def split: option.split_asm if_split_asm)+
    then show ?thesis using e by auto
  qed
qed

section \<open>The pages are the image\<close>

lemma page_want_nat:
  fixes n i :: u32
  assumes "unat i * 256 \<le> unat n"
  shows "page_want n i = min 256 (unat n - unat i * 256)"
proof -
  have "unat n < 4294967296" by (rule unsigned_less [THEN order_less_le_trans]) simp
  with assms have "unat i * 256 < 4294967296" by (rule le_less_trans)
  then have m: "unat (i * 256) = unat i * 256" by (simp add: unat_word_ariths)
  then have "i * 256 \<le> n" using assms by (simp add: word_le_nat_alt)
  then have "unat (n - i * 256) = unat n - unat i * 256" by (simp add: unat_sub m)
  then show ?thesis by (auto simp: page_want_def kPageBytes_def Let_def word_less_nat_alt)
qed

lemma page_count_nat:
  fixes n :: u32
  assumes "unat n + 255 < 2 ^ 32"
  shows "unat (page_count n) = (unat n + 255) div 256"
proof -
  have "unat (n + 255) = unat n + 255" using assms by (simp add: unat_word_ariths)
  then have "unat ((n + 255) div 256) = (unat n + 255) div 256" by (simp add: unat_div_distrib)
  then show ?thesis by (simp add: page_count_def kPageBytes_def add.commute)
qed

lemma sized_bytes:
  assumes "sized n i ds" "(unat i + length ds) * 256 < unat n + 256" "unat n + 255 < 2 ^ 32"
  shows "length (concat ds) = min (unat n - unat i * 256) (length ds * 256)"
  using assms
proof (induction ds arbitrary: i)
  case (Cons d ds)
  have small: "unat i * 256 < unat n" using Cons.prems(2) by simp
  have step: "unat (i + 1) = unat i + 1"
    using small Cons.prems(3) by (simp add: unat_word_ariths)
  have d: "length d = min 256 (unat n - unat i * 256)" using Cons.prems(1) page_want_nat [of i n] small by simp
  have "length (concat ds) = min (unat n - unat (i + 1) * 256) (length ds * 256)"
    using Cons.prems step by (intro Cons.IH) simp_all
  moreover have "ds = [] \<or> (unat i + 1) * 256 < unat n" using Cons.prems(2) by (cases ds) simp_all
  ultimately show ?case using d step by auto
qed simp

lemma write_pages_accepted:
  assumes "write_pages E p n (Suc k) i h s = (t, h', Next ())"
  shows "\<exists>resp. accepted E 2 resp"
  using assms by (auto simp: Let_def split: prod.splits if_splits dest!: readResp_accepted)

lemma flash_says:
  assumes run: "flash E p h im t0 s = (h', t, r)" and card: "seekable_card (lib E) (the_card s) file_of rest whole"
    and n: "unat (im_size im) \<le> length (whole h)" "0 < unat (im_size im)" "unat (im_size im) + 255 < 2 ^ 32"
  shows "\<exists>ws. says s t ws \<and> isp_session E im (take (unat (im_size im)) (whole h)) (\<exists>m. r = Next m) ws"
proof -
  obtain u x where u: "enter_program E p s = (u, x)" by fastforce
  obtain e where e: "e \<le> 2" "says s u (replicate e enter_msg)" "x \<noteq> Hang"
    "x = Next () \<Longrightarrow> 1 \<le> e \<and> (\<exists>resp. accepted E 19 resp \<and> session_nonce u = slice resp 1 4)"
    using enter_program_says [OF u] by blast
  show ?thesis
  proof (cases x)
    case (Break m)
    then have "t = u" "r = Break m" using run u by (simp_all add: flash_def)
    then show ?thesis using e by (intro exI [of _ "replicate e enter_msg"]) (auto simp: isp_session_def intro!: exI [of _ e] exI [of _ "[]"])
  next
    case Hang
    then show ?thesis using e(3) by simp
  next
    case (Next a)
    define N where "N = session_nonce u"
    define k where "k = unat (page_count (im_size im))"
    have x: "x = Next ()" using Next by simp
    have cu: "the_card u = the_card s" using e(2) by (simp add: says_def)
    obtain h1 b where sk: "sd_seek (lib E) 0 h (the_card u) = (h1, b)" by fastforce
    obtain v h2 rw where w: "write_pages E p (im_size im) k 0 h1 (u\<lparr>tick := tick u + 1\<rparr>) = (v, h2, rw)" by (metis prod_cases3)
    have tr: "(t, r) = then_phase (v, rw) (\<lambda>_ w. after_stream E p im t0 (ms E (tick w) - ms E (tick u)) (w\<lparr>tick := tick w + 1\<rparr>))"
      using run u x sk w by (simp add: flash_def Let_def k_def)
    have c1: "the_card (u\<lparr>tick := tick u + 1\<rparr>) = the_card s" using cu by (simp add: the_card_def)
    have nu: "session_nonce (u\<lparr>tick := tick u + 1\<rparr>) = N" by (simp add: N_def)
    obtain ds where ds: "says (u\<lparr>tick := tick u + 1\<rparr>) v (page_msgs N 0 ds)" "keeps_nonce (u\<lparr>tick := tick u + 1\<rparr>) v"
        "sized (im_size im) 0 ds" "length ds \<le> k" "rw \<noteq> Hang" "rw = Next () \<longrightarrow> length ds = k"
        and all: "\<forall>file_of rest whole. seekable_card (lib E) (the_card s) file_of rest whole \<longrightarrow> (\<exists>tl. rest h1 = concat ds @ tl)"
      using write_pages_says [OF w] unfolding nu c1 by blast
    have ex: "\<exists>tl. rest h1 = concat ds @ tl" using all card by blast
    have k: "k = (unat (im_size im) + 255) div 256" unfolding k_def by (rule page_count_nat [OF n(3)])
    have len: "length (concat ds) = min (unat (im_size im)) (length ds * 256)"
      using sized_bytes [OF ds(3)] ds(4) n(3) unfolding k by simp
    have "rest h1 = whole h" using seekable_card.seeking [OF card sk [unfolded cu]] by simp
    then have pre0: "concat ds = take (length (concat ds)) (whole h)" using ex by (metis append_eq_conv_conj)
    then have pre: "prefix (concat ds) (take (unat (im_size im)) (whole h))"
      using len by (metis min.absorb1 min.cobounded1 take_is_prefix take_take)
    have v: "says s v (replicate e enter_msg @ page_msgs N 0 ds)" "session_nonce v = N"
      using says_trans [OF e(2) says_trans [OF quiet_steps(5) ds(1)]] ds(2) by (simp_all add: keeps_nonce_def N_def)
    show ?thesis
    proof (cases rw)
      case (Break m)
      then have "t = v" "r = Break m" using tr by simp_all
      moreover have "isp_session E im (take (unat (im_size im)) (whole h)) False (replicate e enter_msg @ page_msgs N 0 ds)"
        unfolding isp_session_def
        by (rule exI [of _ e], rule exI [of _ N], rule exI [of _ ds], rule exI [of _ "[]"], rule exI [of _ 0])
          (use e(1) e(4) [OF x] pre ds(3) in \<open>auto simp: N_def\<close>)
      ultimately show ?thesis using v(1) by (intro exI [of _ "replicate e enter_msg @ page_msgs N 0 ds"]) simp
    next
      case (Next c)
      have "length ds * 256 \<ge> unat (im_size im)" using ds(6) Next k by simp
      then have full: "concat ds = take (unat (im_size im)) (whole h)" using pre0 len by (simp add: min_absorb1)
      have "0 < k" using n(2) unfolding k by (simp add: div_greater_zero_iff)
      then obtain k' where k': "k = Suc k'" by (cases k) simp_all
      have rw: "rw = Next ()" using Next by simp
      have acc: "\<exists>resp. accepted E 2 resp" by (rule write_pages_accepted [OF w [unfolded k' rw]])
      have y: "after_stream E p im t0 (ms E (tick v) - ms E (tick u)) (v\<lparr>tick := tick v + 1\<rparr>) = (t, r)"
        using tr unfolding Next then_phase_simps by (rule sym)
      have nv: "session_nonce (v\<lparr>tick := tick v + 1\<rparr>) = N" using v(2) by simp
      from after_stream_says [OF y, unfolded nv] obtain ws j where
        ws: "says (v\<lparr>tick := tick v + 1\<rparr>) t ws" "prefix ws ([staged_msg N im, commit_msg N im] @ replicate j comm_check)"
          "2 \<le> length ws \<longrightarrow> (\<exists>resp. accepted E 6 resp)"
          "\<forall>m. r = Next m \<longrightarrow> 2 \<le> j \<and> ws = [staged_msg N im, commit_msg N im] @ replicate j comm_check" by blast
      have "says s t (replicate e enter_msg @ page_msgs N 0 ds @ ws)"
        using says_trans [OF v(1) says_trans [OF quiet_steps(5) ws(1)]] by simp
      moreover have "isp_session E im (take (unat (im_size im)) (whole h)) (\<exists>m. r = Next m) (replicate e enter_msg @ page_msgs N 0 ds @ ws)"
        unfolding isp_session_def
        by (rule exI [of _ e], rule exI [of _ N], rule exI [of _ ds], rule exI [of _ ws], rule exI [of _ j])
          (use e(1) e(4) [OF x] full acc ws ds(3) in \<open>auto simp: N_def\<close>)
      ultimately show ?thesis by blast
    qed (use ds(5) in simp)
  qed
qed

section \<open>The image file\<close>

definition footer_of :: "byte list \<Rightarrow> byte list" where "footer_of bs = drop (length bs - 32) bs"

definition image_of :: "byte list \<Rightarrow> image" where
  "image_of bs = \<lparr>im_size = get32 (footer_of bs ! 28) (footer_of bs ! 29) (footer_of bs ! 30) (footer_of bs ! 31),
     im_crc = get32 (footer_of bs ! 24) (footer_of bs ! 25) (footer_of bs ! 26) (footer_of bs ! 27)\<rparr>"

text \<open>A complete image: a body, then 32 bytes of footer with the magic and the length of the body.\<close>

definition good_image :: "byte list \<Rightarrow> bool" where
  "good_image bs \<longleftrightarrow> 32 < length bs \<and> take 7 (footer_of bs) = image_magic \<and> unat (im_size (image_of bs)) = length bs - 32"

lemma read_footer_says:
  assumes "read_footer E s = (t, r)" and card: "seekable_card (lib E) (the_card s) file_of rest whole"
    and small: "\<And>bs. file_of firmware_path = Some bs \<Longrightarrow> length bs < 2 ^ 32"
  shows "says s t [] \<and> r \<noteq> Hang \<and> (\<forall>h im n. r = Next (h, im, n) \<longrightarrow> (\<exists>bs. file_of firmware_path = Some bs \<and> whole h = bs
    \<and> 32 < length bs \<and> take 7 (footer_of bs) = image_magic \<and> im = image_of bs \<and> unat n = length bs))"
proof (cases "file_of firmware_path")
  case None
  then have "sd_open (lib E) firmware_path (the_card s) = None" by (rule still_card.missing [OF seekable_card.axioms(1) [OF card]])
  then show ?thesis using assms(1) by (auto simp: read_footer_def break_def)
next
  case (Some bs)
  obtain h where h: "sd_open (lib E) firmware_path (the_card s) = Some h" "rest h = bs" "sd_size (lib E) h (the_card s) = length bs"
    using still_card.opened [OF seekable_card.axioms(1) [OF card] Some] by blast
  define fs where "fs = (of_nat (sd_size (lib E) h (the_card s)) :: u32)"
  have fs: "unat fs = length bs" using small [OF Some] by (simp add: fs_def h(3) unat_of_nat)
  have wh: "whole h = bs" using seekable_card.opened_whole [OF card h(1)] h(2) by simp
  obtain h1 b where sk: "sd_seek (lib E) (unat fs - 32) h (the_card s) = (h1, b)" by fastforce
  obtain h2 ft where rd: "sd_read (lib E) 32 h1 (the_card s) = (h2, ft)" by fastforce
  have r1: "rest h1 = footer_of bs" using seekable_card.seeking [OF card sk] by (simp add: wh fs footer_of_def)
  have w2: "whole h2 = bs" using seekable_card.seeking [OF card sk] seekable_card.reading_whole [OF card rd] wh by simp
  have ft: "ft = footer_of bs" if "length ft = 32" "32 < length bs"
  proof -
    have "footer_of bs = ft @ rest h2" using still_card.reading [OF seekable_card.axioms(1) [OF card] rd] r1 by simp
    moreover have "length (footer_of bs) = 32" using that(2) by (simp add: footer_of_def)
    ultimately show ?thesis using that(1) by (metis add_cancel_left_right append_Nil2 length_0_conv length_append)
  qed
  have close: "says s (with_card (sd_close (lib E) k) s) []" for k
    using still_card.closing [OF seekable_card.axioms(1) [OF card]] by (intro says_quiet) (simp_all add: with_card_def the_card_def)
  define no :: "string \<Rightarrow> 'b \<Rightarrow> ('a, 'b, 'c) cp \<times> ('b \<times> image \<times> u32) phase"
    where "no = (\<lambda>m h. break m (with_card (sd_close (lib E) h) s))"
  have stop: "says s t [] \<and> (\<exists>m. r = Break m)" if "(t, r) = no m k" for m k using that close by (simp add: no_def break_def)
  have eq: "(t, r) = (if unat fs \<le> 32 then no ''firmware too small'' h else if length ft \<noteq> 32 then no ''footer read failed'' h2
      else if take 7 ft \<noteq> image_magic then no ''bad footer magic'' h2
      else (s, Next (h2, \<lparr>im_size = get32 (ft ! 28) (ft ! 29) (ft ! 30) (ft ! 31), im_crc = get32 (ft ! 24) (ft ! 25) (ft ! 26) (ft ! 27)\<rparr>, fs)))"
    using assms(1) unfolding read_footer_def h(1) option.case Let_def fs_def [symmetric] firmware_footer_byte_count_def sk prod.case rd no_def
    by (rule sym)
  show ?thesis
  proof (cases "32 < length bs \<and> length ft = 32 \<and> take 7 ft = image_magic")
    case True
    then have "(t, r) = (s, Next (h2, image_of bs, fs))" using eq ft fs by (simp add: image_of_def)
    then show ?thesis using True Some ft fs w2 by auto
  next
    case False
    then have "\<exists>m k. (t, r) = no m k" using eq fs by (auto split: if_splits)
    then show ?thesis using stop by fastforce
  qed
qed

lemma programPanel_silent:
  assumes "read_footer E s = (u, r)" "r \<noteq> Hang" "\<not> (\<exists>h im n. r = Next (h, im, n) \<and> im_size im = n - 32)" "says s u []"
    and card: "seekable_card (lib E) (the_card s) file_of rest whole"
    and run: "programPanel E p s = (t, ok, m)"
  shows "says s t []" "\<not> ok"
proof -
  have cu: "the_card u = the_card s" using assms(4) by (simp add: says_def)
  have close: "says u (with_card (sd_close (lib E) k) u) []" for k
    using still_card.closing [OF seekable_card.axioms(1) [OF card]] cu by (intro says_quiet) (simp_all add: with_card_def the_card_def)
  have "(t = u \<or> (\<exists>k. t = with_card (sd_close (lib E) k) u)) \<and> \<not> ok"
    using assms(1-3) run by (cases r) (auto simp: programPanel_def firmware_footer_byte_count_def split: if_splits)
  then show "says s t []" "\<not> ok" using says_trans [OF assms(4) close] assms(4) by auto
qed

lemma programPanel_flash:
  assumes "read_footer E s = (u, Next (h, im, im_size im + 32))" "programPanel E p s = (t, ok, m)"
    "flash E p h im (ms E (tick u)) ((set_clock kIspClockBMhz u)\<lparr>tick := tick u + 1\<rparr>) = (h', v, r)"
  shows "t = set_clock (getSpiClockMhz (spi_st u)) (with_card (sd_close (lib E) h') v)" "ok \<longleftrightarrow> (\<exists>a. r = Next a)"
proof -
  have k: "tick (set_clock mhz x) = tick x" for mhz and x :: "('a, 'b, 'c) cp" by (simp add: set_clock_def)
  show "t = set_clock (getSpiClockMhz (spi_st u)) (with_card (sd_close (lib E) h') v)" "ok \<longleftrightarrow> (\<exists>a. r = Next a)"
    using assms by (auto simp: programPanel_def firmware_footer_byte_count_def k Let_def verdict_def split: phase.splits)
qed

lemma session_of_run:
  assumes card: "seekable_card (lib E) (the_card s) file_of rest whole"
    and small: "\<And>bs. file_of firmware_path = Some bs \<Longrightarrow> length bs + 223 < 2 ^ 32"
    and run: "programPanel E p s = (t, ok, m)"
  shows "\<exists>ws. says s t ws \<and> (ws = [] \<and> \<not> ok \<or> (\<exists>bs. file_of firmware_path = Some bs \<and> good_image bs
    \<and> isp_session E (image_of bs) (take (length bs - 32) bs) ok ws))"
proof -
  obtain u r where f: "read_footer E s = (u, r)" by fastforce
  have small': "\<And>bs. file_of firmware_path = Some bs \<Longrightarrow> length bs < 2 ^ 32" using small by fastforce
  note rf = read_footer_says [OF f card small']
  have q: "says s u []" "r \<noteq> Hang" using rf by simp_all
  show ?thesis
  proof (cases "\<exists>h im n. r = Next (h, im, n) \<and> im_size im = n - 32")
    case False
    then show ?thesis using programPanel_silent [OF f q(2) False q(1) card run] by blast
  next
    case True
    then obtain h im n where r: "r = Next (h, im, n)" "im_size im = n - 32" by blast
    then obtain bs where bs: "file_of firmware_path = Some bs" "whole h = bs" "32 < length bs" "take 7 (footer_of bs) = image_magic"
      "im = image_of bs" "unat n = length bs" using rf by blast
    have size: "unat (im_size im) = length bs - 32" using bs(3,6) r(2) by (simp add: unat_sub word_le_nat_alt)
    define v where "v = (set_clock kIspClockBMhz u)\<lparr>tick := tick u + 1\<rparr>"
    have v: "says s v []" unfolding v_def using says_trans [OF says_trans [OF q(1) quiet_steps(3)] quiet_steps(5)] by simp
    obtain h' w x where fl: "flash E p h im (ms E (tick u)) v = (h', w, x)" by (metis prod_cases3)
    have card': "seekable_card (lib E) (the_card v) file_of rest whole" using card v by (simp add: says_def)
    obtain ws where ws: "says v w ws" "isp_session E im (take (length bs - 32) bs) (\<exists>a. x = Next a) ws"
      using flash_says [OF fl card'] size small [OF bs(1)] bs(2,3) by auto
    have f': "read_footer E s = (u, Next (h, im, im_size im + 32))" using f r by simp
    note pp = programPanel_flash [OF f' run fl [unfolded v_def]]
    have "says w (with_card (sd_close (lib E) h') w) []"
      using still_card.closing [OF seekable_card.axioms(1) [OF card]] v ws(1) by (intro says_quiet) (simp_all add: with_card_def the_card_def says_def)
    then have "says s t ws" unfolding pp(1)
      using says_trans [OF says_trans [OF says_trans [OF v ws(1)]] quiet_steps(3)] by fastforce
    then show ?thesis using ws(2) bs size pp(2) by (auto simp: good_image_def)
  qed
qed

text \<open>C3: what reprogramming panel \<open>p\<close> from an unchanging card can put on the wire. Either the operation
  refuses without sending anything, or the card holds a complete image and the messages are a session in
  order: session starts, the pages of exactly that image under the nonce the panel answered with, the
  staged check only after the whole image, the commit only after the panel accepted the staged image,
  then the liveness checks; and success is reported only after all of it. The card is unchanged.\<close>

theorem program_panel_session:
  assumes card: "seekable_card (lib E) (the_card s) file_of rest whole"
    and small: "\<And>bs. file_of firmware_path = Some bs \<Longrightarrow> length bs + 223 < 2 ^ 32"
    and run: "programPanel E p s = (t, ok, m)"
  shows "\<exists>ws. says s t ws \<and> (ws = [] \<and> \<not> ok \<or> (\<exists>bs. file_of firmware_path = Some bs \<and> good_image bs
    \<and> isp_session E (image_of bs) (take (length bs - 32) bs) ok ws))"
  by (rule session_of_run [OF card small run])

end
