(* ===== verification/IspLive.thy ===== *)
theory IspLive
  imports IspProps
begin

text \<open>
  A panel that answers is reprogrammed: when every command of a session is answered by a valid
  reply with status 0 and the reads from the card are complete, \<open>programPanel\<close> succeeds.
\<close>

section \<open>Steps that succeed\<close>

text \<open>The line reads a valid reply of \<open>n\<close> bytes with status 0 at reading \<open>i\<close>.\<close>

definition answer :: "('c, 'h, 'w) env \<Rightarrow> nat \<Rightarrow> nat \<Rightarrow> bool" where
  "answer E n i \<longleftrightarrow> length (miso E i) = n \<and> 2 \<le> n \<and> crc_valid (miso E i) \<and> miso E i ! 0 = 0"

text \<open>A step that leaves the card, the session and the number of readings as a success does.\<close>

definition after :: "nat \<Rightarrow> ('c, 'h, 'w) cp \<Rightarrow> ('c, 'h, 'w) cp \<Rightarrow> bool" where
  "after k s t \<longleftrightarrow> the_card t = the_card s \<and> tick t = tick s + k"

lemma panel_xfer_run:
  assumes "p < panel_count_per_frame (board E)"
  shows "\<exists>t. panel_xfer E p c s = (t, True) \<and> after 0 s t"
proof -
  obtain sp ok where x: "transferSinglePanel (board E) p c (spi_st s) = (sp, ok)" by fastforce
  then have "panel_xfer E p c s = (s\<lparr>spi_st := sp\<rparr>, ok)" by (simp add: panel_xfer_def)
  moreover from panel_xfer_says(3) [OF this] assms have ok by simp
  ultimately show ?thesis by (simp add: after_def the_card_def)
qed

lemma after_trans: "after j s t \<Longrightarrow> after k t u \<Longrightarrow> after (j + k) s u"
  by (simp add: after_def)

lemma after_quiet [simp]:
  "after 0 s s" "after 0 s (set_clock mhz s)" "after 0 s (wait_us n s)" "after 0 s (wait_ms n s)" "after 0 s (kick E s)"
  "after (Suc 0) s (s\<lparr>tick := Suc (tick s)\<rparr>)" "after 2 s (s\<lparr>tick := Suc (Suc (tick s))\<rparr>)"
  "after 0 s (s\<lparr>session_nonce := x\<rparr>)"
  by (simp_all add: after_def set_clock_def wait_us_def wait_ms_def kick_def the_card_def)

lemma sendCmd_run:
  assumes "p < panel_count_per_frame (board E)"
  shows "\<exists>t. sendCmd E p msg gap s = (t, True) \<and> after 0 s t"
proof -
  define b where "b = set_clock kIspClockAMhz (wait_us gap s)"
  have b: "after 0 s b" by (simp add: b_def after_def set_clock_def wait_us_def the_card_def)
  obtain t where "panel_xfer E p msg b = (t, True)" "after 0 b t" using panel_xfer_run [OF assms] by blast
  then show ?thesis using after_trans [OF b] by (simp add: sendCmd_def b_def)
qed

lemma readResp_run:
  assumes "p < panel_count_per_frame (board E)" "n \<le> 20" "answer E n (tick s)"
  shows "\<exists>t. readResp E p n w r s = (t, miso E (tick s), Some 0) \<and> after 1 s t"
proof -
  define b where "b = set_clock kIspClockBMhz (if w \<noteq> 0 then wait_us w s else s)"
  have b: "tick b = tick s" "the_card b = the_card s" by (simp_all add: b_def set_clock_def wait_us_def the_card_def)
  obtain t where x: "panel_xfer E p (replicate (n + 1) 0) b = (t, True)" "after 0 b t" using panel_xfer_run [OF assms(1)] by blast
  have t: "tick t = tick s" "the_card t = the_card s" using x(2) b by (simp_all add: after_def)
  have c: "captured E (n + 1) (tick s) = miso E (tick s) @ [0]" using assms(3) by (simp add: captured_def answer_def)
  have a: "aligned 0 n (captured E (n + 1) (tick s)) = miso E (tick s)"
    unfolding c using assms(3) by (intro nth_equalityI) (simp_all add: aligned_def shifted_def nth_append answer_def)
  have "readResp E p n w r s = (t\<lparr>tick := tick t + 1\<rparr>, miso E (tick s), Some 0)"
    using assms(2,3) unfolding readResp_def Let_def b_def [symmetric] x prod.case t
    by (simp add: a [simplified] answer_def)
  then show ?thesis using t by (simp add: after_def the_card_def)
qed

lemma pollResp_run:
  assumes "p < panel_count_per_frame (board E)" "n \<le> 20" "answer E n (tick s + 1)" "0 < wait_fuel E"
  shows "\<exists>t. pollResp E p n pm to r s = Some (t, miso E (tick s + 1), Some 0) \<and> after 2 s t"
proof -
  obtain f where f: "wait_fuel E = Suc f" using assms(4) by (cases "wait_fuel E") simp_all
  define k where "k = kick E (s\<lparr>tick := tick s + 1\<rparr>)"
  have k: "tick k = tick s + 1" "the_card k = the_card s" by (simp_all add: k_def kick_def the_card_def)
  obtain t where t: "readResp E p n 0 r k = (t, miso E (tick s + 1), Some 0)" "after 1 k t"
    using readResp_run [OF assms(1,2)] assms(3) k(1) by metis
  have "pollResp E p n pm to r s = Some (t, miso E (tick s + 1), Some 0)"
    unfolding pollResp_def f poll_loop.simps k_def [symmetric] t by simp
  then show ?thesis using t(2) k by (auto simp: after_def)
qed

section \<open>Phases that succeed\<close>

definition goes :: "nat \<Rightarrow> ('c, 'h, 'w) cp \<Rightarrow> ('c, 'h, 'w) cp \<times> 'a phase \<Rightarrow> bool" where
  "goes k s r \<longleftrightarrow> (\<exists>a. snd r = Next a) \<and> after k s (fst r)"

lemma goes_then:
  assumes "goes j s r" "\<And>t a. r = (t, Next a) \<Longrightarrow> after j s t \<Longrightarrow> goes k t (g a t)"
  shows "goes (j + k) s (then_phase r g)"
  using assms(1) assms(2) [of "fst r"] by (cases r) (auto simp: goes_def intro: after_trans)

lemma goes_timed:
  assumes "goes k (s\<lparr>tick := tick s + 1\<rparr>) (f (s\<lparr>tick := tick s + 1\<rparr>))"
  shows "goes (k + 2) s (timed E f s)"
proof -
  have "goes (k + 1) (s\<lparr>tick := tick s + 1\<rparr>) (timed E f s)"
    unfolding timed_def Let_def by (rule goes_then [OF assms]) (simp add: goes_def)
  then show ?thesis by (auto simp: goes_def after_def the_card_def)
qed

lemma verify_staged_goes:
  assumes "p < panel_count_per_frame (board E)" "answer E 6 (tick s + 1)" "0 < wait_fuel E"
  shows "goes 2 s (verify_staged E p im s)"
proof -
  obtain u where u: "sendCmd E p (staged_msg (session_nonce s) im) kCmdGapUs s = (u, True)" "after 0 s u"
    using sendCmd_run [OF assms(1)] by blast
  then have "answer E 6 (tick u + 1)" using assms(2) by (simp add: after_def)
  then obtain t where t: "pollResp E p 6 kVerifyPollMs kVerifyTimeoutMs (replicate 20 0) u = Some (t, miso E (tick u + 1), Some 0)" "after 2 u t"
    using pollResp_run [where n = 6 and s = u and pm = kVerifyPollMs and to = kVerifyTimeoutMs and r = "replicate 20 0", OF assms(1) _ _ assms(3)]
    by auto
  show ?thesis using after_trans [OF u(2) t(2), unfolded add_0] by (simp add: verify_staged_def u t goes_def)
qed

lemma commit_goes:
  assumes "p < panel_count_per_frame (board E)" "answer E 2 (tick s + 1)" "0 < wait_fuel E"
  shows "goes 2 s (commit E p im s)"
proof -
  obtain u where u: "sendCmd E p (commit_msg (session_nonce s) im) kCmdGapUs s = (u, True)" "after 0 s u"
    using sendCmd_run [OF assms(1)] by blast
  then have "answer E 2 (tick u + 1)" using assms(2) by (simp add: after_def)
  then obtain t where t: "pollResp E p 2 kCommitPollMs kCommitTimeoutMs (replicate 20 0) u = Some (t, miso E (tick u + 1), Some 0)" "after 2 u t"
    using pollResp_run [where n = 2 and s = u and pm = kCommitPollMs and to = kCommitTimeoutMs and r = "replicate 20 0", OF assms(1) _ _ assms(3)]
    by auto
  show ?thesis using after_trans [OF u(2) t(2), unfolded add_0] by (simp add: commit_def u t goes_def)
qed

lemma captured_expected:
  assumes "take 3 (miso E i) = comm_expected"
  shows "aligned 0 3 (captured E 202 i) = comm_expected"
proof -
  have l: "length (take 3 (miso E i)) = 3" unfolding assms by (simp add: comm_expected_def Let_def)
  have "aligned 0 3 (captured E 202 i) = take 3 (miso E i)"
    using l by (intro nth_equalityI) (auto simp: aligned_def shifted_def captured_def nth_append min_def split: if_splits)
  then show ?thesis using assms by simp
qed

lemma alive_hit:
  assumes "p < panel_count_per_frame (board E)" "take 3 (miso E (tick s)) = comm_expected"
  shows "\<exists>t. alive_loop E (Suc f) p t0 True s = Some (t, True) \<and> after 1 s t"
proof -
  define b where "b = set_clock kIspClockBMhz s"
  have b: "tick b = tick s" "the_card b = the_card s" by (simp_all add: b_def set_clock_def the_card_def)
  obtain t where t: "panel_xfer E p comm_check b = (t, True)" "after 0 b t" using panel_xfer_run [OF assms(1)] by blast
  have "alive_loop E (Suc f) p t0 True s = Some (t\<lparr>tick := tick t + 1\<rparr>, True)"
    using captured_expected [OF assms(2)] t(2) b(1)
    unfolding alive_loop.simps b_def [symmetric] t prod.case Let_def by (simp add: after_def)
  then show ?thesis using t(2) b by (auto simp: after_def the_card_def)
qed

lemma wait_alive_goes:
  assumes "p < panel_count_per_frame (board E)" "take 3 (miso E (tick s + 3)) = comm_expected"
    "ms E (tick s + 2) - ms E (tick s) < kAliveTimeoutMs" "2 \<le> wait_fuel E"
  shows "goes 4 s (wait_alive E p s)"
proof -
  obtain f where f: "wait_fuel E = Suc (Suc f)" using assms(4) by (metis Suc_1 add_Suc le_Suc_ex plus_1_eq_Suc)
  define b where "b = set_clock kIspClockBMhz (s\<lparr>tick := tick s + 1\<rparr>)"
  have b: "after 1 s b" by (simp add: b_def after_def set_clock_def the_card_def)
  obtain u where u: "panel_xfer E p comm_check b = (u, True)" "after 0 b u" using panel_xfer_run [OF assms(1)] by blast
  have tu: "after 1 s u" using after_trans [OF b u(2)] by simp
  define v where "v = wait_ms kAlivePollMs (kick E (u\<lparr>tick := tick u + 2\<rparr>))"
  have v: "after 3 s v" using tu by (simp add: v_def after_def wait_ms_def kick_def the_card_def)
  obtain t where t: "alive_loop E (Suc f) p (ms E (tick s)) True v = Some (t, True)" "after 1 v t"
    using alive_hit [OF assms(1), of v f] assms(2) v by (auto simp: after_def)
  have nl: "\<not> kAliveTimeoutMs \<le> ms E (tick u + 1) - ms E (tick s)" using assms(3) tu by (simp add: after_def)
  have "pollPanelAlive E p s = alive_loop E (Suc f) p (ms E (tick s)) True v"
    unfolding pollPanelAlive_def f alive_loop.simps(2) [of E "Suc f"] b_def [symmetric] u prod.case Let_def
    using nl by (simp del: alive_loop.simps add: v_def)
  then show ?thesis using t after_trans [OF v t(2)] by (simp add: wait_alive_def goes_def del: alive_loop.simps)
qed

lemma after_stream_goes:
  assumes "p < panel_count_per_frame (board E)" "answer E 6 (tick s + 2)" "answer E 2 (tick s + 6)"
    "take 3 (miso E (tick s + 12)) = comm_expected" "ms E (tick s + 11) - ms E (tick s + 9) < kAliveTimeoutMs" "2 \<le> wait_fuel E"
  shows "goes 16 s (after_stream E p im t0 st s)"
proof -
  have v: "goes 4 s (timed E (verify_staged E p im) s)"
    using goes_timed [of 2 s "verify_staged E p im" E] verify_staged_goes [of p E "s\<lparr>tick := tick s + 1\<rparr>" im] assms by simp
  have c: "goes 4 u (timed E (commit E p im) u)" if "after 4 s u" for u
    using goes_timed [of 2 u "commit E p im" E] commit_goes [of p E "u\<lparr>tick := tick u + 1\<rparr>" im] assms that by (simp add: after_def add.commute)
  have w: "goes 6 x (timed E (wait_alive E p) x)" if "after 4 s u" "after 4 u x" for u x
    using goes_timed [of 4 x "wait_alive E p" E] wait_alive_goes [of p E "x\<lparr>tick := tick x + 1\<rparr>"] assms that
    by (simp add: after_def add.commute)
  have "goes (4 + (4 + (6 + 2))) s (after_stream E p im t0 st s)"
    unfolding after_stream_def by (intro goes_then v c w) (simp_all add: goes_def)
  then show ?thesis by simp
qed

lemma enter_program_goes:
  assumes "p < panel_count_per_frame (board E)" "answer E 19 (tick s)"
  shows "goes 1 s (enter_program E p s)"
proof -
  obtain u where u: "sendCmd E p enter_msg kCmdGapUs s = (u, True)" "after 0 s u" using sendCmd_run [OF assms(1)] by blast
  then have "answer E 19 (tick u)" using assms(2) by (simp add: after_def)
  then obtain t where t: "readResp E p 19 kPageReplyWaitUs (replicate 20 0) u = (t, miso E (tick u), Some 0)" "after 1 u t"
    using readResp_run [where n = 19 and s = u and w = kPageReplyWaitUs and r = "replicate 20 0", OF assms(1)] by auto
  have a: "enter_attempts E p 2 s = (t, Next (miso E (tick u), Some 0))"
    unfolding numeral_2_eq_2 by (simp add: u t)
  have "after 1 s (t\<lparr>session_nonce := x\<rparr>)" for x using u(2) t(2) by (simp add: after_def the_card_def)
  then show ?thesis by (simp add: enter_program_def a begin_session_def goes_def)
qed

section \<open>The card gives what is asked for\<close>

definition reads_full :: "('c, 'h) sdlib \<Rightarrow> 'c \<Rightarrow> ('h \<Rightarrow> byte list) \<Rightarrow> bool" where
  "reads_full L c rest \<longleftrightarrow> (\<forall>n h h' bs. sd_read L n h c = (h', bs) \<longrightarrow> length bs = min n (length (rest h)))"

lemma write_pages_goes:
  assumes p: "p < panel_count_per_frame (board E)" and card: "seekable_card (lib E) (the_card s) file_of rest whole"
    and full: "reads_full (lib E) (the_card s) rest"
  shows "\<forall>j<k. answer E 2 (tick s + j) \<Longrightarrow> unat n \<le> unat i * 256 + length (rest h) \<Longrightarrow> (unat i + k) * 256 < unat n + 256
    \<Longrightarrow> unat n + 255 < 2 ^ 32 \<Longrightarrow> \<exists>t h'. write_pages E p n k i h s = (t, h', Next ()) \<and> after k s t"
  using card full
proof (induction k arbitrary: i h s)
  case (Suc k)
  obtain h1 data where rd: "sd_read (lib E) (page_want n i) h (the_card s) = (h1, data)" by fastforce
  have small: "unat i * 256 < unat n" using Suc.prems(3) by simp
  have step: "unat (i + 1) = unat i + 1" using small Suc.prems(4) by (simp add: unat_word_ariths)
  have want: "page_want n i = min 256 (unat n - unat i * 256)" using page_want_nat [of i n] small by simp
  have "length data = min (page_want n i) (length (rest h))" using Suc.prems(6) rd unfolding reads_full_def by blast
  moreover have "page_want n i \<le> length (rest h)" unfolding want using Suc.prems(2) by linarith
  ultimately have len: "length data = page_want n i" by simp
  have r: "rest h = data @ rest h1" using still_card.reading [OF seekable_card.axioms(1) [OF Suc.prems(5)] rd] by simp
  define kd where "kd = kick E s"
  have kd: "the_card kd = the_card s" "tick kd = tick s" by (simp_all add: kd_def kick_def the_card_def)
  obtain u where u: "sendCmd E p (page_msg (session_nonce kd) i data) kPageGapUs kd = (u, True)" "after 0 kd u"
    using sendCmd_run [OF p] by blast
  have tu: "tick u = tick s" "the_card u = the_card s" using u(2) kd by (simp_all add: after_def)
  have a0: "answer E 2 (tick s)" using Suc.prems(1) by (metis add_0_right zero_less_Suc)
  obtain v where v: "readResp E p 2 kPageReplyWaitUs (replicate 20 0) u = (v, miso E (tick u), Some 0)" "after 1 u v"
    using readResp_run [where n = 2 and s = u and w = kPageReplyWaitUs and r = "replicate 20 0", OF p] a0 tu by auto
  have tv: "tick v = tick s + 1" "the_card v = the_card s" using v(2) tu by (simp_all add: after_def)
  have eq: "write_pages E p n (Suc k) i h s = write_pages E p n k (i + 1) h1 v"
    unfolding write_pages.simps(2) Let_def kd_def [symmetric] kd rd prod.case using len by (simp add: u v)
  have "\<exists>t h'. write_pages E p n k (i + 1) h1 v = (t, h', Next ()) \<and> after k v t"
  proof (rule Suc.IH)
    show "\<forall>j<k. answer E 2 (tick v + j)" using Suc.prems(1) tv(1) by auto
    show "unat n \<le> unat (i + 1) * 256 + length (rest h1)" using Suc.prems(2) len r step small want by (auto simp: min_def split: if_splits)
    show "(unat (i + 1) + k) * 256 < unat n + 256" using Suc.prems(3) step by simp
  qed (use Suc.prems tv in simp_all)
  then show ?case unfolding eq using tv by (auto simp: after_def)
qed (simp add: after_def)

text \<open>The readings of the line, counted from the \<open>k\<close>-page session's start, are the replies that its commands wait for.\<close>

definition panel_answers :: "('c, 'h, 'w) env \<Rightarrow> nat \<Rightarrow> nat \<Rightarrow> bool" where
  "panel_answers E k i \<longleftrightarrow> answer E 19 (i + 1) \<and> (\<forall>j<k. answer E 2 (i + 3 + j)) \<and> answer E 6 (i + k + 6) \<and> answer E 2 (i + k + 10)
    \<and> take 3 (miso E (i + k + 16)) = comm_expected \<and> ms E (i + k + 15) - ms E (i + k + 13) < kAliveTimeoutMs"

lemma flash_goes:
  assumes p: "p < panel_count_per_frame (board E)" and card: "seekable_card (lib E) (the_card s) file_of rest whole"
    and full: "reads_full (lib E) (the_card s) rest" and fuel: "2 \<le> wait_fuel E"
    and n: "unat (im_size im) \<le> length (whole h)" "unat (im_size im) + 255 < 2 ^ 32"
    and a: "panel_answers E (unat (page_count (im_size im))) i" and i: "tick s = i + 1"
  shows "\<exists>h' t m. flash E p h im t0 s = (h', t, Next m)"
proof -
  define k where "k = unat (page_count (im_size im))"
  have k: "k = (unat (im_size im) + 255) div 256" unfolding k_def by (rule page_count_nat [OF n(2)])
  have "k * 256 \<le> unat (im_size im) + 255" unfolding k by (rule div_times_less_eq_dividend)
  then have k256: "k * 256 < unat (im_size im) + 256" by simp
  have e: "goes 1 s (enter_program E p s)" using enter_program_goes [OF p, of s] a i by (simp add: panel_answers_def)
  then obtain u where u: "enter_program E p s = (u, Next ())" "after 1 s u" by (cases "enter_program E p s") (auto simp: goes_def)
  define w where "w = u\<lparr>tick := tick u + 1\<rparr>"
  have w: "the_card w = the_card s" "tick w = i + 3" using u(2) i by (simp_all add: w_def after_def the_card_def)
  obtain h1 b where sk: "sd_seek (lib E) 0 h (the_card u) = (h1, b)" by fastforce
  have "rest h1 = whole h" using seekable_card.seeking [OF card] sk u(2) by (simp add: after_def)
  then obtain v h2 where v: "write_pages E p (im_size im) k 0 h1 w = (v, h2, Next ())" "after k w v"
    using write_pages_goes [OF p, of w file_of rest whole k "im_size im" 0 h1] card full w n a k256
    by (auto simp: panel_answers_def k_def [symmetric])
  define y where "y = v\<lparr>tick := tick v + 1\<rparr>"
  have y: "tick y = i + k + 4" using v(2) w(2) by (simp add: y_def after_def)
  have "goes 16 y (after_stream E p im t0 st y)" for st
    using a fuel unfolding panel_answers_def k_def [symmetric]
    by (intro after_stream_goes p) (simp_all add: y add.commute add.left_commute)
  then obtain t m where t: "after_stream E p im t0 (ms E (tick v) - ms E (tick u)) y = (t, Next m)"
    unfolding goes_def by (metis prod.collapse)
  have "flash E p h im t0 s = (h2, t, Next m)"
    unfolding flash_def u prod.case phase.case Let_def sk k_def [symmetric] w_def [symmetric] v then_phase_simps y_def [symmetric] t ..
  then show ?thesis by blast
qed

section \<open>A complete session\<close>

lemma read_footer_goes:
  assumes card: "seekable_card (lib E) (the_card s) file_of rest whole" and full: "reads_full (lib E) (the_card s) rest"
    and f: "file_of firmware_path = Some bs" and good: "good_image bs" and small: "length bs < 2 ^ 32"
  shows "\<exists>h. read_footer E s = (s, Next (h, image_of bs, of_nat (length bs))) \<and> whole h = bs"
proof -
  obtain h where h: "sd_open (lib E) firmware_path (the_card s) = Some h" "rest h = bs" "sd_size (lib E) h (the_card s) = length bs"
    using still_card.opened [OF seekable_card.axioms(1) [OF card] f] by blast
  have wh: "whole h = bs" using seekable_card.opened_whole [OF card h(1)] h(2) by simp
  have n: "unat (of_nat (length bs) :: u32) = length bs" "32 < length bs" using small good by (simp_all add: unat_of_nat good_image_def)
  obtain h1 b where sk: "sd_seek (lib E) (length bs - 32) h (the_card s) = (h1, b)" by fastforce
  obtain h2 ft where rd: "sd_read (lib E) 32 h1 (the_card s) = (h2, ft)" by fastforce
  have r1: "rest h1 = footer_of bs" "whole h1 = bs" using seekable_card.seeking [OF card sk] by (simp_all add: wh footer_of_def)
  have l: "length (footer_of bs) = 32" using n(2) by (simp add: footer_of_def)
  have "length ft = 32" using full rd r1 l unfolding reads_full_def by (metis min.idem)
  moreover have "footer_of bs = ft @ rest h2" using still_card.reading [OF seekable_card.axioms(1) [OF card] rd] r1 by simp
  ultimately have ft: "ft = footer_of bs" using l by (metis add_cancel_left_right append_Nil2 length_0_conv length_append)
  have w2: "whole h2 = bs" using seekable_card.reading_whole [OF card rd] r1 by simp
  have "read_footer E s = (s, Next (h2, image_of bs, of_nat (length bs)))"
    using good n(2) l unfolding read_footer_def h option.case Let_def n(1) firmware_footer_byte_count_def sk prod.case rd ft
    by (simp add: good_image_def image_of_def)
  then show ?thesis using w2 by blast
qed


section \<open>One session\<close>

definition reply_of :: "nat \<Rightarrow> byte list" where
  "reply_of n = (let b = 0 # replicate (n - 2) 7 in b @ [crc8_autosar b])"

text \<open>An image of one byte, and a panel that answers the session of its one page.\<close>

definition small_image :: "byte list" where
  "small_image = [0xAB] @ str ''G6PANFW'' @ replicate 17 0 @ [1, 2, 3, 4] @ [1, 0, 0, 0]"

definition isp_bench :: "(byte list, nat, u32 \<times> u32) env" where
  "isp_bench = (bench ARENA_HW_2_10)\<lparr>wait_fuel := 2, miso := (\<lambda>t. if t = 1 then reply_of 19 else if t = 3 \<or> t = 11 then reply_of 2
     else if t = 7 then reply_of 6 else comm_expected)\<rparr>"

lemma isp_bench_sel:
  "board isp_bench = ARENA_HW_2_10" "wait_fuel isp_bench = 2" "lib isp_bench = flat_card" "ms isp_bench = of_nat"
  "miso isp_bench = (\<lambda>t. if t = 1 then reply_of 19 else if t = 3 \<or> t = 11 then reply_of 2 else if t = 7 then reply_of 6 else comm_expected)"
  by (simp_all add: isp_bench_def bench_def)

lemma reply_of_ok: "2 \<le> n \<Longrightarrow> length (reply_of n) = n" "crc_valid (reply_of n)" "reply_of n ! 0 = 0"
  by (simp_all add: reply_of_def crc_valid_def Let_def)

lemma small_image_good: "good_image small_image"
  by code_simp

lemma small_image_length: "length small_image = 33" "take (Suc 0) small_image = [0xAB]"
  by (simp_all add: small_image_def str_def)

lemma isp_bench_answers: "panel_answers isp_bench 1 0"
  by (simp add: panel_answers_def answer_def isp_bench_sel reply_of_ok kAliveTimeoutMs_def comm_expected_def Let_def)

lemma flat_ok: "seekable_card flat_card c (\<lambda>_. Some c) (\<lambda>h. drop h c) (\<lambda>_. c)" "reads_full flat_card c (\<lambda>h. drop h c)"
  by unfold_locales (simp add: reads_full_def flat_card_def min.commute)

lemma machine0_card: "the_card (machine0 b c) = c" "tick (machine0 b c) = 0"
  by (simp_all add: machine0_def power_on_def the_card_def sd0_def)


lemma program_panel_session_witness:
  "\<exists>ws. says (machine0 ARENA_HW_2_10 small_image) (fst (programPanel isp_bench 3 (machine0 ARENA_HW_2_10 small_image))) ws
    \<and> (ws = [] \<and> \<not> fst (snd (programPanel isp_bench 3 (machine0 ARENA_HW_2_10 small_image)))
      \<or> isp_session isp_bench (image_of small_image) [0xAB] (fst (snd (programPanel isp_bench 3 (machine0 ARENA_HW_2_10 small_image)))) ws)"
  using program_panel_session [of isp_bench "machine0 ARENA_HW_2_10 small_image" "\<lambda>_. Some small_image" "\<lambda>h. drop h small_image"
      "\<lambda>_. small_image" 3 "fst (programPanel isp_bench 3 (machine0 ARENA_HW_2_10 small_image))"
      "fst (snd (programPanel isp_bench 3 (machine0 ARENA_HW_2_10 small_image)))" "snd (snd (programPanel isp_bench 3 (machine0 ARENA_HW_2_10 small_image)))"]
      flat_ok
  by (simp add: isp_bench_sel machine0_card small_image_length small_image_good)

end
