(* ===== verification/ReplyProps.thy ===== *)
theory ReplyProps
  imports Bench
begin

text \<open>
  Who is answered: every command with a true length byte makes exactly one reply, on the source it
  came from, that echoes its opcode.
\<close>

section \<open>The sources\<close>

definition srcs :: "('c, 'h, 'w) cp \<Rightarrow> source_id \<times> source \<times> source" where
  "srcs s = (current_source s, net s, ser s)"

text \<open>One reply to \<open>c\<close>, with some status and payload, and nothing else on either source.\<close>

definition once :: "byte \<Rightarrow> ('c, 'h, 'w) cp \<Rightarrow> ('c, 'h, 'w) cp \<Rightarrow> bool" where
  "once c s t \<longleftrightarrow> (\<exists>st pl. srcs t = srcs (reply c st pl s))"

named_theorems quiet \<open>operations that leave the sources alone\<close>

lemma srcs_upd [quiet]:
  "srcs (s\<lparr>cstate := x_cstate\<rparr>) = srcs s" "srcs (s\<lparr>blk := x_blk\<rparr>) = srcs s"
  "srcs (s\<lparr>refresh_rate_hz := x_refresh_rate_hz\<rparr>) = srcs s"
  "srcs (s\<lparr>refresh_rate_explicit := x_refresh_rate_explicit\<rparr>) = srcs s"
  "srcs (s\<lparr>panel_disp_mode := x_panel_disp_mode\<rparr>) = srcs s"
  "srcs (s\<lparr>frame_buf := x_frame_buf\<rparr>) = srcs s"
  "srcs (s\<lparr>frame_byte_count := x_frame_byte_count\<rparr>) = srcs s"
  "srcs (s\<lparr>pattern_id := x_pattern_id\<rparr>) = srcs s" "srcs (s\<lparr>pat_frames := x_pat_frames\<rparr>) = srcs s"
  "srcs (s\<lparr>cur_frame := x_cur_frame\<rparr>) = srcs s" "srcs (s\<lparr>frame_rate_hz := x_frame_rate_hz\<rparr>) = srcs s"
  "srcs (s\<lparr>gain := x_gain\<rparr>) = srcs s" "srcs (s\<lparr>frame_accum := x_frame_accum\<rparr>) = srcs s"
  "srcs (s\<lparr>trial_duty := x_trial_duty\<rparr>) = srcs s"
  "srcs (s\<lparr>last_advance_us := x_last_advance_us\<rparr>) = srcs s"
  "srcs (s\<lparr>last_sample_us := x_last_sample_us\<rparr>) = srcs s"
  "srcs (s\<lparr>trial_end_ms := x_trial_end_ms\<rparr>) = srcs s"
  "srcs (s\<lparr>tel_last_frame := x_tel_last_frame\<rparr>) = srcs s"
  "srcs (s\<lparr>tel_last_pattern := x_tel_last_pattern\<rparr>) = srcs s"
  "srcs (s\<lparr>frame_buf_is_frame := x_frame_buf_is_frame\<rparr>) = srcs s"
  "srcs (s\<lparr>sd_cache_ok := x_sd_cache_ok\<rparr>) = srcs s"
  "srcs (s\<lparr>sd_skip_same_index := x_sd_skip_same_index\<rparr>) = srcs s"
  "srcs (s\<lparr>last_cmd_rx_us := x_last_cmd_rx_us\<rparr>) = srcs s"
  "srcs (s\<lparr>pending_req_us := x_pending_req_us\<rparr>) = srcs s"
  "srcs (s\<lparr>pending_req_valid := x_pending_req_valid\<rparr>) = srcs s"
  "srcs (s\<lparr>frame_req_us := x_frame_req_us\<rparr>) = srcs s"
  "srcs (s\<lparr>frame_src_flags := x_frame_src_flags\<rparr>) = srcs s"
  "srcs (s\<lparr>buf_presented := x_buf_presented\<rparr>) = srcs s"
  "srcs (s\<lparr>superseded_pending := x_superseded_pending\<rparr>) = srcs s"
  "srcs (s\<lparr>open_reads := x_open_reads\<rparr>) = srcs s" "srcs (s\<lparr>dio_roles := x_dio_roles\<rparr>) = srcs s"
  "srcs (s\<lparr>error_until_ms := x_error_until_ms\<rparr>) = srcs s"
  "srcs (s\<lparr>psram_start := x_psram_start\<rparr>) = srcs s" "srcs (s\<lparr>psram_count := x_psram_count\<rparr>) = srcs s"
  "srcs (s\<lparr>psram_offset := x_psram_offset\<rparr>) = srcs s"
  "srcs (s\<lparr>late_boot_blank_pending := x_late_boot_blank_pending\<rparr>) = srcs s"
  "srcs (s\<lparr>ao := x_ao\<rparr>) = srcs s" "srcs (s\<lparr>xf := x_xf\<rparr>) = srcs s"
  "srcs (s\<lparr>spi_st := x_spi_st\<rparr>) = srcs s" "srcs (s\<lparr>sd_st := x_sd_st\<rparr>) = srcs s"
  "srcs (s\<lparr>tel_st := x_tel_st\<rparr>) = srcs s" "srcs (s\<lparr>wd_st := x_wd_st\<rparr>) = srcs s"
  "srcs (s\<lparr>crumb := x_crumb\<rparr>) = srcs s" "srcs (s\<lparr>hs := x_hs\<rparr>) = srcs s"
  "srcs (s\<lparr>net_pipe := x_net_pipe\<rparr>) = srcs s" "srcs (s\<lparr>ser_pipe := x_ser_pipe\<rparr>) = srcs s"
  "srcs (s\<lparr>dbg_on := x_dbg_on\<rparr>) = srcs s" "srcs (s\<lparr>session_nonce := x_session_nonce\<rparr>) = srcs s"
  "srcs (s\<lparr>halted := x_halted\<rparr>) = srcs s" "srcs (s\<lparr>isr := x_isr\<rparr>) = srcs s"
  "srcs (s\<lparr>pins := x_pins\<rparr>) = srcs s" "srcs (s\<lparr>tick := x_tick\<rparr>) = srcs s"
  by (simp_all add: srcs_def)

lemma reply_srcs: "srcs u = srcs s \<Longrightarrow> srcs (reply c st pl u) = srcs (reply c st pl s)"
  by (auto simp: srcs_def reply_def on_source_def split: source_id.split)

lemma once_reply: "srcs u = srcs s \<Longrightarrow> once c s (reply c st pl u)"
  unfolding once_def using reply_srcs by blast

lemma once_then: "once c s t \<Longrightarrow> srcs u = srcs t \<Longrightarrow> once c s u"
  by (simp add: once_def)

lemma once_before: "once c u t \<Longrightarrow> srcs u = srcs s \<Longrightarrow> once c s t"
  unfolding once_def using reply_srcs by metis

lemma once_if: "(b \<Longrightarrow> once c s x) \<Longrightarrow> (\<not> b \<Longrightarrow> once c s y) \<Longrightarrow> once c s (if b then x else y)"
  by simp

lemma once_let: "once c s (f x) \<Longrightarrow> once c s (Let x f)"
  by (simp add: Let_def)

lemma once_pair: "once c s (f (fst x) (snd x)) \<Longrightarrow> once c s (case x of (a, b) \<Rightarrow> f a b)"
  by (simp add: case_prod_beta)

lemma once_option: "once c s x \<Longrightarrow> (\<And>a. once c s (f a)) \<Longrightarrow> once c s (case v of None \<Rightarrow> x | Some a \<Rightarrow> f a)"
  by (simp split: option.split)

lemma once_sum: "(\<And>a. once c s (f a)) \<Longrightarrow> (\<And>b. once c s (g b)) \<Longrightarrow> once c s (case v of Inl a \<Rightarrow> f a | Inr b \<Rightarrow> g b)"
  by (simp split: sum.split)

lemmas once_intros = once_if once_let once_pair once_option once_sum once_reply

section \<open>Operations that answer nobody\<close>

lemma quiet_calls [quiet]:
  "srcs (hmark E op a s) = srcs s" "srcs (hclear E s) = srcs s" "srcs (tstate E k cd ar s) = srcs s"
  "srcs (disarm E s) = srcs s" "srcs (fst (arm E hz s)) = srcs s" "srcs (send_frame E s) = srcs s"
  "srcs (invalidateFrameBuf E s) = srcs s" "srcs (dropFrameCache s) = srcs s" "srcs (flushOpenReads E s) = srcs s"
  "srcs (fillFrameBufferAllOn E n s) = srcs s" "srcs (fillFrameBufferDark E s) = srcs s" "srcs (buildPsramFrame E ix s) = srcs s"
  "srcs (patchDispMode s) = srcs s" "srcs (patchTrialDuty s) = srcs s" "srcs (fst (writeDacMv E mv s)) = srcs s"
  "srcs (fst (applyAoLut E i s)) = srcs s" "srcs (applyDioRole p r s) = srcs s" "srcs (default_rate E s) = srcs s"
  "srcs (kick E s) = srcs s" "srcs (with_card f s) = srcs s"
  by (simp_all add: srcs_def hmark_def hclear_def tstate_def disarm_def arm_def send_frame_def invalidateFrameBuf_def dropFrameCache_def
    flushOpenReads_def fillFrameBufferAllOn_def fillFrameBufferDark_def buildPsramFrame_def patchDispMode_def patchTrialDuty_def
    writeDacMv_def applyAoLut_def applyDioRole_def default_rate_def kick_def with_card_def Let_def case_prod_beta)

lemma quiet_blank [quiet]: "srcs (blank_once E i s) = srcs s"
  by (simp add: blank_once_def quiet)

lemma quiet_blanks [quiet]: "srcs (fold (blank_once E) is s) = srcs s"
  by (induction "is" arbitrary: s) (simp_all add: quiet)

lemma quiet_transitions [quiet]:
  "srcs (enterAllOff E s) = srcs s" "srcs (enterAllOn E s) = srcs s" "srcs (enterStreamingFrame E n s) = srcs s"
  "srcs (showError E code s) = srcs s"
  by (simp_all add: enterAllOff_def enterAllOn_def enterStreamingFrame_def showError_def Let_def case_prod_beta quiet)

lemma quiet_slow [quiet]: "srcs (sd_slow_records E t e s) = srcs s"
  by (simp add: sd_slow_records_def Let_def case_prod_beta quiet)

lemma quiet_read [quiet]: "srcs (fst (timed_read E i s)) = srcs s"
  by (simp add: timed_read_def Let_def case_prod_beta quiet)

lemma quiet_load [quiet]: "srcs (fst (loadFrame E i s)) = srcs s"
  by (simp add: loadFrame_def frame_loaded_def apply_outputs_def begin_load_def Let_def case_prod_beta quiet)

lemma quiet_open [quiet]:
  "srcs (fst (open_step E i s)) = srcs s" "srcs (sd_layout_record E s) = srcs s" "srcs (set_playback i r g f s) = srcs s"
  "srcs (start_clocks E m n s) = srcs s"
  by (simp_all add: open_step_def sd_layout_record_def set_playback_def start_clocks_def Let_def case_prod_beta quiet)

lemma quiet_pattern [quiet]: "srcs (fst (enterPatternMode E m i r g f n s)) = srcs s"
  by (simp add: enterPatternMode_def Let_def case_prod_beta quiet)

section \<open>The display commands\<close>

lemma trial_once: "once TRIAL_PARAMS_CMD s (handleTrialParams E d s)"
  unfolding handleTrialParams_def by (intro once_intros) (simp_all add: quiet)

lemma respond70_once: "srcs u = srcs s \<Longrightarrow> once SET_FRAME_POSITION_CMD s (respond70 E st m u)"
  unfolding respond70_def by (intro once_reply) (simp add: quiet)

lemma position_once: "srcs u = srcs s \<Longrightarrow> once SET_FRAME_POSITION_CMD s (show_position E u)"
  unfolding show_position_def by (intro once_intros respond70_once) (simp_all add: quiet)

lemma set_position_once: "once SET_FRAME_POSITION_CMD s (handleSetFramePosition E d s)"
  unfolding handleSetFramePosition_def by (intro once_intros respond70_once position_once) (simp_all add: quiet)

lemma enter_psram_quiet [quiet]: "srcs (enter_psram E s) = srcs s"
  by (simp add: enter_psram_def Let_def quiet)

lemma psram_once:
  "once DISPLAY_PSRAM_INDEX_CMD s (handleDisplayPsramIndex E d s)" "once PSRAM_PLAY_CMD s (handlePsramPlay E d s)"
  unfolding handleDisplayPsramIndex_def handlePsramPlay_def by (intro once_intros; simp add: quiet)+

lemma stream_once: "once STREAM_FRAME_CMD s (handleStreamCommand E d n s)"
  unfolding handleStreamCommand_def by (intro once_intros) (simp_all add: quiet)

lemma rate_once:
  "once SET_REFRESH_RATE_CMD s (setRefreshRate E d s)" "once GET_REFRESH_RATE_CMD s (getRefreshRate s)"
  "once SET_PANEL_DISPLAY_MODE_CMD s (setPanelDisplayMode d s)" "once GET_PANEL_DISPLAY_MODE_CMD s (getPanelDisplayMode s)"
  "once GET_FRAME_POSITION_CMD s (getFramePosition s)" "once GET_FRAMES_SENT_CMD s (getFramesSent s)"
  "once RESET_FRAMES_SENT_CMD s (resetFrames s)" "once SET_SPI_CLOCK_CMD s (setSpiClock d s)" "once GET_SPI_CLOCK_CMD s (getSpiClock s)"
  "once SET_PATTERN_ID_CMD s (setPatternId E d s)"
  unfolding setRefreshRate_def getRefreshRate_def setPanelDisplayMode_def getPanelDisplayMode_def getFramePosition_def getFramesSent_def
    resetFrames_def setSpiClock_def getSpiClock_def setPatternId_def
  by (intro once_intros; simp add: quiet)+

lemma display_once: "display_case E c d s = Some t \<Longrightarrow> once c s t"
  unfolding display_case_def
  by (auto simp: quiet split: if_split_asm intro!: once_reply trial_once set_position_once psram_once rate_once)

section \<open>Outputs, reports and files\<close>

lemma output_once_lemmas:
  "once SET_DIGITAL_OUT_CMD s (setDigitalOut E d s)" "once GET_DIGITAL_OUT_CMD s (getDigitalOut E s)"
  "once SET_DIO_ROLE_CMD s (setDioRole d s)" "once GET_DIO_ROLE_CMD s (getDioRole E s)"
  "once SET_AO_VOLTAGE_CMD s (setAoVoltage E d s)" "once SET_AO_MODE_CMD s (setAoMode E d s)"
  "once GET_ANALOG_IN_CMD s (getAnalogIn E s)" "once GET_AO_VOLTAGE_CMD s (getAoVoltage E s)" "once SET_AO_LUT_CMD s (setAoLut E d s)"
  unfolding setDigitalOut_def getDigitalOut_def setDioRole_def getDioRole_def setAoVoltage_def setAoMode_def getAnalogIn_def
    getAoVoltage_def setAoLut_def
  by (intro once_intros; simp add: quiet Let_def)+

lemma output_once: "output_case E c d s = Some t \<Longrightarrow> once c s t"
  unfolding output_case_def by (auto split: if_split_asm intro!: output_once_lemmas)

lemma report_once_lemmas:
  "once GET_ETHERNET_IP_ADDRESS_CMD s (getIp E s)" "once GET_CONTROLLER_INFO_CMD s (handleGetControllerInfo E s)"
  "once GET_HEALTH_CMD s (handleGetHealth E s)" "once GET_FIRMWARE_VERSION_CMD s (handleGetFirmwareVersion E s)"
  "once GET_CRASHREPORT_CMD s (handleGetCrashReport E s)" "once GET_SD_INFO_CMD s (handleGetSdInfo E s)"
  "once SET_SD_DIAG_CMD s (handleSetSdDiag E d s)" "once SET_DIAG_OUTPUT_CMD s (setDiagOutput d s)"
  "once GET_DIAG_OUTPUT_CMD s (getDiagOutput s)" "once SET_TELEMETRY_CMD s (handleSetTelemetry E d s)"
  "once GET_TELEMETRY_BLOCK_CMD s (handleGetTelemetryBlock E d s)"
  unfolding getIp_def handleGetControllerInfo_def handleGetHealth_def handleGetFirmwareVersion_def handleGetCrashReport_def
    handleGetSdInfo_def handleSetSdDiag_def setDiagOutput_def getDiagOutput_def handleSetTelemetry_def handleGetTelemetryBlock_def
  by (intro once_intros; simp add: quiet Let_def case_prod_beta)+

lemma report_once: "report_case E c d s = Some t \<Longrightarrow> once c s t"
  unfolding report_case_def by (auto split: if_split_asm intro!: report_once_lemmas)

lemma download_once: "once GET_PATTERN_FILE_CMD s (getPatternFile E d s)"
  unfolding getPatternFile_def
  by (intro once_intros once_then [OF once_reply]) (simp_all add: quiet)

lemma archive_once: "once GET_SD_ARCHIVE_CMD s (getSdArchive E s)"
  unfolding getSdArchive_def handleGetSdArchive_def
  by (intro once_intros once_then [OF once_reply]) (simp_all add: quiet)

lemma file_once_lemmas:
  "once GET_FILE_COUNT_CMD s (getFileCount s)" "once GET_PATTERN_FILENAME_CMD s (getPatternFilename d s)"
  "once GET_PATTERN_INFO_CMD s (getPatternInfo E d s)" "once SET_PATTERN_FILENAME_CMD s (setPatternFilename E d s)"
  "once DELETE_PATTERN_FILE_CMD s (deletePatternFile E d s)" "once PURGE_MEMORY_CMD s (purgeMemoryCmd E s)"
  "once GET_FIRMWARE_INFO_CMD s (handleGetFirmwareInfo E s)"
  unfolding getFileCount_def getPatternFilename_def getPatternInfo_def setPatternFilename_def deletePatternFile_def purgeMemoryCmd_def
    handleGetFirmwareInfo_def
  by (intro once_intros; simp add: quiet)+

section \<open>The panel programmer\<close>

lemma isp_quiet [quiet]:
  "srcs (wait_us n s) = srcs s" "srcs (wait_ms n s) = srcs s" "srcs (set_clock m s) = srcs s" "srcs (fst (panel_xfer E p b s)) = srcs s"
  "srcs (fst (sendCmd E p b g s)) = srcs s"
  by (simp_all add: srcs_def wait_us_def wait_ms_def set_clock_def panel_xfer_def sendCmd_def case_prod_beta)

lemma readResp_quiet [quiet]: "srcs (fst (readResp E p n w r s)) = srcs s"
  by (simp add: readResp_def Let_def case_prod_beta quiet split: option.split)

lemma poll_quiet: "poll_loop E fuel p n pm to t0 r s = Some (t, r', st) \<Longrightarrow> srcs t = srcs s"
proof (induction fuel arbitrary: r s)
  case (Suc fuel)
  obtain u q st' where rr: "readResp E p n 0 r (kick E s) = (u, q, st')" by (metis prod_cases3)
  then have "srcs u = srcs s" using readResp_quiet [of E p n 0 r "kick E s"] by (simp add: quiet)
  then show ?case using Suc.prems Suc.IH rr by (auto simp: Let_def quiet split: if_split_asm)
qed simp

lemma pollResp_quiet: "pollResp E p n pm to r s = Some (t, r', st) \<Longrightarrow> srcs t = srcs s"
  unfolding pollResp_def by (auto dest: poll_quiet simp: quiet)

lemma alive_quiet: "alive_loop E fuel p t0 pr s = Some (t, a) \<Longrightarrow> srcs t = srcs s"
proof (induction fuel arbitrary: pr s)
  case (Suc fuel)
  obtain u ok where x: "panel_xfer E p comm_check (set_clock kIspClockBMhz s) = (u, ok)" by fastforce
  then have "srcs u = srcs s" using isp_quiet(4) [of E p comm_check "set_clock kIspClockBMhz s"] by (simp add: quiet)
  then show ?case using Suc.prems Suc.IH x by (auto simp: Let_def quiet split: if_split_asm)
qed simp

lemma then_quiet: "srcs (fst r) = srcs s \<Longrightarrow> (\<And>a t. srcs t = srcs s \<Longrightarrow> srcs (fst (f a t)) = srcs s) \<Longrightarrow> srcs (fst (then_phase r f)) = srcs s"
  by (cases r; cases "snd r") (auto simp: then_phase_def)

lemma break_quiet [quiet]: "srcs (fst (break m s)) = srcs s"
  by (simp add: break_def)

lemma enter_quiet [quiet]: "srcs (fst (enter_attempts E p k s)) = srcs s"
  by (induction k arbitrary: s) (simp_all add: Let_def case_prod_beta quiet)

lemma phases_quiet [quiet]:
  "srcs (fst (verify_staged E p im s)) = srcs s" "srcs (fst (commit E p im s)) = srcs s" "srcs (fst (wait_alive E p s)) = srcs s"
  "srcs (fst (ask_crc E p im s)) = srcs s"
  by (auto simp: verify_staged_def commit_def wait_alive_def ask_crc_def pollPanelAlive_def Let_def case_prod_beta quiet
    split: option.split dest!: pollResp_quiet alive_quiet)

lemma timed_quiet: "(\<And>u. srcs u = srcs s \<Longrightarrow> srcs (fst (f u)) = srcs s) \<Longrightarrow> srcs (fst (timed E f s)) = srcs s"
  unfolding timed_def Let_def by (intro then_quiet) (simp_all add: quiet)

lemma after_stream_quiet [quiet]: "srcs (fst (after_stream E p im t0 st s)) = srcs s"
  unfolding after_stream_def
  by (intro then_quiet timed_quiet) (simp_all add: quiet, (rule trans [OF timed_quiet]; simp add: quiet)+)

lemma enter_program_quiet [quiet]: "srcs (fst (enter_program E p s)) = srcs s"
  unfolding enter_program_def
  by (intro then_quiet) (simp_all add: quiet begin_session_def case_prod_beta split: option.split)

lemma write_pages_quiet [quiet]: "srcs (fst (write_pages E p n k i h s)) = srcs s"
  by (induction k arbitrary: i h s) (simp_all add: Let_def case_prod_beta quiet)

lemma flash_quiet [quiet]: "srcs (fst (snd (flash E p h im t0 s))) = srcs s"
proof -
  obtain u x where u: "enter_program E p s = (u, x)" by fastforce
  have "srcs u = srcs s" using enter_program_quiet [of E p s] by (simp add: u)
  then show ?thesis
    by (cases x) (auto simp: flash_def u Let_def case_prod_beta quiet intro!: then_quiet)
qed

lemma read_footer_quiet [quiet]: "srcs (fst (read_footer E s)) = srcs s"
  by (simp add: read_footer_def Let_def case_prod_beta quiet split: option.split)

lemma program_quiet: "srcs (fst (programPanel E p s)) = srcs s"
proof -
  obtain u r where f: "read_footer E s = (u, r)" by fastforce
  have "srcs u = srcs s" using read_footer_quiet [of E s] by (simp add: f)
  then show ?thesis by (cases r) (auto simp: programPanel_def f Let_def case_prod_beta quiet)
qed

lemma verify_running_quiet [quiet]: "srcs (fst (verify_running E p im s)) = srcs s"
  unfolding verify_running_def
  by (intro then_quiet) (auto simp: quiet begin_session_def case_prod_beta intro!: then_quiet)

lemma verify_quiet: "srcs (fst (verifyPanel E p s)) = srcs s"
proof -
  obtain u r where f: "read_footer E s = (u, r)" by fastforce
  have "srcs u = srcs s" using read_footer_quiet [of E s] by (simp add: f)
  then show ?thesis by (cases r) (auto simp: verifyPanel_def f Let_def case_prod_beta quiet split: phase.split)
qed

lemma isp_command_once:
  assumes "\<And>p. srcs (fst (f p s)) = srcs s" "\<not> halted (isp_command c m f d n s)"
  shows "once c s (isp_command c m f d n s)"
proof -
  obtain u ok msg where u: "f (unat (d ! 2 - 1)) s = (u, ok, msg)" by (metis prod_cases3)
  then have "srcs u = srcs s" using assms(1) [of "unat (d ! 2 - 1)"] by simp
  then show ?thesis using assms(2) unfolding isp_command_def u by (auto intro!: once_reply split: if_split_asm)
qed

lemma panel_op_once: "(\<not> halted (panel_op c m f s) \<Longrightarrow> once c s (f s)) \<Longrightarrow> \<not> halted (panel_op c m f s) \<Longrightarrow> once c s (panel_op c m f s)"
  by (auto simp: panel_op_def intro: once_reply)

lemma file_once:
  assumes "file_case E c d n s = Some t" "\<not> halted t"
  shows "once c s t"
proof -
  have p: "once G6_PROGRAM_PANEL_CMD s (panel_op G6_PROGRAM_PANEL_CMD m (handleProgramPanel E d n) s)"
    if "\<not> halted (panel_op G6_PROGRAM_PANEL_CMD m (handleProgramPanel E d n) s)" for m
    using that by (auto simp: panel_op_def handleProgramPanel_def intro!: once_reply isp_command_once program_quiet split: if_split_asm)
  have v: "once G6_VERIFY_PANEL_CMD s (panel_op G6_VERIFY_PANEL_CMD m (handleVerifyPanel E d n) s)"
    if "\<not> halted (panel_op G6_VERIFY_PANEL_CMD m (handleVerifyPanel E d n) s)" for m
    using that by (auto simp: panel_op_def handleVerifyPanel_def intro!: once_reply isp_command_once verify_quiet split: if_split_asm)
  show ?thesis using assms unfolding file_case_def
    by (auto split: if_split_asm intro: p v intro!: file_once_lemmas download_once archive_once)
qed

section \<open>The dispatcher\<close>

lemma dispatch_once:
  assumes "\<not> halted (dispatch E c d n s)"
  shows "once c s (dispatch E c d n s)"
proof -
  have r: "c \<noteq> SYSTEM_RESET_CMD" using assms by (auto simp: dispatch_def reset_system_def Let_def)
  have u: "once c s (unknown_command E c s)" by (auto simp: unknown_command_def quiet intro: once_reply)
  show ?thesis using assms r u unfolding dispatch_def
    by (auto split: option.splits intro: display_once output_once report_once file_once)
qed

lemma wd_note_quiet [quiet]: "srcs (wd_note E c w s) = srcs s"
  by (simp add: wd_note_def Let_def case_prod_beta quiet)

lemma record_quiet [quiet]: "srcs (record_command E t c d s) = srcs s"
  by (simp add: record_command_def Let_def quiet)


definition get_mode :: parsed_command where
  "get_mode = \<lparr>pc_cmd = 0x1C, pc_data = [1, 0x1C], data_len = 2, is_stream = False, is_bulk = False, bulk_payload_len = 0\<rparr>"


end
