(* ===== verification/DownloadProps.thy ===== *)
theory DownloadProps
  imports ArchiveProps Bench
begin

text \<open>
  A pattern download: the reply with the file's size, then the file's bytes and nothing else.
\<close>

section \<open>The stream\<close>

lemma end_download: "the_card (endDownload E s) = (case dl_h (xf s) of None \<Rightarrow> the_card s | Some h \<Rightarrow> sd_close (lib E) h (the_card s))"
  "\<not> dl_active (xf (endDownload E s))" "the_source i (endDownload E s) = the_source i s"
  by (simp_all add: endDownload_def close_opt_def with_card_def the_card_def the_source_def split: option.split source_id.split)

lemma download_loop:
  assumes link: "good_link E i 4096" and clock: "prompt_clock E" and still: "still_card (lib E) c file_of rest"
  shows "dl_active (xf s) \<Longrightarrow> dl_source (xf s) = i \<Longrightarrow> the_card s = c \<Longrightarrow> dl_h (xf s) = Some h
    \<Longrightarrow> length (rest h) = unat (dl_remaining (xf s)) \<Longrightarrow> \<not> expired (ms E (tick s)) (dl_deadline (xf s))
    \<Longrightarrow> \<exists>t. leads (serviceDownload E) s t \<and> \<not> dl_active (xf t) \<and> out i t = out i s @ rest h \<and> the_card t = c"
proof (induction "unat (dl_remaining (xf s))" arbitrary: s h rule: less_induct)
  case less
  let ?r = "dl_remaining (xf s)" and ?s = "s\<lparr>tick := tick s + 1\<rparr>"
  note at = less.prems
  have cs: "the_card (s\<lparr>tick := n\<rparr>) = the_card s" for n by (simp add: the_card_def)
  show ?case
  proof (cases "?r = 0")
    case True
    then have "serviceDownload E s = endDownload E ?s" using at by (simp add: serviceDownload_def Let_def)
    moreover have "the_card (endDownload E ?s) = c" "\<not> dl_active (xf (endDownload E ?s))" "out i (endDownload E ?s) = out i s"
      using at still_card.closing [OF still] by (simp_all add: end_download cs)
    ultimately show ?thesis using leads_step [of "serviceDownload E" s] at(5) True by auto
  next
    case False
    define want where "want = (if unat ?r < kChunkBytes then unat ?r else kChunkBytes)"
    obtain h' bs where rd: "sd_read (lib E) want h c = (h', bs)" by fastforce
    have "rest h = bs @ rest h'" "length bs \<le> want" "bs = [] \<longrightarrow> want = 0 \<or> rest h = []"
      using still_card.reading [OF still rd] by auto
    moreover have want: "0 < want" "want \<le> unat ?r" "want \<le> 4096" using False by (auto simp: want_def kChunkBytes_def unat_gt_0)
    ultimately have bs: "rest h = bs @ rest h'" "length bs \<le> 4096" "bs \<noteq> []" "length bs \<le> unat ?r" using at(5) False by (auto simp: unat_gt_0)
    define v where "v = ?s\<lparr>xf := (xf s)\<lparr>dl_h := Some h'\<rparr>\<rparr>"
    define w where "w = fst (send_raw E i bs v)"
    note g = send_raw_good [OF link bs(2), of v, folded w_def]
    define x where "x = w\<lparr>xf := (xf v)\<lparr>dl_remaining := ?r - of_nat (length bs), dl_deadline := ms E (tick w) + kDownloadIdleTimeoutMs\<rparr>,
      tick := tick w + 1\<rparr>"
    have srv: "serviceDownload E s = (if dl_remaining (xf x) = 0 then endDownload E x else x)"
    proof -
      have rd': "read_opt E want (dl_h (xf ?s)) (the_card ?s) = (Some h', bs)" using rd at by (simp add: read_opt_def the_card_def)
      have sr: "send_raw E (dl_source (xf v)) bs v = (w, length bs)" using g(1) at(2) by (simp add: w_def v_def prod_eq_iff)
      have W: "(if unat (dl_remaining (xf ?s)) < kChunkBytes then unat (dl_remaining (xf ?s)) else kChunkBytes) = want"
        by (simp add: want_def)
      have V: "?s\<lparr>xf := (xf ?s)\<lparr>dl_h := Some h'\<rparr>\<rparr> = v" by (simp add: v_def)
      have "xf v = (xf s)\<lparr>dl_h := Some h'\<rparr>" by (simp add: v_def)
      then show ?thesis
        using at False bs(3) g(2) unfolding serviceDownload_def Let_def W rd' prod.case V sr by (simp add: x_def)
    qed
    have x: "dl_active (xf x)" "dl_source (xf x) = i" "dl_h (xf x) = Some h'" "out i x = out i s @ bs" "the_card x = c"
      using at g by (simp_all add: x_def v_def the_card_def)
    have r: "unat (dl_remaining (xf x)) = unat ?r - length bs" using bs(4) by (simp add: x_def unat_sub_of_nat)
    have l: "length (rest h') = unat (dl_remaining (xf x))" using at(5) bs(1) r by simp
    show ?thesis
    proof (cases "dl_remaining (xf x) = 0")
      case True
      then have "the_card (endDownload E x) = c" using x still_card.closing [OF still] by (simp add: end_download)
      then show ?thesis using True l x bs(1) srv leads_step [of "serviceDownload E" s]
        by (intro exI [of _ "endDownload E x"]) (auto simp: end_download(2,3))
    next
      case more: False
      have "ms E (tick w + 1) - ms E (tick w) < 60000" using clock by (simp add: prompt_clock_def)
      then have d: "\<not> expired (ms E (tick x)) (dl_deadline (xf x))"
        by (simp add: x_def kDownloadIdleTimeoutMs_def not_expired)
      have "unat (dl_remaining (xf x)) < unat ?r" using r bs(3,4) by (cases bs) simp_all
      from less.hyps [OF this x(1,2,5,3) l d] obtain t where "leads (serviceDownload E) x t" "\<not> dl_active (xf t)"
        "out i t = out i x @ rest h'" "the_card t = c" by blast
      then show ?thesis using srv more x(4) bs(1) leads_first [of "serviceDownload E" s] by (intro exI [of _ t]) auto
    qed
  qed
qed

section \<open>The command\<close>

lemma reply_committed:
  assumes "length (resp_buf src) = RESP_BUF_SIZE" "pl \<noteq> []" "3 + length pl < RESP_BUF_SIZE"
  shows "committed (sendResponse c st pl src) = wire_out src @ [of_nat (2 + length pl), st, c] @ pl"
  using assms by (simp add: committed_def sendResponse_def Let_def blit_def numeral_3_eq_3)

text \<open>C8: a download gives the host the file. When the card holds still, the link takes every chunk and
  the clock is read often enough, an accepted GET_PATTERN_FILE is answered by the file's size, and the
  download service then sends exactly the file's bytes, in order and once, and ends.\<close>

theorem download_sends_the_file:
  assumes link: "good_link E (current_source s) 4096" and clock: "prompt_clock E"
    and still: "still_card (lib E) (the_card s) file_of rest"
    and buf: "length (resp_buf (the_source (current_source s) s)) = RESP_BUF_SIZE"
    and ready: "cstate s = ALL_OFF" "\<not> dl_active (xf s)" "\<not> patternBusy (unat (word16 d 2)) s"
    and request: "d ! 0 = 3" "patternName (unat (word16 d 2)) (sd_st s) = Some nm" "0 < unat (word16 d 2)"
      "unat (word16 d 2) \<le> pattern_count (sd_st s)"
    and stored: "file_of (pattern_path nm) = Some bs" "length bs < 2 ^ 32"
  shows "\<exists>k. let t = (serviceDownload E ^^ k) (getPatternFile E d s) in
      \<not> dl_active (xf t) \<and> the_card t = the_card s
      \<and> committed (the_source (current_source s) t) = wire_out (the_source (current_source s) s)
           @ [10, 0, GET_PATTERN_FILE_CMD] @ put32 (of_nat (length bs)) @ [0, 0, 0, 0] @ bs"
proof -
  let ?i = "current_source s" and ?p = "put32 (of_nat (length bs)) @ replicate 4 0"
  obtain h where h: "sd_open (lib E) (pattern_path nm) (the_card s) = Some h" "rest h = bs" "sd_size (lib E) h (the_card s) = length bs"
    using still_card.opened [OF still stored(1)] by blast
  define u where "u = reply GET_PATTERN_FILE_CMD 0 ?p s"
  define t where "t = u\<lparr>xf := (xf s)\<lparr>dl_h := Some h, dl_source := ?i, dl_idx := unat (word16 d 2), dl_remaining := of_nat (length bs),
    dl_deadline := ms E (tick s) + kDownloadIdleTimeoutMs, dl_active := True\<rparr>, tick := tick s + 1\<rparr>"
  have k: "xf u = xf s" "tick u = tick s" "sd_st u = sd_st s" "current_source u = ?i" by (simp_all add: u_def reply_def)
  have t: "getPatternFile E d s = t"
    using ready request h by (simp add: getPatternFile_def Let_def u_def [symmetric] k t_def not_less)
  have o: "out ?i u = wire_out (the_source ?i s) @ [10, 0, GET_PATTERN_FILE_CMD] @ ?p"
    using reply_committed [OF buf, of ?p GET_PATTERN_FILE_CMD 0]
    by (simp add: u_def reply_def RESP_BUF_SIZE_def byte_count_per_response_max_def put32_def)
  have n: "unat (of_nat (length bs) :: u32) = length bs" using stored(2) by (simp add: unat_of_nat)
  have "ms E (tick s + 1) - ms E (tick s) < 60000" using clock by (simp add: prompt_clock_def)
  then have e: "\<not> expired (ms E (tick t)) (dl_deadline (xf t))" by (simp add: t_def kDownloadIdleTimeoutMs_def not_expired)
  have c: "the_card t = the_card s" by (simp add: t_def the_card_def k)
  obtain v where v: "leads (serviceDownload E) t v" "\<not> dl_active (xf v)" "out ?i v = out ?i t @ bs" "the_card v = the_card s"
    using download_loop [OF link clock still, of t h] e c h(2) n by (auto simp: t_def)
  obtain j where "(serviceDownload E ^^ j) t = v" using v(1) unfolding leads_def by blast
  moreover have "out ?i t = out ?i u" by (simp add: t_def)
  ultimately show ?thesis using v o by (intro exI [of _ j]) (simp add: t Let_def numeral_eq_Suc)
qed

text \<open>The bench with one pattern on its card.\<close>

definition one_pattern :: "(byte list, nat, u32 \<times> u32) cp" where
  "one_pattern = (machine0 ARENA_HW_2_10 [1, 2, 3])\<lparr>sd_st := (sd0 [1, 2, 3])\<lparr>mounted := True, names := [str ''a.pat''],
     origin_names := [str ''a.pat'']\<rparr>\<rparr>"

lemma one_pattern_sel:
  "current_source one_pattern = Net" "cstate one_pattern = ALL_OFF" "\<not> dl_active (xf one_pattern)" "\<not> patternBusy n one_pattern"
  "patternName 1 (sd_st one_pattern) = Some (str ''a.pat'')" "pattern_count (sd_st one_pattern) = 1" "the_card one_pattern = [1, 2, 3]"
  "length (resp_buf (the_source Net one_pattern)) = RESP_BUF_SIZE" "wire_out (the_source Net one_pattern) = []"
  by (simp_all add: one_pattern_def machine0_def power_on_def transfer0_def patternBusy_def patternName_def pattern_count_def the_card_def
    sd0_def the_source_def source0_def)

lemma download_sends_the_file_witness:
  "\<exists>k. committed (the_source Net ((serviceDownload (bench ARENA_HW_2_10) ^^ k) (getPatternFile (bench ARENA_HW_2_10) [3, 0x84, 1, 0] one_pattern)))
     = [10, 0, 0x84, 3, 0, 0, 0, 0, 0, 0, 0, 1, 2, 3]"
proof -
  let ?E = "bench ARENA_HW_2_10"
  have e: "good_link ?E Net 4096" "prompt_clock ?E" "lib ?E = flat_card"
    by (simp_all add: good_link_def prompt_clock_def bench_def isConnected_def)
  have w: "unat (word16 [3, 0x84, 1, 0] 2) = 1" by (simp add: word16_def get16_def)
  show ?thesis
    using download_sends_the_file [where E = ?E and s = one_pattern and d = "[3, 0x84, 1, 0]" and nm = "str ''a.pat''"
        and file_of = "\<lambda>_. Some [1, 2, 3]" and rest = "\<lambda>h. drop h [1, 2, 3]" and bs = "[1, 2, 3]"]
      e one_pattern_sel flat.still_card_axioms [of "[1, 2, 3]"]
    by (simp only: w) (simp add: GET_PATTERN_FILE_CMD_def put32_def Let_def, blast)
qed

end
