(* ===== verification/UploadProps.thy ===== *)
theory UploadProps
  imports ArchiveProps Bench TransportProps
begin

text \<open>
  A pattern upload: the bytes the host sent are the file on the card, and none of what follows
  them on the link is consumed.
\<close>

section \<open>Cards that are written\<close>

text \<open>The card as its files: \<open>files\<close> gives the contents of a path, \<open>place\<close> the path a handle writes to. A
  created file is empty, a write appends what it takes, closing and making a directory change no
  file, and removing a path leaves the others.\<close>

locale writable_card =
  fixes L :: "('c, 'h) sdlib" and files :: "'c \<Rightarrow> byte list \<Rightarrow> byte list option" and place :: "'h \<Rightarrow> byte list"
  assumes creating: "sd_create L p c = (c', Some h) \<Longrightarrow> place h = p \<and> files c' = (files c)(p \<mapsto> [])"
    and writing: "sd_write L bs h c = (c', h', n) \<Longrightarrow> files c (place h) = Some old
      \<Longrightarrow> place h' = place h \<and> n \<le> length bs \<and> files c' = (files c)(place h \<mapsto> old @ take n bs)"
    and closing: "files (sd_close L h c) = files c"
    and making: "files (sd_mkdir L p c) = files c"
    and removing: "q \<noteq> p \<Longrightarrow> files (fst (sd_remove L p c)) q = files c q"
begin

lemma fresh_file:
  assumes "sd_create L p (fst (sd_remove L p (sd_mkdir L dir c))) = (c', Some h)"
  shows "place h = p" "files c' = (files c)(p \<mapsto> [])"
proof -
  note cr = creating [OF assms]
  show "place h = p" using cr by simp
  show "files c' = (files c)(p \<mapsto> [])"
  proof
    fix q
    show "files c' q = ((files c)(p \<mapsto> [])) q" using cr removing [of q p "sd_mkdir L dir c"] by (cases "q = p") (simp_all add: making)
  qed
qed

end

text \<open>A card with room: every file is created and every write is complete.\<close>

definition roomy :: "('c, 'h) sdlib \<Rightarrow> bool" where
  "roomy L \<longleftrightarrow> (\<forall>p c. snd (sd_create L p c) \<noteq> None) \<and> (\<forall>bs h c. snd (snd (sd_write L bs h c)) = length bs)"

text \<open>A card that is a map from paths to contents; a handle is a path with a position to read from.\<close>

definition map_card :: "(byte list \<Rightarrow> byte list option, byte list \<times> nat) sdlib" where
  "map_card = \<lparr>sd_mount = \<lambda>c. (c, True), sd_list = \<lambda>c. None, sd_exists = \<lambda>p c. c p \<noteq> None, sd_remove = \<lambda>p c. (c(p := None), c p \<noteq> None),
     sd_rename = \<lambda>p q c. (c(p := None, q := c p), c p \<noteq> None), sd_format = \<lambda>c. (\<lambda>p. None, True),
     sd_open = \<lambda>p c. map_option (\<lambda>_. (p, 0)) (c p), sd_create = \<lambda>p c. (c(p \<mapsto> []), Some (p, 0)),
     sd_write = \<lambda>bs h c. (c(fst h \<mapsto> (case c (fst h) of None \<Rightarrow> [] | Some old \<Rightarrow> old) @ bs), h, length bs), sd_close = \<lambda>h c. c,
     sd_seek = \<lambda>n h c. ((fst h, n), True),
     sd_read = \<lambda>n h c. ((fst h, snd h + n), take n (drop (snd h) (case c (fst h) of None \<Rightarrow> [] | Some bs \<Rightarrow> bs))),
     sd_size = \<lambda>h c. (case c (fst h) of None \<Rightarrow> 0 | Some bs \<Rightarrow> length bs), sd_contiguous = \<lambda>h c. True, sd_mkdir = \<lambda>p c. c\<rparr>"

interpretation mapped: writable_card map_card "\<lambda>c. c" fst
  by unfold_locales (auto simp: map_card_def)

section \<open>What the host has sent\<close>

definition pending :: "source_id \<Rightarrow> ('c, 'h, 'w) cp \<Rightarrow> byte list" where
  "pending i s = content (the_source i s) @ (case i of Ser \<Rightarrow> ser_pipe s | Net \<Rightarrow> net_pipe s)"

lemma pending_frame [simp]:
  "pending i (s\<lparr>xf := x\<rparr>) = pending i s" "pending i (s\<lparr>tick := n\<rparr>) = pending i s" "pending i (s\<lparr>sd_st := d\<rparr>) = pending i s"
  "pending i (with_card f s) = pending i s"
  "the_source i (with_card f s) = the_source i s"
  by (simp_all add: pending_def the_source_def with_card_def split: source_id.split)

lemma card_frame [simp]:
  "the_card (s\<lparr>xf := x\<rparr>) = the_card s" "the_card (s\<lparr>tick := n\<rparr>) = the_card s" "the_card (with_card f s) = f (the_card s)"
  by (simp_all add: the_card_def with_card_def)

lemma take_rx_content:
  assumes "source_ok b s" "take_rx n s = (bs, t)"
  shows "content s = bs @ content t" "length bs = min (rx_len s) n" "source_ok b t" "committed t = committed s" "wire_out t = wire_out s"
proof -
  let ?n = "min (rx_len s) n"
  have t: "bs = take ?n (content s)" "t = (if 0 < ?n then rx_consume ?n s else s)"
    using assms take_rx_buf [OF assms(1), of ?n] by (auto simp: take_rx_def Let_def)
  have "content t = drop ?n (content s)"
  proof (cases "?n = 0")
    case True
    then show ?thesis unfolding t(2) True by simp
  next
    case False
    then show ?thesis using content_consume [OF assms(1), of ?n] by (simp add: t(2))
  qed
  then show "content s = bs @ content t" by (simp add: t(1))
  show "length bs = min (rx_len s) n" by (simp add: t(1) content_len [OF assms(1)])
  show "source_ok b t" using take_rx_ok [OF assms(1), of n] assms(2) by simp
  show "committed t = committed s" "wire_out t = wire_out s" by (simp_all add: t(2) committed_def rx_consume_def)
qed

lemma read_bulk_takes:
  assumes ok: "source_ok (board E) (the_source i s)" and up: "isConnected E i (tick s)" and rd: "read_bulk E i n s = (t, bs)"
  shows "\<exists>a. pending i s @ a = bs @ pending i t" "length bs \<le> n" "pending i s \<noteq> [] \<Longrightarrow> 0 < n \<Longrightarrow> bs \<noteq> []"
    "source_ok (board E) (the_source i t)" "xf t = xf s" "the_card t = the_card s" "tick t = tick s + 1"
    "committed (the_source i t) = committed (the_source i s)" "wire_out (the_source i t) = wire_out (the_source i s)"
proof -
  have "(\<exists>a. pending i s @ a = bs @ pending i t) \<and> length bs \<le> n \<and> (pending i s \<noteq> [] \<longrightarrow> 0 < n \<longrightarrow> bs \<noteq> [])
    \<and> source_ok (board E) (the_source i t) \<and> xf t = xf s \<and> the_card t = the_card s \<and> tick t = tick s + 1
    \<and> committed (the_source i t) = committed (the_source i s) \<and> wire_out (the_source i t) = wire_out (the_source i s)"
  proof (cases i)
    case Ser
    obtain p u where tu: "top_up (board E) (ser_pipe s @ arrivals E (tick s), ser s) = (p, u)" by fastforce
    obtain v where tr: "take_rx n u = (bs, v)" "t = (s\<lparr>tick := tick s + 1\<rparr>)\<lparr>ser := v, ser_pipe := p\<rparr>"
      using rd by (auto simp: read_bulk_def Ser readBulkBytes_usb_def tu Let_def split: prod.splits)
    have o: "source_ok (board E) (ser s)" using ok by (simp add: Ser the_source_def)
    have u: "source_ok (board E) u" using top_up_ok [OF o, of "ser_pipe s @ arrivals E (tick s)"] tu by simp
    have c: "content u @ p = content (ser s) @ ser_pipe s @ arrivals E (tick s)" "p = [] \<or> rx_len u = RX_BUF_SIZE (board E)"
      using top_up_content [OF o tu] by simp_all
    have w: "committed u = committed (ser s)" "wire_out u = wire_out (ser s)" using tu by (auto simp: top_up_def Let_def committed_def)
    note v = take_rx_content [OF u tr(1)]
    have "bs \<noteq> []" if "pending Ser s \<noteq> []" "0 < n"
    proof -
      have "content u \<noteq> []" using that(1) c rx_size_bounds [of "board E"] content_len [OF u] by (auto simp: pending_def the_source_def)
      then have "0 < length bs" unfolding v(2) using that(2) content_len [OF u] by (cases "rx_len u") simp_all
      then show ?thesis by simp
    qed
    then show ?thesis using v c w
      by (auto simp: tr(2) Ser pending_def the_source_def the_card_def intro: exI [of _ "arrivals E (tick s)"])
  next
    case Net
    show ?thesis
    proof (cases "0 < rx_len (net s)")
      case True
      obtain v where tr: "take_rx n (net s) = (bs, v)" "t = (s\<lparr>tick := tick s + 1\<rparr>)\<lparr>net := v, net_pipe := net_pipe s @ arrivals E (tick s)\<rparr>"
        using rd True by (auto simp: read_bulk_def Net readBulkBytes_tcp_def Let_def split: prod.splits)
      have o: "source_ok (board E) (net s)" using ok by (simp add: Net the_source_def)
      show ?thesis using take_rx_content [OF o tr(1)] True
        by (auto simp: tr(2) Net pending_def the_source_def the_card_def intro: exI [of _ "arrivals E (tick s)"])
    next
      case False
      have up': "tcp_up E (tick s)" using up by (simp add: isConnected_def Net)
      let ?p = "net_pipe s @ arrivals E (tick s)"
      have t: "bs = take (min (length ?p) n) ?p" "t = (s\<lparr>tick := tick s + 1\<rparr>)\<lparr>net := net s, net_pipe := drop (min (length ?p) n) ?p\<rparr>"
        using rd False up' by (auto simp: read_bulk_def Net readBulkBytes_tcp_def Let_def)
      have e: "content (net s) = []" using False by (simp add: content_def)
      have "bs @ drop (min (length ?p) n) ?p = ?p" unfolding t(1) by (rule append_take_drop_id)
      then show ?thesis using ok
        by (auto simp: t(2) t(1) [symmetric] Net pending_def the_source_def the_card_def e intro: exI [of _ "arrivals E (tick s)"])
          (auto simp: t(1) min_def split: if_splits)
    qed
  qed
  then show "\<exists>a. pending i s @ a = bs @ pending i t" "length bs \<le> n" "pending i s \<noteq> [] \<Longrightarrow> 0 < n \<Longrightarrow> bs \<noteq> []"
    "source_ok (board E) (the_source i t)" "xf t = xf s" "the_card t = the_card s" "tick t = tick s + 1"
    "committed (the_source i t) = committed (the_source i s)" "wire_out (the_source i t) = wire_out (the_source i s)" by blast+
qed

section \<open>The stream\<close>

text \<open>The clock is read often enough for the thirty seconds of an upload.\<close>

definition brisk_clock :: "('c, 'h, 'w) env \<Rightarrow> bool" where
  "brisk_clock E \<longleftrightarrow> (\<forall>t. ms E (t + 1) - ms E t < 30000)"

lemma finish_upload:
  assumes "ul_source (xf s) = i" "source_ok b (the_source i s)"
  shows "\<not> ul_active (xf (ul_finish st [] s))" "the_card (ul_finish st [] s) = the_card s"
    "committed (the_source i (ul_finish st [] s)) = wire_out (the_source i s) @ [2, st, SET_PATTERN_FILE_CMD]"
    "pending i (ul_finish st [] s) = pending i s"
  using assms
  by (auto simp: ul_finish_def reply_to_def consumed_def on_source_def the_source_def the_card_def pending_def committed_def sendResponse_def
    commandConsumed_def source_ok_def blit_def content_def Let_def RESP_BUF_SIZE_def byte_count_per_response_max_def numeral_3_eq_3
    split: source_id.splits)

lemma upload_loop:
  fixes E :: "('c, 'h, 'w) env"
  assumes card: "writable_card (lib E) files place" and room: "roomy (lib E)" and clock: "brisk_clock E" and up: "\<And>t. isConnected E i t"
  shows "ul_active (xf s) \<Longrightarrow> ul_source (xf s) = i \<Longrightarrow> ul_phase (xf s) = kWriting \<Longrightarrow> ul_h (xf s) = Some h
    \<Longrightarrow> files (the_card s) (place h) = Some got \<Longrightarrow> pending i s = body @ nxt \<Longrightarrow> length body = unat (ul_remaining (xf s))
    \<Longrightarrow> body \<noteq> [] \<Longrightarrow> \<not> expired (ms E (tick s)) (ul_deadline (xf s)) \<Longrightarrow> source_ok (board E) (the_source i s)
    \<Longrightarrow> \<exists>t later. leads (serviceUpload E) s t \<and> \<not> ul_active (xf t) \<and> files (the_card t) = (files (the_card s))(place h \<mapsto> got @ body)
      \<and> pending i t = nxt @ later \<and> committed (the_source i t) = wire_out (the_source i s) @ [2, 0, SET_PATTERN_FILE_CMD]"
proof (induction "length body" arbitrary: s h got body nxt rule: less_induct)
  case less
  let ?r = "ul_remaining (xf s)" and ?s = "s\<lparr>tick := tick s + 1\<rparr>"
  note at = less.prems
  define want where "want = (if unat ?r < kChunkBytes then unat ?r else kChunkBytes)"
  have want: "0 < want" "want \<le> unat ?r" using at(7) length_greater_0_conv [of body] at(8) by (auto simp: want_def kChunkBytes_def simp del: length_greater_0_conv)
  obtain t bs where rd: "read_bulk E i want ?s = (t, bs)" by fastforce
  have ps: "pending i ?s = pending i s" "the_source i ?s = the_source i s" "the_card ?s = the_card s"
    by (simp_all add: pending_def the_source_def the_card_def split: source_id.split)
  have ok': "source_ok (board E) (the_source i ?s)" using at(10) ps by simp
  note tk = read_bulk_takes [OF ok' up rd, unfolded ps]
  obtain a where a: "body @ nxt @ a = bs @ pending i t" using tk(1) at(6) by auto
  have bs: "bs \<noteq> []" using tk(3) want at(6,8) by simp
  have len: "length bs \<le> length body" using tk(2) want(2) at(7) by simp
  obtain body' where body: "body = bs @ body'" "pending i t = body' @ nxt @ a"
  proof -
    have "bs = take (length bs) body" using arg_cong [OF a, of "take (length bs)"] len by simp
    then have "body = bs @ drop (length bs) body" by (metis append_take_drop_id)
    moreover from this have "pending i t = drop (length bs) body @ nxt @ a" using a by (metis append_assoc same_append_eq)
    ultimately show thesis by (rule that)
  qed
  obtain c h' n where w: "sd_write (lib E) bs h (the_card s) = (c, h', n)" by (metis prod_cases3)
  have n: "n = length bs" using room w unfolding roomy_def by (metis snd_conv)
  have f: "place h' = place h" "files c = (files (the_card s))(place h \<mapsto> got @ bs)"
    using writable_card.writing [OF card w at(5)] by (simp_all add: n)
  define v where "v = with_card (\<lambda>_. c) (t\<lparr>xf := (xf t)\<lparr>ul_h := Some h'\<rparr>\<rparr>)"
  have xv: "xf v = (xf s)\<lparr>ul_h := Some h'\<rparr>" "the_card v = c" "tick v = tick s + 2" "the_source i v = the_source i t" "pending i v = pending i t"
    using tk(5,7) by (simp_all add: v_def with_card_def the_card_def the_source_def pending_def split: source_id.split)
  have wr: "ul_write E bs t = v"
    using w n tk(5,6) at(4) by (simp add: ul_write_def write_opt_def v_def Let_def)
  define x where "x = v\<lparr>xf := (xf v)\<lparr>ul_remaining := ?r - of_nat (length bs), ul_deadline := ms E (tick v) + kUploadIdleTimeoutMs\<rparr>,
    tick := tick v + 1\<rparr>"
  have x: "ul_active (xf x)" "ul_source (xf x) = i" "ul_phase (xf x) = kWriting" "ul_h (xf x) = Some h'" "the_card x = c"
    "pending i x = body' @ nxt @ a" "the_source i x = the_source i t"
    using at xv body(2) by (simp_all add: x_def)
  have r: "unat (ul_remaining (xf x)) = unat ?r - length bs" using tk(2) want(2) by (simp add: x_def unat_sub_of_nat)
  have srv: "serviceUpload E s = (if ul_remaining (xf x) \<noteq> 0 then x
      else ul_finish 0 [] ((close_opt E (Some h') x)\<lparr>xf := (xf x)\<lparr>ul_h := None\<rparr>\<rparr>))"
  proof -
    have W: "(if unat (ul_remaining (xf ?s)) < kChunkBytes then unat (ul_remaining (xf ?s)) else kChunkBytes) = want" by (simp add: want_def)
    have rd': "read_bulk E (ul_source (xf ?s)) want ?s = (t, bs)" using rd at(2) by simp
    have p: "ul_phase (xf t) = kWriting" "ul_phase (xf v) = kWriting" "ul_remaining (xf v) = ?r" "ul_h (xf v) = Some h'"
      using tk(5) at(3) xv(1) by simp_all
    have "serviceUpload E s = ul_chunk E bs t"
      using at(1,3,9) bs unfolding serviceUpload_def Let_def W rd' prod.case by simp
    also have "\<dots> = (if ul_remaining (xf x) \<noteq> 0 then x else ul_finish 0 [] ((close_opt E (Some h') x)\<lparr>xf := (xf x)\<lparr>ul_h := None\<rparr>\<rparr>))"
      using p unfolding ul_chunk_def Let_def wr by (simp add: x_def wr close_opt_def with_card_def)
    finally show ?thesis .
  qed
  show ?case
  proof (cases "ul_remaining (xf x) = 0")
    case True
    let ?y = "(close_opt E (Some h') x)\<lparr>xf := (xf x)\<lparr>ul_h := None\<rparr>\<rparr>"
    have y: "ul_source (xf ?y) = i" "the_source i ?y = the_source i t" "pending i ?y = pending i x" "the_card ?y = sd_close (lib E) h' c"
      using x by (simp_all add: close_opt_def)
    have "source_ok (board E) (the_source i ?y)" using tk(4) y(2) by simp
    note fin = finish_upload [OF y(1) this, of 0]
    have "length bs + length body' = unat ?r" using body(1) at(7) by simp
    moreover have "unat ?r - length bs = 0" using True r by simp
    ultimately have e: "body' = []" using length_0_conv [of body'] by linarith
    have "files (sd_close (lib E) h' c) = (files (the_card s))(place h \<mapsto> got @ body)"
      using writable_card.closing [OF card] f(2) body(1) e by simp
    then show ?thesis using True srv fin y x(6) e tk(9) leads_step [of "serviceUpload E" s]
      by (intro exI [of _ "ul_finish 0 [] ?y"] exI [of _ a]) simp
  next
    case False
    have lb: "length body' = unat (ul_remaining (xf x))" using r body(1) at(7) by simp
    then have nb: "body' \<noteq> []" using False by (auto simp: unat_eq_0)
    have lt: "length body' < length body" using body(1) bs by (cases bs) simp_all
    have "ms E (tick v + 1) - ms E (tick v) < 30000" using clock by (simp add: brisk_clock_def)
    then have d: "\<not> expired (ms E (tick x)) (ul_deadline (xf x))"
      by (simp add: x_def kUploadIdleTimeoutMs_def not_expired)
    have g: "files (the_card x) (place h') = Some (got @ bs)" using f x(5) by simp
    have so: "source_ok (board E) (the_source i x)" using tk(4) x(7) by simp
    from less.hyps [OF lt x(1-4) g x(6) lb nb d so] obtain y later where "leads (serviceUpload E) x y" "\<not> ul_active (xf y)"
      "files (the_card y) = (files (the_card x))(place h' \<mapsto> (got @ bs) @ body')" "pending i y = (nxt @ a) @ later"
      "committed (the_source i y) = wire_out (the_source i x) @ [2, 0, SET_PATTERN_FILE_CMD]" by blast
    then show ?thesis using srv False x(5,7) f body(1) tk(9) leads_first [of "serviceUpload E" s]
      by (intro exI [of _ y] exI [of _ "a @ later"]) simp
  qed
qed

section \<open>The command\<close>

text \<open>C5: an upload stores what the host sent. On a card with room, with the link up, an accepted
  SET_PATTERN_FILE whose body has been sent leaves under the pattern's path exactly the body and no
  other file changed; the host is answered with success, and every byte that follows the body is
  still there to be read as the next command.\<close>

theorem upload_stores_the_body:
  fixes E :: "('c, 'h, 'w) env" and s :: "('c, 'h, 'w) cp"
  defines "i \<equiv> current_source s"
  assumes card: "writable_card (lib E) files place" "roomy (lib E)"
    and link: "brisk_clock E" "\<forall>t. isConnected E i t" "source_ok (board E) (the_source i s)"
    and ready: "cstate s = ALL_OFF" "\<not> ul_active (xf s)" "\<not> dl_active (xf s)" "\<not> ar_active (xf s)"
    and request: "unat (word16 (pc_data pc) 1) \<le> pattern_count (sd_st s)" "unat (bulk_payload_len pc) = length body" "body \<noteq> []"
    and sent: "pending i s = body @ nxt"
  shows "snd (setPatternFile E pc s) \<and> (\<exists>k later. let t = (serviceUpload E ^^ k) (fst (setPatternFile E pc s)) in
      \<not> ul_active (xf t) \<and> files (the_card t) = (files (the_card s))(upload_path (unat (word16 (pc_data pc) 1)) s \<mapsto> body)
      \<and> pending i t = nxt @ later \<and> committed (the_source i t) = wire_out (the_source i s) @ [2, 0, SET_PATTERN_FILE_CMD])"
proof -
  let ?idx = "unat (word16 (pc_data pc) 1)" and ?n = "bulk_payload_len pc"
  define p where "p = upload_path ?idx s"
  obtain c h where ch: "sd_create (lib E) p (fst (sd_remove (lib E) p (sd_mkdir (lib E) pattern_dir (the_card s)))) = (c, Some h)"
    using card(2) unfolding roomy_def by (metis not_None_eq surjective_pairing)
  note f = writable_card.fresh_file [OF card(1) ch]
  define u where "u = arm_upload E ?idx ?n p h (with_card (\<lambda>_. c)
    (with_card (\<lambda>c. fst (sd_remove (lib E) p (sd_mkdir (lib E) pattern_dir c))) s))"
  have n: "?n \<noteq> 0" using request(2,3) by auto
  have t: "setPatternFile E pc s = (u, True)"
    using ready request(1) n ch by (simp add: setPatternFile_def Let_def p_def u_def not_less)
  have u: "ul_active (xf u)" "ul_source (xf u) = i" "ul_phase (xf u) = kWriting" "ul_h (xf u) = Some h" "ul_remaining (xf u) = ?n"
    "the_card u = c" "pending i u = body @ nxt" "the_source i u = the_source i s"
    using sent by (simp_all add: u_def arm_upload_def i_def with_card_def) (simp_all add: the_card_def)
  have "ms E (tick s + 1 + 1) - ms E (tick s + 1) < 30000" using link(1) unfolding brisk_clock_def by blast
  then have d: "\<not> expired (ms E (tick u)) (ul_deadline (xf u))"
    by (simp add: u_def arm_upload_def with_card_def kUploadIdleTimeoutMs_def not_expired)
  have g: "files (the_card u) (place h) = Some []" using f u(6) by simp
  have l: "length body = unat (ul_remaining (xf u))" using request(2) u(5) by simp
  have ok: "source_ok (board E) (the_source i u)" using link(3) u(8) by simp
  obtain v later where v: "leads (serviceUpload E) u v" "\<not> ul_active (xf v)"
    "files (the_card v) = (files (the_card u))(place h \<mapsto> [] @ body)" "pending i v = nxt @ later"
    "committed (the_source i v) = wire_out (the_source i u) @ [2, 0, SET_PATTERN_FILE_CMD]"
    using upload_loop [OF card link(1) link(2) [rule_format] u(1-4) g u(7) l request(3) d ok] by blast
  obtain j where "(serviceUpload E ^^ j) u = v" using v(1) unfolding leads_def by blast
  then show ?thesis using v(2-5) f u(6,8) t by (auto simp: p_def Let_def intro!: exI [of _ j] exI [of _ later])
qed

text \<open>The bench on a card that is a map, with one empty slot named, and a body on the link.\<close>

definition map_bench :: "arena_hw \<Rightarrow> (byte list \<Rightarrow> byte list option, byte list \<times> nat, u32 \<times> u32) env" where
  "map_bench b = \<lparr>board = b, rtw = reg_file, lib = map_card, us = of_nat, ms = of_nat, pit_free = \<lambda>_. True, nvic_on = \<lambda>_. True,
     i2c_ok = \<lambda>_. True, card_err = \<lambda>_. 0, card_err_data = \<lambda>_. 0, sd_phases = \<lambda>_. (0, 0, 0), sectors_per_cluster = \<lambda>_. 64,
     fat_type = \<lambda>_. 32, pin_level = \<lambda>_ _. False, adc = \<lambda>_. 512, arrivals = \<lambda>_. [], tcp_up = \<lambda>_. True,
     new_client = \<lambda>_. None, raw_result = \<lambda>_. (True, 4096, 0), usb_room = \<lambda>_. 4096, miso = \<lambda>_. [], i2c_bytes = \<lambda>_. [],
     cid = \<lambda>_. None, csd_sectors = \<lambda>_. None, card_kind = \<lambda>_. None, bytes_per_cluster = \<lambda>_. 32768,
     crash_memory = \<lambda>_. [], wdog3_mask = 0, mac_bytes = [], ip_string = [], build_sha = [], build_date = [],
     build_branch = [], build_dirty = False, wait_fuel = 0\<rparr>"

definition one_slot :: "(byte list \<Rightarrow> byte list option, byte list \<times> nat, u32 \<times> u32) cp" where
  "one_slot = (power_on ARENA_HW_2_10 (\<lambda>_. None) (wd0 True (0x2520, 0)) \<lparr>bc_magic = 0, last_op = 0, op_arg = 0, slow_op = 0,
     stamp_us = 0, slow_us = 0, bc_check = 0\<rparr> isr0 blank_tel)\<lparr>sd_st := (sd0 (\<lambda>_. None))\<lparr>mounted := True,
     names := [str ''a.pat''], origin_names := [str ''a.pat'']\<rparr>, net_pipe := [1, 2, 3, 9]\<rparr>"

lemma one_slot_sel:
  "current_source one_slot = Net" "cstate one_slot = ALL_OFF" "\<not> ul_active (xf one_slot)" "\<not> dl_active (xf one_slot)"
  "\<not> ar_active (xf one_slot)" "pattern_count (sd_st one_slot) = 1" "the_card one_slot = (\<lambda>_. None)"
  "the_source Net one_slot = source0 ARENA_HW_2_10" "pending Net one_slot = [1, 2, 3] @ [9]" "upload_path 1 one_slot = str ''/patterns/a.pat''"
  by (simp_all add: one_slot_def power_on_def transfer0_def patternName_def pattern_count_def the_card_def
    sd0_def the_source_def source0_def pending_def content_def upload_path_def pattern_path_def pattern_dir_def str_def)

definition one_upload :: parsed_command where
  "one_upload = \<lparr>pc_cmd = SET_PATTERN_FILE_CMD, pc_data = [0x85, 1, 0], data_len = 3, is_stream = False, is_bulk = True, bulk_payload_len = 3\<rparr>"

lemma upload_stores_the_body_witness:
  "\<exists>k. the_card ((serviceUpload (map_bench ARENA_HW_2_10) ^^ k) (fst (setPatternFile (map_bench ARENA_HW_2_10) one_upload one_slot)))
     (str ''/patterns/a.pat'') = Some [1, 2, 3]"
proof -
  let ?E = "map_bench ARENA_HW_2_10"
  have e: "brisk_clock ?E" "\<forall>t. isConnected ?E Net t" "lib ?E = map_card" "board ?E = ARENA_HW_2_10" "roomy map_card"
    by (simp_all add: brisk_clock_def map_bench_def isConnected_def roomy_def map_card_def)
  have w: "unat (word16 (pc_data one_upload) 1) = 1" "unat (bulk_payload_len one_upload) = length [1, 2, 3 :: byte]"
    by (simp_all add: word16_def get16_def one_upload_def)
  show ?thesis
    using upload_stores_the_body [where E = ?E and s = one_slot and pc = one_upload and files = "\<lambda>c. c" and place = fst
        and body = "[1, 2, 3]" and nxt = "[9]"]
      e one_slot_sel mapped.writable_card_axioms source0_ok [of ARENA_HW_2_10]
    by (simp only: w) (simp add: Let_def, metis fun_upd_same)
qed

end
